theory Spec2Isabelle
  imports Main "HOL-Library.Sublist"
begin

section \<open>Python values and library operations\<close>

text \<open>
  Python strings are modelled as \<open>string\<close>, the UTF-8 bytes of the text. The only
  character the code inspects is the space (one byte, never part of a longer UTF-8
  sequence), so splitting and joining on it is the same on bytes and on code points.
\<close>

text \<open>
  The values the clients handle without a declared type (a parsed JSON body, a
  configuration value, a payload): \<open>None\<close>, booleans, integers, floats, strings, lists,
  dicts with string keys (in insertion order) and plain objects carrying data
  attributes. No operation of the clients inspects a float, so it is carried as its
  literal text.
\<close>

datatype pyval =
    PNone
  | PBool bool
  | PInt int
  | PFloat string
  | PStr string
  | PList "pyval list"
  | PDict "(string \<times> pyval) list"
  | PObj "(string \<times> pyval) list"

text \<open>
  The exceptions the modelled code can raise; \<open>Exception\<close> carries its message.
  \<open>parse_error\<close> lists what \<^verbatim>\<open>response.json()\<close> raises: \<open>JSONDecodeError\<close> on a body that
  is not JSON (a subclass of \<open>ValueError\<close>), a plain \<open>ValueError\<close> (an integer literal
  longer than the digit limit of \<open>int\<close>) and \<open>RecursionError\<close> (brackets nested deeper than
  the interpreter's recursion limit).
\<close>

datatype transport_error = ConnectionError | Timeout

datatype parse_error = JSONDecodeError | ValueError | RecursionError

datatype error =
    KeyError
  | IndexError
  | TypeError
  | AttributeError
  | ParseError parse_error
  | RequestException transport_error
  | Exception string

text \<open>Sequencing of steps that may raise: the first exception ends the computation.\<close>

definition and_then :: "error + 'a \<Rightarrow> ('a \<Rightarrow> error + 'b) \<Rightarrow> error + 'b" where
  "and_then r f = (case r of Inl e \<Rightarrow> Inl e | Inr x \<Rightarrow> f x)"

text \<open>
  \<^verbatim>\<open>try: body  except classes: handler\<close>. The handler runs when the body raises an
  exception of one of the listed classes; any other exception leaves the statement.
\<close>

definition try_except :: "error + 'a \<Rightarrow> (error \<Rightarrow> bool) \<Rightarrow> error + 'a \<Rightarrow> error + 'a" where
  "try_except body caught handler =
     (case body of Inl e \<Rightarrow> if caught e then handler else Inl e | Inr x \<Rightarrow> Inr x)"

text \<open>
  \<^verbatim>\<open>isinstance(e, json.JSONDecodeError)\<close> and \<^verbatim>\<open>isinstance(e, ValueError)\<close>. A
  \<open>JSONDecodeError\<close> is a \<open>ValueError\<close>; \<open>KeyError\<close>, \<open>IndexError\<close>, \<open>TypeError\<close>,
  \<open>AttributeError\<close>, \<open>RecursionError\<close> and a bare \<open>Exception\<close> are neither.
\<close>

definition is_JSONDecodeError :: "error \<Rightarrow> bool" where
  "is_JSONDecodeError e = (e = ParseError JSONDecodeError)"

definition is_ValueError :: "error \<Rightarrow> bool" where
  "is_ValueError e = (e = ParseError JSONDecodeError \<or> e = ParseError ValueError)"

text \<open>
  \<^verbatim>\<open>key in data\<close> for a string \<open>key\<close>: key membership in a dict, element membership in a
  list, substring test in a string, \<open>TypeError\<close> on a value that is not iterable.
\<close>

fun py_in :: "string \<Rightarrow> pyval \<Rightarrow> error + bool" where
  "py_in k (PDict kvs) = Inr (k \<in> set (map fst kvs))"
| "py_in k (PList xs) = Inr (PStr k \<in> set xs)"
| "py_in k (PStr s) = Inr (sublist k s)"
| "py_in k _ = Inl TypeError"

text \<open>
  \<^verbatim>\<open>data[key]\<close> for a string \<open>key\<close>: the value in a dict (\<open>KeyError\<close> when absent);
  \<open>TypeError\<close> on lists and strings (their indices must be integers) and on values
  that are not subscriptable.
\<close>

fun py_getitem :: "pyval \<Rightarrow> string \<Rightarrow> error + pyval" where
  "py_getitem (PDict kvs) k = (case map_of kvs k of None \<Rightarrow> Inl KeyError | Some v \<Rightarrow> Inr v)"
| "py_getitem _ k = Inl TypeError"

text \<open>
  \<^verbatim>\<open>len(x)\<close>. The code only compares it with \<open>0\<close>, which gives the same answer on the
  bytes of a string as on its code points.
\<close>

fun py_len :: "pyval \<Rightarrow> error + nat" where
  "py_len (PList xs) = Inr (length xs)"
| "py_len (PDict kvs) = Inr (length kvs)"
| "py_len (PStr s) = Inr (length s)"
| "py_len _ = Inl TypeError"

text \<open>
  \<^verbatim>\<open>x[0]\<close>: the first element of a list (\<open>IndexError\<close> when empty), the first character
  of a string, \<open>KeyError\<close> on a dict (its keys are strings), \<open>TypeError\<close> otherwise.
\<close>

fun py_first :: "pyval \<Rightarrow> error + pyval" where
  "py_first (PList xs) = (case xs of [] \<Rightarrow> Inl IndexError | x # _ \<Rightarrow> Inr x)"
| "py_first (PStr s) = (case s of [] \<Rightarrow> Inl IndexError | c # _ \<Rightarrow> Inr (PStr [c]))"
| "py_first (PDict kvs) = Inl KeyError"
| "py_first _ = Inl TypeError"

text \<open>
  A method call \<open>x.name(...)\<close> on a value that has no such method: \<open>AttributeError\<close>,
  except that a plain object with a data attribute of that name finds the attribute
  and fails to call it (\<open>TypeError\<close>).
\<close>

fun no_method :: "string \<Rightarrow> pyval \<Rightarrow> error" where
  "no_method name (PObj attrs) = (if name \<in> set (map fst attrs) then TypeError else AttributeError)"
| "no_method name _ = AttributeError"

text \<open>\<^verbatim>\<open>x.get(key, default)\<close>: a dict method.\<close>

fun py_get :: "pyval \<Rightarrow> string \<Rightarrow> pyval \<Rightarrow> error + pyval" where
  "py_get (PDict kvs) k d = Inr (case map_of kvs k of None \<Rightarrow> d | Some v \<Rightarrow> v)"
| "py_get x k d = Inl (no_method ''get'' x)"

text \<open>\<^verbatim>\<open>s.rstrip('/')\<close>: a string method; removes every trailing \<open>/\<close>.\<close>

definition rstrip_slash :: "string \<Rightarrow> string" where
  "rstrip_slash s = rev (dropWhile (\<lambda>c. c = CHR ''/'') (rev s))"

fun py_rstrip_slash :: "pyval \<Rightarrow> error + string" where
  "py_rstrip_slash (PStr s) = Inr (rstrip_slash s)"
| "py_rstrip_slash x = Inl (no_method ''rstrip'' x)"

text \<open>
  \<^verbatim>\<open>hasattr(x, name)\<close> and \<^verbatim>\<open>getattr(x, name, default)\<close> for the names the clients
  ask for (\<open>api_key\<close>, \<open>base_url\<close>, \<open>model\<close>, \<open>app_id\<close>, \<open>aplctn_cd\<close> and the section
  names): only a plain object can carry them; no built-in value has such an attribute.
\<close>

fun py_hasattr :: "pyval \<Rightarrow> string \<Rightarrow> bool" where
  "py_hasattr (PObj attrs) name = (name \<in> set (map fst attrs))"
| "py_hasattr _ name = False"

fun py_getattr :: "pyval \<Rightarrow> string \<Rightarrow> pyval \<Rightarrow> pyval" where
  "py_getattr (PObj attrs) name d = (case map_of attrs name of None \<Rightarrow> d | Some v \<Rightarrow> v)"
| "py_getattr _ name d = d"

text \<open>
  The exceptions raised by the operations above, where a value is not of the shape
  the code expects.
\<close>

definition shape_error :: "error \<Rightarrow> bool" where
  "shape_error e = (e = KeyError \<or> e = IndexError \<or> e = TypeError \<or> e = AttributeError)"

text \<open>
  \<^verbatim>\<open>content.split(' ')\<close>: Python's \<open>str.split\<close> with an explicit one-character
  separator. Every occurrence of the separator ends a word, adjacent separators give
  empty words, and the empty string gives the one-element list \<open>['']\<close>.
\<close>

fun py_split_space :: "string \<Rightarrow> string list" where
  "py_split_space [] = [[]]"
| "py_split_space (c # cs) =
     (if c = CHR '' '' then [] # py_split_space cs
      else (case py_split_space cs of
              [] \<Rightarrow> [[c]]
            | w # ws \<Rightarrow> (c # w) # ws))"

section \<open>Response classes\<close>

text \<open>
  \<^verbatim>\<open>class UsageStats\<close>: three counters, each defaulting to \<open>0\<close>. A counter holds
  whatever value the backend sent.
\<close>

record usage_stats =
  prompt_tokens :: pyval
  completion_tokens :: pyval
  total_tokens :: pyval

definition UsageStats :: "pyval \<Rightarrow> pyval \<Rightarrow> pyval \<Rightarrow> usage_stats" where
  "UsageStats p c t = \<lparr>prompt_tokens = p, completion_tokens = c, total_tokens = t\<rparr>"

text \<open>
  \<^verbatim>\<open>class Choice\<close>: \<open>message\<close> is an object whose attributes are the entries of the
  dict passed in, \<open>delta.content\<close> is \<^verbatim>\<open>message.get('content', '')\<close>.
\<close>

record choice =
  message :: "(string \<times> pyval) list"
  finish_reason :: string
  delta_content :: pyval

definition Choice :: "(string \<times> pyval) list \<Rightarrow> string \<Rightarrow> choice" where
  "Choice msg reason =
     \<lparr>message = msg, finish_reason = reason,
      delta_content = (case map_of msg ''content'' of None \<Rightarrow> PStr [] | Some v \<Rightarrow> v)\<rparr>"

text \<open>
  \<^verbatim>\<open>class CompletionResponse\<close>:
  \<^verbatim>\<open>self.choices = [Choice({"role": "assistant", "content": content})]\<close>.
\<close>

record completion_response =
  choices :: "choice list"
  usage :: usage_stats

definition CompletionResponse :: "pyval \<Rightarrow> usage_stats \<Rightarrow> completion_response" where
  "CompletionResponse content u =
     \<lparr>choices = [Choice [(''role'', PStr ''assistant''), (''content'', content)] ''stop''],
      usage = u\<rparr>"

text \<open>
  \<^verbatim>\<open>class StreamingChunk\<close>: \<open>choices = [choice]\<close> with \<open>choice.delta.content = content\<close>;
  the chunk carries nothing but that text.
\<close>

datatype streaming_chunk = StreamingChunk (chunk_content: string)

section \<open>Streaming emulation\<close>

text \<open>
  \<^verbatim>\<open>ChatCompletion._simulate_streaming\<close> (the same body in both client classes):
  \<^verbatim>\<open>
    words = content.split(' ')
    for i, word in enumerate(words):
        chunk_text = word if i == 0 else ' ' + word
        yield StreamingChunk(chunk_text)
  \<close>
  The generator is finite; the list is the sequence of values it yields, in order.
\<close>

definition simulate_streaming :: "string \<Rightarrow> streaming_chunk list" where
  "simulate_streaming content =
     (let words = py_split_space content
      in map (\<lambda>(i, word). StreamingChunk (if i = 0 then word else CHR '' '' # word))
             (enumerate 0 words))"

text \<open>
  What iterating the generator \<^verbatim>\<open>_simulate_streaming(content)\<close> gives when \<open>content\<close>
  is whatever the response held: creating the generator runs no code, so a content
  that is not a string raises only at the first \<open>next\<close>, where \<^verbatim>\<open>content.split\<close> is
  looked up.
\<close>

fun stream_of :: "pyval \<Rightarrow> error + streaming_chunk list" where
  "stream_of (PStr s) = Inr (simulate_streaming s)"
| "stream_of x = Inl (no_method ''split'' x)"

section \<open>Client state and construction\<close>

text \<open>
  The attributes \<^verbatim>\<open>__init__\<close> sets on a client. \<open>base_url\<close> is always the result of
  \<open>rstrip\<close> or the literal \<open>''\<close>, hence a string; the others hold what the configuration
  held.
\<close>

record client =
  api_key :: pyval
  base_url :: string
  model :: pyval
  app_id :: pyval
  aplctn_cd :: pyval

text \<open>
  The five assignments \<^verbatim>\<open>__init__\<close> makes from a config dict \<open>cfg\<close> (the whole dict or
  its section): \<^verbatim>\<open>cfg.get('api_key')\<close>, \<^verbatim>\<open>cfg.get('base_url', '').rstrip('/')\<close>,
  \<^verbatim>\<open>cfg.get('model', default_model)\<close>, \<^verbatim>\<open>cfg.get('app_id', 'edadip')\<close>,
  \<^verbatim>\<open>cfg.get('aplctn_cd', 'edagnai')\<close>, in this order.
\<close>

definition init_from_dict :: "string \<Rightarrow> pyval \<Rightarrow> error + client" where
  "init_from_dict default_model cfg =
     and_then (py_get cfg ''api_key'' PNone) (\<lambda>k.
     and_then (py_get cfg ''base_url'' (PStr [])) (\<lambda>u.
     and_then (py_rstrip_slash u) (\<lambda>b.
     and_then (py_get cfg ''model'' (PStr default_model)) (\<lambda>m.
     and_then (py_get cfg ''app_id'' (PStr ''edadip'')) (\<lambda>a.
     and_then (py_get cfg ''aplctn_cd'' (PStr ''edagnai'')) (\<lambda>d.
       Inr \<lparr>api_key = k, base_url = b, model = m, app_id = a, aplctn_cd = d\<rparr>))))))"

text \<open>
  The same five assignments from a config object \<open>cfg\<close> (or its section attribute),
  with \<^verbatim>\<open>getattr(cfg, name, default)\<close> in place of \<^verbatim>\<open>cfg.get(name, default)\<close>.
\<close>

definition init_from_object :: "string \<Rightarrow> pyval \<Rightarrow> error + client" where
  "init_from_object default_model cfg =
     and_then (py_rstrip_slash (py_getattr cfg ''base_url'' (PStr []))) (\<lambda>b.
       Inr \<lparr>api_key = py_getattr cfg ''api_key'' PNone, base_url = b,
            model = py_getattr cfg ''model'' (PStr default_model),
            app_id = py_getattr cfg ''app_id'' (PStr ''edadip''),
            aplctn_cd = py_getattr cfg ''aplctn_cd'' (PStr ''edagnai'')\<rparr>)"

text \<open>
  The last branch of \<^verbatim>\<open>__init__\<close>, individual parameters:
  \<^verbatim>\<open>
    self.api_key = config_or_api_key
    self.base_url = base_url.rstrip('/') if base_url else ''
    self.model = model if model else default_model
    self.app_id = 'edadip'
    self.aplctn_cd = 'edagnai'
  \<close>
  \<open>base_url\<close> and \<open>model\<close> are declared \<^verbatim>\<open>str = None\<close>.
\<close>

definition init_from_params :: "string \<Rightarrow> pyval \<Rightarrow> string option \<Rightarrow> string option \<Rightarrow> client" where
  "init_from_params default_model key url mdl =
     \<lparr>api_key = key,
      base_url = (case url of None \<Rightarrow> [] | Some u \<Rightarrow> if u = [] then [] else rstrip_slash u),
      model = (case mdl of None \<Rightarrow> PStr default_model
               | Some m \<Rightarrow> if m = [] then PStr default_model else PStr m),
      app_id = PStr ''edadip'', aplctn_cd = PStr ''edagnai''\<rparr>"

text \<open>
  \<^verbatim>\<open>SFAssistClient.__init__(config_or_api_key, base_url=None, model=None)\<close>: a dict
  (with or without an \<open>sfassist\<close> section), else an object with an \<open>api_key\<close> or an
  \<open>sfassist\<close> attribute, else individual parameters. The debug prints and the creation
  of the \<open>chat\<close> interface do not affect the attributes.
\<close>

definition sfassist_init :: "pyval \<Rightarrow> string option \<Rightarrow> string option \<Rightarrow> error + client" where
  "sfassist_init config_or_api_key url mdl =
     (case config_or_api_key of
        PDict config \<Rightarrow>
          (if ''sfassist'' \<in> set (map fst config)
           then and_then (py_getitem (PDict config) ''sfassist'')
                  (init_from_dict ''claude-4-sonnet'')
           else init_from_dict ''claude-4-sonnet'' (PDict config))
      | _ \<Rightarrow>
          (if py_hasattr config_or_api_key ''api_key'' \<or> py_hasattr config_or_api_key ''sfassist''
           then (if py_hasattr config_or_api_key ''sfassist''
                 then init_from_object ''claude-4-sonnet''
                        (py_getattr config_or_api_key ''sfassist'' PNone)
                 else init_from_object ''claude-4-sonnet'' config_or_api_key)
           else Inr (init_from_params ''claude-4-sonnet'' config_or_api_key url mdl)))"

text \<open>
  \<^verbatim>\<open>SnowflakeCortexClient.__init__\<close>: the same branches with the section name
  \<open>snowflake\<close>; the default model is \<open>snowflake-llama-3.3-70b\<close> in a dict's section and
  \<open>llama3.1-70b\<close> everywhere else.
\<close>

definition cortex_init :: "pyval \<Rightarrow> string option \<Rightarrow> string option \<Rightarrow> error + client" where
  "cortex_init config_or_api_key url mdl =
     (case config_or_api_key of
        PDict config \<Rightarrow>
          (if ''snowflake'' \<in> set (map fst config)
           then and_then (py_getitem (PDict config) ''snowflake'')
                  (init_from_dict ''snowflake-llama-3.3-70b'')
           else init_from_dict ''llama3.1-70b'' (PDict config))
      | _ \<Rightarrow>
          (if py_hasattr config_or_api_key ''api_key'' \<or> py_hasattr config_or_api_key ''snowflake''
           then (if py_hasattr config_or_api_key ''snowflake''
                 then init_from_object ''llama3.1-70b''
                        (py_getattr config_or_api_key ''snowflake'' PNone)
                 else init_from_object ''llama3.1-70b'' config_or_api_key)
           else Inr (init_from_params ''llama3.1-70b'' config_or_api_key url mdl)))"

section \<open>Payload builder\<close>

text \<open>
  A message is a \<^verbatim>\<open>Dict[str, str]\<close>, as \<^verbatim>\<open>_build_payload\<close> declares; a key may be
  missing. \<^verbatim>\<open>msg.get(k)\<close> is \<open>map_of msg k\<close>, and \<^verbatim>\<open>msg[k]\<close> raises \<open>KeyError\<close>
  where \<open>map_of msg k\<close> is \<open>None\<close>.
\<close>

type_synonym message = "(string \<times> string) list"

text \<open>\<^verbatim>\<open>not sys_msg\<close> for a \<^verbatim>\<open>str\<close> or \<open>None\<close>: true for \<open>None\<close> and for the empty string.\<close>

definition not_sys_msg :: "string option \<Rightarrow> bool" where
  "not_sys_msg sys_msg = (sys_msg = None \<or> sys_msg = Some [])"

text \<open>The dict literal \<^verbatim>\<open>{"role": r, "content": c}\<close>.\<close>

definition role_content :: "string \<Rightarrow> string \<Rightarrow> pyval" where
  "role_content r c = PDict [(''role'', PStr r), (''content'', PStr c)]"

text \<open>
  The loop of \<^verbatim>\<open>_build_payload\<close> (the same in both clients), from the current
  \<open>sys_msg\<close> and \<open>filtered_messages\<close>:
  \<^verbatim>\<open>
    for msg in messages:
        if msg.get('role') == 'system':
            if not sys_msg:
                sys_msg = msg['content']
        else:
            filtered_messages.append({"role": msg['role'], "content": msg['content']})
  \<close>
\<close>

fun extract_messages ::
  "message list \<Rightarrow> string option \<Rightarrow> pyval list \<Rightarrow> error + (string option \<times> pyval list)" where
  "extract_messages [] sys_msg filtered_messages = Inr (sys_msg, filtered_messages)"
| "extract_messages (msg # messages) sys_msg filtered_messages =
     (if map_of msg ''role'' = Some ''system'' then
        (if not_sys_msg sys_msg then
           (case map_of msg ''content'' of
              None \<Rightarrow> Inl KeyError
            | Some c \<Rightarrow> extract_messages messages (Some c) filtered_messages)
         else extract_messages messages sys_msg filtered_messages)
      else
        (case map_of msg ''role'' of
           None \<Rightarrow> Inl KeyError
         | Some r \<Rightarrow>
             (case map_of msg ''content'' of
                None \<Rightarrow> Inl KeyError
              | Some c \<Rightarrow>
                  extract_messages messages sys_msg (filtered_messages @ [role_content r c]))))"

definition DEFAULT_SYSTEM_MESSAGE :: string where
  "DEFAULT_SYSTEM_MESSAGE =
     ''You are a helpful AI assistant for data analysis and Python programming.''"

text \<open>
  \<^verbatim>\<open>if not sys_msg: sys_msg = "You are a helpful AI assistant ..."\<close>
\<close>

definition default_sys_msg :: "string option \<Rightarrow> string" where
  "default_sys_msg sys_msg =
     (case sys_msg of
        None \<Rightarrow> DEFAULT_SYSTEM_MESSAGE
      | Some s \<Rightarrow> if s = [] then DEFAULT_SYSTEM_MESSAGE else s)"

text \<open>
  \<^verbatim>\<open>SFAssistClient._build_payload(messages, system_message=None)\<close>. After the loop
  and the default, \<^verbatim>\<open>all_messages = [{"role": "system", "content": sys_msg}] + filtered_messages\<close>
  and the payload is the dict literal below. The history is not shortened.
\<close>

definition sfassist_build_payload ::
  "client \<Rightarrow> message list \<Rightarrow> string option \<Rightarrow> error + pyval" where
  "sfassist_build_payload self messages system_message =
     and_then (extract_messages messages system_message []) (\<lambda>(found, filtered_messages).
       let sys_msg = default_sys_msg found;
           all_messages = [role_content ''system'' sys_msg] @ filtered_messages
       in Inr (PDict [(''query'', PDict [
            (''aplctn_cd'', aplctn_cd self),
            (''app_id'', app_id self),
            (''api_key'', api_key self),
            (''method'', PStr ''cortex''),
            (''model'', model self),
            (''sys_msg'', PStr sys_msg),
            (''limit_convs'', PStr ''0''),
            (''prompt'', PDict [(''messages'', PList all_messages)]),
            (''app_lvl_prefix'', PStr ''edadip''),
            (''user_id'', PStr []),
            (''session_id'', PStr ''dsa_session'')])]))"

text \<open>
  \<^verbatim>\<open>filtered_messages[-10:]\<close> under \<^verbatim>\<open>if len(filtered_messages) > 10\<close>: the last ten
  entries.
\<close>

definition keep_last_10 :: "'a list \<Rightarrow> 'a list" where
  "keep_last_10 xs = (if length xs > 10 then drop (length xs - 10) xs else xs)"

text \<open>
  \<^verbatim>\<open>SnowflakeCortexClient._build_payload(messages, system_message=None)\<close>: the same
  loop and default, then the history is cut to its last ten entries; the model is sent
  as \<^verbatim>\<open>{"name": self.model, "provider": "anthropic"}\<close> and \<open>limit_convs\<close> as the
  integer \<open>0\<close>.
\<close>

definition cortex_build_payload ::
  "client \<Rightarrow> message list \<Rightarrow> string option \<Rightarrow> error + pyval" where
  "cortex_build_payload self messages system_message =
     and_then (extract_messages messages system_message []) (\<lambda>(found, collected).
       let sys_msg = default_sys_msg found;
           filtered_messages = keep_last_10 collected;
           all_messages = [role_content ''system'' sys_msg] @ filtered_messages
       in Inr (PDict [(''query'', PDict [
            (''aplctn_cd'', aplctn_cd self),
            (''app_id'', app_id self),
            (''api_key'', api_key self),
            (''method'', PStr ''cortex''),
            (''model'', PDict [(''name'', model self), (''provider'', PStr ''anthropic'')]),
            (''sys_msg'', PStr sys_msg),
            (''limit_convs'', PInt 0),
            (''prompt'', PDict [(''messages'', PList all_messages)]),
            (''app_lvl_prefix'', PStr ''edadip''),
            (''user_id'', PStr []),
            (''session_id'', PStr ''dsa_session'')])]))"

text \<open>Reading a built payload: \<^verbatim>\<open>payload['query'][k]\<close> and the message array.\<close>

definition query_field :: "pyval \<Rightarrow> string \<Rightarrow> pyval option" where
  "query_field payload k =
     (case payload of
        PDict outer \<Rightarrow>
          (case map_of outer ''query'' of
             Some (PDict q) \<Rightarrow> map_of q k
           | _ \<Rightarrow> None)
      | _ \<Rightarrow> None)"

definition payload_messages :: "pyval \<Rightarrow> pyval list" where
  "payload_messages payload =
     (case query_field payload ''prompt'' of
        Some (PDict pr) \<Rightarrow> (case map_of pr ''messages'' of Some (PList ms) \<Rightarrow> ms | _ \<Rightarrow> [])
      | _ \<Rightarrow> [])"

text \<open>The role of an entry of the message array: \<^verbatim>\<open>entry.get('role')\<close>.\<close>

definition entry_role :: "pyval \<Rightarrow> pyval option" where
  "entry_role entry = (case entry of PDict kvs \<Rightarrow> map_of kvs ''role'' | _ \<Rightarrow> None)"

section \<open>HTTP exchange\<close>

text \<open>
  The arguments of \<^verbatim>\<open>requests.post(self.base_url, headers=headers, json=payload,
  verify=False, timeout=120)\<close> and the parts of the response the clients read:
  \<open>status_code\<close>, the \<open>text\<close> and the outcome of \<^verbatim>\<open>response.json()\<close>: the parsed body or
  the exception the parser raises on this body.
\<close>

record http_request =
  url :: string
  headers :: "(string \<times> pyval) list"
  json :: pyval
  verify :: bool
  timeout :: nat

record http_response =
  status_code :: int
  response_text :: string
  json_body :: "parse_error + pyval"

text \<open>
  The network is a parameter: a function from the request to the response received or
  the transport failure raised by \<open>requests\<close>. Python's \<open>str\<close> (used by the f-string of
  the \<open>Authorization\<close> header and by \<^verbatim>\<open>str(data)\<close>) and \<^verbatim>\<open>json.dumps(_, indent=2)\<close>
  are parameters too, named \<open>str_of\<close> and \<open>dumps\<close>.
\<close>

type_synonym transport = "http_request \<Rightarrow> transport_error + http_response"

definition post :: "transport \<Rightarrow> http_request \<Rightarrow> error + http_response" where
  "post net request =
     (case net request of Inl e \<Rightarrow> Inl (RequestException e) | Inr response \<Rightarrow> Inr response)"

text \<open>\<^verbatim>\<open>response.json()\<close>\<close>

definition response_json :: "http_response \<Rightarrow> error + pyval" where
  "response_json response =
     (case json_body response of Inl e \<Rightarrow> Inl (ParseError e) | Inr data \<Rightarrow> Inr data)"

text \<open>The request both \<^verbatim>\<open>_make_request\<close> methods send.\<close>

definition build_request :: "(pyval \<Rightarrow> string) \<Rightarrow> client \<Rightarrow> pyval \<Rightarrow> http_request" where
  "build_request str_of self payload =
     \<lparr>url = base_url self,
      headers = [
        (''Content-Type'', PStr ''application/json; charset=utf-8''),
        (''Accept'', PStr ''application/json''),
        (''api-key'', api_key self),
        (''Authorization'',
           PStr (''Snowflake Token='' @ [CHR 0x22] @ str_of (api_key self) @ [CHR 0x22]))],
      json = payload, verify = False, timeout = 120\<rparr>"

text \<open>\<^verbatim>\<open>SFAssistClient._make_request(payload)\<close>.\<close>

definition sfassist_make_request ::
  "(pyval \<Rightarrow> string) \<Rightarrow> transport \<Rightarrow> client \<Rightarrow> pyval \<Rightarrow> error + http_response" where
  "sfassist_make_request str_of net self payload = post net (build_request str_of self payload)"

text \<open>
  Whether \<^verbatim>\<open>json.dumps\<close> accepts a value: everything but a plain object, at any depth.
\<close>

fun json_serialisable :: "pyval \<Rightarrow> bool" where
  "json_serialisable (PList xs) = (\<forall>x \<in> set xs. json_serialisable x)"
| "json_serialisable (PDict kvs) = (\<forall>kv \<in> set kvs. json_serialisable (snd kv))"
| "json_serialisable (PObj attrs) = False"
| "json_serialisable _ = True"

text \<open>
  \<^verbatim>\<open>SnowflakeCortexClient._make_request(payload)\<close>: before posting it prints
  \<^verbatim>\<open>json.dumps(payload, indent=2)\<close>, which raises \<open>TypeError\<close> on a payload that cannot be
  serialised; then nothing is sent.
\<close>

definition cortex_make_request ::
  "(pyval \<Rightarrow> string) \<Rightarrow> transport \<Rightarrow> client \<Rightarrow> pyval \<Rightarrow> error + http_response" where
  "cortex_make_request str_of net self payload =
     (if json_serialisable payload then post net (build_request str_of self payload)
      else Inl TypeError)"

section \<open>Chat completion\<close>

text \<open>
  What \<^verbatim>\<open>create\<close> returns: a \<open>CompletionResponse\<close>, or the generator of
  \<^verbatim>\<open>_simulate_streaming\<close>, given by what iterating it produces.
\<close>

datatype completion =
    Completion completion_response
  | ChunkStream "error + streaming_chunk list"

text \<open>
  \<^verbatim>\<open>'choices' in data and len(data['choices']) > 0\<close>, evaluated left to right.
\<close>

definition has_choices :: "pyval \<Rightarrow> error + bool" where
  "has_choices data =
     and_then (py_in ''choices'' data) (\<lambda>present.
       if \<not> present then Inr False
       else and_then (py_getitem data ''choices'') (\<lambda>cs.
            and_then (py_len cs) (\<lambda>n. Inr (n > 0))))"

text \<open>
  \<^verbatim>\<open>data['choices'][0].get('message', {}).get('content', '')\<close>
\<close>

definition first_choice_content :: "pyval \<Rightarrow> error + pyval" where
  "first_choice_content data =
     and_then (py_getitem data ''choices'') (\<lambda>cs.
     and_then (py_first cs) (\<lambda>c.
     and_then (py_get c ''message'' (PDict [])) (\<lambda>m.
       py_get m ''content'' (PStr []))))"

text \<open>
  The extraction chain of \<^verbatim>\<open>SFAssistClient.ChatCompletion.create\<close>:
  \<^verbatim>\<open>
    if 'text' in data: content = data['text']
    elif 'response' in data: content = data['response']
    elif 'choices' in data and len(data['choices']) > 0:
        content = data['choices'][0].get('message', {}).get('content', '')
    elif 'message' in data: content = data['message'].get('content', '')
    else: content = str(data)
  \<close>
\<close>

definition sfassist_extract_content :: "(pyval \<Rightarrow> string) \<Rightarrow> pyval \<Rightarrow> error + pyval" where
  "sfassist_extract_content str_of data =
     and_then (py_in ''text'' data) (\<lambda>has_text.
       if has_text then py_getitem data ''text''
       else and_then (py_in ''response'' data) (\<lambda>has_response.
         if has_response then py_getitem data ''response''
         else and_then (has_choices data) (\<lambda>has_choice.
           if has_choice then first_choice_content data
           else and_then (py_in ''message'' data) (\<lambda>has_message.
             if has_message
             then and_then (py_getitem data ''message'') (\<lambda>m. py_get m ''content'' (PStr []))
             else Inr (PStr (str_of data))))))"

text \<open>
  The chain of \<^verbatim>\<open>SnowflakeCortexClient.ChatCompletion.create\<close>: the same without the
  \<open>message\<close> step.
\<close>

definition cortex_extract_content :: "(pyval \<Rightarrow> string) \<Rightarrow> pyval \<Rightarrow> error + pyval" where
  "cortex_extract_content str_of data =
     and_then (py_in ''text'' data) (\<lambda>has_text.
       if has_text then py_getitem data ''text''
       else and_then (py_in ''response'' data) (\<lambda>has_response.
         if has_response then py_getitem data ''response''
         else and_then (has_choices data) (\<lambda>has_choice.
           if has_choice then first_choice_content data
           else Inr (PStr (str_of data)))))"

text \<open>
  After the extraction (both clients):
  \<^verbatim>\<open>
    if stream: return self._simulate_streaming(content)
    else:
        usage_data = data.get('usage', {})
        usage = UsageStats(prompt_tokens=usage_data.get('prompt_tokens', 0),
                           completion_tokens=usage_data.get('completion_tokens', 0),
                           total_tokens=usage_data.get('total_tokens', 0))
        return CompletionResponse(content, usage)
  \<close>
\<close>

definition complete_from_json :: "pyval \<Rightarrow> pyval \<Rightarrow> bool \<Rightarrow> error + completion" where
  "complete_from_json data content stream =
     (if stream then Inr (ChunkStream (stream_of content))
      else and_then (py_get data ''usage'' (PDict [])) (\<lambda>usage_data.
           and_then (py_get usage_data ''prompt_tokens'' (PInt 0)) (\<lambda>p.
           and_then (py_get usage_data ''completion_tokens'' (PInt 0)) (\<lambda>c.
           and_then (py_get usage_data ''total_tokens'' (PInt 0)) (\<lambda>t.
             Inr (Completion (CompletionResponse content (UsageStats p c t))))))))"

text \<open>
  The handler of \<^verbatim>\<open>except (json.JSONDecodeError, ValueError)\<close> (both clients):
  \<^verbatim>\<open>
    content = response.text
    if stream: return self._simulate_streaming(content)
    else: return CompletionResponse(content, UsageStats())
  \<close>
\<close>

definition complete_from_text :: "string \<Rightarrow> bool \<Rightarrow> completion" where
  "complete_from_text content stream =
     (if stream then ChunkStream (Inr (simulate_streaming content))
      else Completion (CompletionResponse (PStr content) (UsageStats (PInt 0) (PInt 0) (PInt 0))))"

text \<open>
  The \<open>else\<close> branch of \<^verbatim>\<open>if response.status_code == 200\<close> (both clients, with their
  own message prefix):
  \<^verbatim>\<open>
    try:
        error_data = response.json()
        raise Exception(f"<prefix>{json.dumps(error_data, indent=2)}")
    except json.JSONDecodeError:
        raise Exception(f"<prefix>{response.text}")
  \<close>
  The handler catches \<open>JSONDecodeError\<close> only: any other exception of
  \<^verbatim>\<open>response.json()\<close> leaves \<open>create\<close> as it is.
\<close>

definition error_response ::
  "string \<Rightarrow> (pyval \<Rightarrow> string) \<Rightarrow> http_response \<Rightarrow> error + completion" where
  "error_response label dumps response =
     try_except
       (and_then (response_json response) (\<lambda>error_data.
          Inl (Exception (label @ dumps error_data))))
       is_JSONDecodeError
       (Inl (Exception (label @ response_text response)))"

text \<open>
  The response handling of \<^verbatim>\<open>SFAssistClient.ChatCompletion.create\<close>:
  \<^verbatim>\<open>
    if response.status_code == 200:
        try:
            data = response.json()
            <extraction chain, then the result>
        except (json.JSONDecodeError, ValueError) as e:
            <plain text>
    else:
        <error response>
  \<close>
\<close>

definition sfassist_handle_response ::
  "(pyval \<Rightarrow> string) \<Rightarrow> (pyval \<Rightarrow> string) \<Rightarrow> http_response \<Rightarrow> bool \<Rightarrow> error + completion" where
  "sfassist_handle_response str_of dumps response stream =
     (if status_code response = 200 then
        try_except
          (and_then (response_json response) (\<lambda>data.
           and_then (sfassist_extract_content str_of data) (\<lambda>content.
             complete_from_json data content stream)))
          (\<lambda>e. is_JSONDecodeError e \<or> is_ValueError e)
          (Inr (complete_from_text (response_text response) stream))
      else error_response ''API Error Response: '' dumps response)"

text \<open>The response handling of \<^verbatim>\<open>SnowflakeCortexClient.ChatCompletion.create\<close>.\<close>

definition cortex_handle_response ::
  "(pyval \<Rightarrow> string) \<Rightarrow> (pyval \<Rightarrow> string) \<Rightarrow> http_response \<Rightarrow> bool \<Rightarrow> error + completion" where
  "cortex_handle_response str_of dumps response stream =
     (if status_code response = 200 then
        try_except
          (and_then (response_json response) (\<lambda>data.
           and_then (cortex_extract_content str_of data) (\<lambda>content.
             complete_from_json data content stream)))
          (\<lambda>e. is_JSONDecodeError e \<or> is_ValueError e)
          (Inr (complete_from_text (response_text response) stream))
      else error_response '' Error Response: '' dumps response)"

text \<open>
  \<^verbatim>\<open>SFAssistClient.ChatCompletion.create(model, messages, stream=False)\<close>:
  \<^verbatim>\<open>payload = self.client._build_payload(messages)\<close>, then
  \<^verbatim>\<open>response = self.client._make_request(payload)\<close>, then the response handling.
  The result pairs the requests put on the wire, in order, with the value returned or
  the exception raised.
\<close>

definition sfassist_create ::
  "(pyval \<Rightarrow> string) \<Rightarrow> (pyval \<Rightarrow> string) \<Rightarrow> transport \<Rightarrow> client \<Rightarrow>
     string \<Rightarrow> message list \<Rightarrow> bool \<Rightarrow> http_request list \<times> (error + completion)" where
  "sfassist_create str_of dumps net self mdl messages stream =
     (case sfassist_build_payload self messages None of
        Inl e \<Rightarrow> ([], Inl e)
      | Inr payload \<Rightarrow>
          ([build_request str_of self payload],
           and_then (sfassist_make_request str_of net self payload) (\<lambda>response.
             sfassist_handle_response str_of dumps response stream)))"

text \<open>
  \<^verbatim>\<open>SnowflakeCortexClient.ChatCompletion.create(model, messages, stream=False)\<close>, with
  \<^verbatim>\<open>payload = self.client._build_payload(messages, None)\<close>.
\<close>

definition cortex_create ::
  "(pyval \<Rightarrow> string) \<Rightarrow> (pyval \<Rightarrow> string) \<Rightarrow> transport \<Rightarrow> client \<Rightarrow>
     string \<Rightarrow> message list \<Rightarrow> bool \<Rightarrow> http_request list \<times> (error + completion)" where
  "cortex_create str_of dumps net self mdl messages stream =
     (case cortex_build_payload self messages None of
        Inl e \<Rightarrow> ([], Inl e)
      | Inr payload \<Rightarrow>
          (if json_serialisable payload then [build_request str_of self payload] else [],
           and_then (cortex_make_request str_of net self payload) (\<lambda>response.
             cortex_handle_response str_of dumps response stream)))"

section \<open>Library functions and a backend for evaluation\<close>

text \<open>
  Python's \<open>repr\<close> and \<open>str\<close> and \<^verbatim>\<open>json.dumps(_, indent=2)\<close>, for evaluating the clients
  at concrete values. They follow CPython on values built from \<open>None\<close>, booleans,
  integers, lists, dicts and ASCII strings; a float is printed as its literal and a
  plain object has no portable text. The general statements below do not use them:
  they hold for every \<open>str_of\<close> and \<open>dumps\<close>.
\<close>

definition digit_char :: "nat \<Rightarrow> char" where
  "digit_char n = char_of (48 + n)"

fun nat_decimal :: "nat \<Rightarrow> string" where
  "nat_decimal n =
     (if n < 10 then [digit_char n] else nat_decimal (n div 10) @ [digit_char (n mod 10)])"

definition int_decimal :: "int \<Rightarrow> string" where
  "int_decimal i = (if i < 0 then CHR ''-'' # nat_decimal (nat (- i)) else nat_decimal (nat i))"

definition hex_digit :: "nat \<Rightarrow> char" where
  "hex_digit n = (if n < 10 then char_of (48 + n) else char_of (87 + n))"

text \<open>\<^verbatim>\<open>sep.join(xs)\<close>\<close>

definition join_with :: "string \<Rightarrow> string list \<Rightarrow> string" where
  "join_with sep xs =
     (case xs of [] \<Rightarrow> [] | x # rest \<Rightarrow> x @ concat (map (\<lambda>y. sep @ y) rest))"

text \<open>
  \<open>repr\<close> of a string: double quotes when the text holds a single quote and no double
  quote, single quotes otherwise; the quote and the backslash are escaped, and so are
  the control characters.
\<close>

definition repr_char :: "char \<Rightarrow> char \<Rightarrow> string" where
  "repr_char q c =
     (if c = q \<or> c = CHR 0x5C then [CHR 0x5C, c]
      else if c = CHR 0x09 then [CHR 0x5C, CHR ''t'']
      else if c = CHR 0x0A then [CHR 0x5C, CHR ''n'']
      else if c = CHR 0x0D then [CHR 0x5C, CHR ''r'']
      else if of_char c < (32::nat) \<or> of_char c = (127::nat)
        then [CHR 0x5C, CHR ''x'', hex_digit (of_char c div 16), hex_digit (of_char c mod 16)]
      else [c])"

definition repr_str :: "string \<Rightarrow> string" where
  "repr_str s =
     (let q = (if CHR 0x27 \<in> set s \<and> CHR 0x22 \<notin> set s then CHR 0x22 else CHR 0x27)
      in [q] @ concat (map (repr_char q) s) @ [q])"

fun py_repr :: "pyval \<Rightarrow> string" where
  "py_repr PNone = ''None''"
| "py_repr (PBool b) = (if b then ''True'' else ''False'')"
| "py_repr (PInt i) = int_decimal i"
| "py_repr (PFloat lit) = lit"
| "py_repr (PStr s) = repr_str s"
| "py_repr (PList xs) = ''['' @ join_with '', '' (map py_repr xs) @ '']''"
| "py_repr (PDict kvs) =
     ''{'' @ join_with '', ''
              (map (\<lambda>kv. repr_str (fst kv) @ '': '' @ py_repr (snd kv)) kvs) @ ''}''"
| "py_repr (PObj attrs) = ''<object>''"

text \<open>\<open>str\<close> of a string is the string; of anything else here, its \<open>repr\<close>.\<close>

definition py_str :: "pyval \<Rightarrow> string" where
  "py_str v = (case v of PStr s \<Rightarrow> s | _ \<Rightarrow> py_repr v)"

text \<open>
  A JSON string literal as \<^verbatim>\<open>json.dumps\<close> writes it: the double quote, the backslash
  and the control characters escaped.
\<close>

definition json_char :: "char \<Rightarrow> string" where
  "json_char c =
     (if c = CHR 0x22 then [CHR 0x5C, CHR 0x22]
      else if c = CHR 0x5C then [CHR 0x5C, CHR 0x5C]
      else if c = CHR 0x0A then [CHR 0x5C, CHR ''n'']
      else if c = CHR 0x0D then [CHR 0x5C, CHR ''r'']
      else if c = CHR 0x09 then [CHR 0x5C, CHR ''t'']
      else if c = CHR 0x08 then [CHR 0x5C, CHR ''b'']
      else if c = CHR 0x0C then [CHR 0x5C, CHR ''f'']
      else if of_char c < (32::nat) \<or> of_char c = (127::nat)
        then [CHR 0x5C, CHR ''u'', CHR ''0'', CHR ''0'',
              hex_digit (of_char c div 16), hex_digit (of_char c mod 16)]
      else [c])"

definition json_string :: "string \<Rightarrow> string" where
  "json_string s = [CHR 0x22] @ concat (map json_char s) @ [CHR 0x22]"

text \<open>
  \<^verbatim>\<open>json.dumps(v, indent=2)\<close> at nesting depth \<open>lvl\<close>: every element of a non-empty
  list or dict on a line of its own, indented by two spaces per level, separated by a
  comma; a key and its value separated by a colon and a space.
\<close>

fun json_dumps_at :: "nat \<Rightarrow> pyval \<Rightarrow> string" where
  "json_dumps_at lvl PNone = ''null''"
| "json_dumps_at lvl (PBool b) = (if b then ''true'' else ''false'')"
| "json_dumps_at lvl (PInt i) = int_decimal i"
| "json_dumps_at lvl (PFloat lit) = lit"
| "json_dumps_at lvl (PStr s) = json_string s"
| "json_dumps_at lvl (PList xs) =
     (if xs = [] then ''[]''
      else ''['' @ [CHR 0x0A] @ replicate (2 * Suc lvl) CHR '' ''
           @ join_with ('','' @ [CHR 0x0A] @ replicate (2 * Suc lvl) CHR '' '')
               (map (json_dumps_at (Suc lvl)) xs)
           @ [CHR 0x0A] @ replicate (2 * lvl) CHR '' '' @ '']'')"
| "json_dumps_at lvl (PDict kvs) =
     (if kvs = [] then ''{}''
      else ''{'' @ [CHR 0x0A] @ replicate (2 * Suc lvl) CHR '' ''
           @ join_with ('','' @ [CHR 0x0A] @ replicate (2 * Suc lvl) CHR '' '')
               (map (\<lambda>kv. json_string (fst kv) @ '': '' @ json_dumps_at (Suc lvl) (snd kv)) kvs)
           @ [CHR 0x0A] @ replicate (2 * lvl) CHR '' '' @ ''}'')"
| "json_dumps_at lvl (PObj attrs) = []"

definition py_json_dumps :: "pyval \<Rightarrow> string" where
  "py_json_dumps v = json_dumps_at 0 v"

text \<open>A backend that answers every request with the same response.\<close>

definition respond_with :: "http_response \<Rightarrow> transport" where
  "respond_with response request = Inr response"

section \<open>Payload construction on an explicit store\<close>

text \<open>
  Python lists and dicts are objects with identity: the caller's \<open>messages\<close> list and the
  message dicts in it are shared with \<^verbatim>\<open>_build_payload\<close>, which could change them in
  place. The store makes that explicit. An address is an index into the store; a new
  object is put at the end. A store object is a \<^verbatim>\<open>Dict[str, str]\<close> (a message), a list
  of object references, or a dict whose values are immutable values or references
  (the payload and its parts). Strings and client attributes are immutable values and
  are held in place.
\<close>

type_synonym addr = nat

datatype hval = Imm pyval | Ref addr

datatype hobj =
    StrDict "(string \<times> string) list"
  | RefList "addr list"
  | Dict "(string \<times> hval) list"

type_synonym store = "hobj list"

definition lookup :: "store \<Rightarrow> addr \<Rightarrow> hobj option" where
  "lookup h a = (if a < length h then Some (h ! a) else None)"

definition alloc :: "store \<Rightarrow> hobj \<Rightarrow> addr \<times> store" where
  "alloc h obj = (length h, h @ [obj])"

text \<open>\<^verbatim>\<open>l.append(x)\<close>: the list object at \<open>l\<close> is changed in place.\<close>

definition list_append :: "store \<Rightarrow> addr \<Rightarrow> addr \<Rightarrow> store option" where
  "list_append h l x =
     (case lookup h l of
        Some (RefList xs) \<Rightarrow> Some (h[l := RefList (xs @ [x])])
      | _ \<Rightarrow> None)"

text \<open>
  The loop of \<^verbatim>\<open>_build_payload\<close> on the store. \<^verbatim>\<open>for msg in messages\<close> reads the list
  object anew at every step (index \<open>i\<close>), as Python's list iterator does, so a list that
  grew during the loop would be iterated further; the dict literal is a new object and
  \<open>append\<close> updates the list at \<open>filtered_messages\<close> in place. An argument that is not a
  list of \<^verbatim>\<open>Dict[str, str]\<close> is outside the declared type and ends the loop with
  \<open>TypeError\<close>. The result is \<open>None\<close> where the loop does not end.
\<close>

partial_function (option) store_loop ::
  "store \<Rightarrow> addr \<Rightarrow> nat \<Rightarrow> string option \<Rightarrow> addr \<Rightarrow>
     ((error + string option) \<times> store) option" where
  "store_loop h messages i sys_msg filtered_messages =
     (case lookup h messages of
        Some (RefList ms) \<Rightarrow>
          (if i < length ms then
             (case lookup h (ms ! i) of
                Some (StrDict msg) \<Rightarrow>
                  (if map_of msg ''role'' = Some ''system'' then
                     (if not_sys_msg sys_msg then
                        (case map_of msg ''content'' of
                           None \<Rightarrow> Some (Inl KeyError, h)
                         | Some c \<Rightarrow> store_loop h messages (Suc i) (Some c) filtered_messages)
                      else store_loop h messages (Suc i) sys_msg filtered_messages)
                   else
                     (case map_of msg ''role'' of
                        None \<Rightarrow> Some (Inl KeyError, h)
                      | Some r \<Rightarrow>
                          (case map_of msg ''content'' of
                             None \<Rightarrow> Some (Inl KeyError, h)
                           | Some c \<Rightarrow>
                               (case alloc h (StrDict [(''role'', r), (''content'', c)]) of
                                  (d, h1) \<Rightarrow>
                                    (case list_append h1 filtered_messages d of
                                       None \<Rightarrow> Some (Inl TypeError, h1)
                                     | Some h2 \<Rightarrow>
                                         store_loop h2 messages (Suc i) sys_msg
                                           filtered_messages)))))
              | _ \<Rightarrow> Some (Inl TypeError, h))
           else Some (Inr sys_msg, h))
      | _ \<Rightarrow> Some (Inl TypeError, h))"

text \<open>
  The payload dict literal: the inner dicts are created before the dict that holds
  them. \<open>model_field\<close> creates the value of the \<open>model\<close> entry, \<open>limit\<close> is the value of
  \<open>limit_convs\<close>.
\<close>

definition alloc_payload ::
  "client \<Rightarrow> store \<Rightarrow> hval \<Rightarrow> pyval \<Rightarrow> string \<Rightarrow> addr \<Rightarrow> addr \<times> store" where
  "alloc_payload self h model_field limit sys_msg all_messages =
     (case alloc h (Dict [(''messages'', Ref all_messages)]) of (prompt, h1) \<Rightarrow>
      case alloc h1 (Dict [
             (''aplctn_cd'', Imm (aplctn_cd self)),
             (''app_id'', Imm (app_id self)),
             (''api_key'', Imm (api_key self)),
             (''method'', Imm (PStr ''cortex'')),
             (''model'', model_field),
             (''sys_msg'', Imm (PStr sys_msg)),
             (''limit_convs'', Imm limit),
             (''prompt'', Ref prompt),
             (''app_lvl_prefix'', Imm (PStr ''edadip'')),
             (''user_id'', Imm (PStr [])),
             (''session_id'', Imm (PStr ''dsa_session''))]) of (query, h2) \<Rightarrow>
      alloc h2 (Dict [(''query'', Ref query)]))"

text \<open>
  \<^verbatim>\<open>[{"role": "system", "content": sys_msg}] + filtered_messages\<close>: a new dict, a new
  one-element list, and a new list holding the concatenation.
\<close>

definition alloc_all_messages :: "store \<Rightarrow> string \<Rightarrow> addr list \<Rightarrow> addr \<times> store" where
  "alloc_all_messages h sys_msg kept =
     (case alloc h (StrDict [(''role'', ''system''), (''content'', sys_msg)]) of (entry, h1) \<Rightarrow>
      case alloc h1 (RefList [entry]) of (single, h2) \<Rightarrow>
      alloc h2 (RefList ([entry] @ kept)))"

text \<open>
  \<^verbatim>\<open>SFAssistClient._build_payload\<close> on the store: \<open>messages\<close> is the address of the
  caller's list. The result is the address of the payload, or the exception, and the
  store after the call.
\<close>

definition sfassist_build_payload_store ::
  "client \<Rightarrow> store \<Rightarrow> addr \<Rightarrow> string option \<Rightarrow> ((error + addr) \<times> store) option" where
  "sfassist_build_payload_store self h messages system_message =
     (case alloc h (RefList []) of (filtered_messages, h0) \<Rightarrow>
       (case store_loop h0 messages 0 system_message filtered_messages of
          None \<Rightarrow> None
        | Some (Inl e, h1) \<Rightarrow> Some (Inl e, h1)
        | Some (Inr found, h1) \<Rightarrow>
            (case lookup h1 filtered_messages of
               Some (RefList kept) \<Rightarrow>
                 (case alloc_all_messages h1 (default_sys_msg found) kept of
                    (all_messages, h2) \<Rightarrow>
                      (case alloc_payload self h2 (Imm (model self)) (PStr ''0'')
                              (default_sys_msg found) all_messages of
                         (payload, h3) \<Rightarrow> Some (Inr payload, h3)))
             | _ \<Rightarrow> Some (Inl TypeError, h1))))"

text \<open>
  \<^verbatim>\<open>SnowflakeCortexClient._build_payload\<close> on the store: the slice
  \<^verbatim>\<open>filtered_messages[-10:]\<close> is a new list, made only when more than ten entries were
  collected, and the \<open>model\<close> entry is a new dict.
\<close>

definition cortex_build_payload_store ::
  "client \<Rightarrow> store \<Rightarrow> addr \<Rightarrow> string option \<Rightarrow> ((error + addr) \<times> store) option" where
  "cortex_build_payload_store self h messages system_message =
     (case alloc h (RefList []) of (collected, h0) \<Rightarrow>
       (case store_loop h0 messages 0 system_message collected of
        None \<Rightarrow> None
      | Some (Inl e, h1) \<Rightarrow> Some (Inl e, h1)
      | Some (Inr found, h1) \<Rightarrow>
          (case lookup h1 collected of
             Some (RefList entries) \<Rightarrow>
               (case (if length entries > 10
                      then alloc h1 (RefList (drop (length entries - 10) entries))
                      else (collected, h1)) of
                  (filtered_messages, h2) \<Rightarrow>
                    (case lookup h2 filtered_messages of
                       Some (RefList kept) \<Rightarrow>
                         (case alloc_all_messages h2 (default_sys_msg found) kept of
                            (all_messages, h3) \<Rightarrow>
                              (case alloc h3 (Dict [(''name'', Imm (model self)),
                                                    (''provider'', Imm (PStr ''anthropic''))]) of
                                 (model_dict, h4) \<Rightarrow>
                                   (case alloc_payload self h4 (Ref model_dict) (PInt 0)
                                           (default_sys_msg found) all_messages of
                                      (payload, h5) \<Rightarrow> Some (Inr payload, h5))))
                     | _ \<Rightarrow> Some (Inl TypeError, h2)))
           | _ \<Rightarrow> Some (Inl TypeError, h1))))"

text \<open>
  Reading the payload back from the store: the addresses held by the message array
  \<^verbatim>\<open>payload['query']['prompt']['messages']\<close>.
\<close>

definition dict_ref :: "store \<Rightarrow> addr \<Rightarrow> string \<Rightarrow> addr option" where
  "dict_ref h a k =
     (case lookup h a of
        Some (Dict kvs) \<Rightarrow> (case map_of kvs k of Some (Ref b) \<Rightarrow> Some b | _ \<Rightarrow> None)
      | _ \<Rightarrow> None)"

definition store_payload_messages :: "store \<Rightarrow> addr \<Rightarrow> addr list option" where
  "store_payload_messages h payload =
     (case dict_ref h payload ''query'' of
        None \<Rightarrow> None
      | Some q \<Rightarrow>
          (case dict_ref h q ''prompt'' of
             None \<Rightarrow> None
           | Some pr \<Rightarrow>
               (case dict_ref h pr ''messages'' of
                  None \<Rightarrow> None
                | Some l \<Rightarrow> (case lookup h l of Some (RefList ms) \<Rightarrow> Some ms | _ \<Rightarrow> None))))"

section \<open>Notions used in the statements\<close>

text \<open>
  A message is a system message when its role is \<open>system\<close>; it is complete when it has
  both keys. The entry a complete message contributes to the payload copies its two
  values; the non-system part of a sequence keeps the original order.
\<close>

definition is_system :: "message \<Rightarrow> bool" where
  "is_system msg = (map_of msg ''role'' = Some ''system'')"

definition complete :: "message \<Rightarrow> bool" where
  "complete msg = (map_of msg ''role'' \<noteq> None \<and> map_of msg ''content'' \<noteq> None)"

definition entry_of :: "message \<Rightarrow> pyval" where
  "entry_of msg =
     (case map_of msg ''role'' of
        None \<Rightarrow> PNone
      | Some r \<Rightarrow> (case map_of msg ''content'' of None \<Rightarrow> PNone | Some c \<Rightarrow> role_content r c))"

definition non_system :: "message list \<Rightarrow> message list" where
  "non_system messages = filter (\<lambda>msg. \<not> is_system msg) messages"

text \<open>The non-empty contents of the system messages of a sequence, in order.\<close>

definition system_contents :: "message list \<Rightarrow> string list" where
  "system_contents messages =
     concat (map (\<lambda>msg. if is_system msg
                        then (case map_of msg ''content'' of
                                None \<Rightarrow> []
                              | Some c \<Rightarrow> if c = [] then [] else [c])
                        else []) messages)"

text \<open>The number of entries of a message array whose role is \<open>system\<close>.\<close>

definition system_entries :: "pyval list \<Rightarrow> nat" where
  "system_entries entries =
     length (filter (\<lambda>e. entry_role e = Some (PStr ''system'')) entries)"

text \<open>
  A call of \<open>create\<close> receives a response when the payload is built, the request is
  made and the backend answers it.
\<close>

definition sfassist_receives ::
  "(pyval \<Rightarrow> string) \<Rightarrow> transport \<Rightarrow> client \<Rightarrow> message list \<Rightarrow> http_response \<Rightarrow> bool" where
  "sfassist_receives str_of net self messages response =
     (\<exists>payload. sfassist_build_payload self messages None = Inr payload
        \<and> sfassist_make_request str_of net self payload = Inr response)"

definition cortex_receives ::
  "(pyval \<Rightarrow> string) \<Rightarrow> transport \<Rightarrow> client \<Rightarrow> message list \<Rightarrow> http_response \<Rightarrow> bool" where
  "cortex_receives str_of net self messages response =
     (\<exists>payload. cortex_build_payload self messages None = Inr payload
        \<and> cortex_make_request str_of net self payload = Inr response)"

text \<open>Sample inputs for evaluating the clients.\<close>

definition sample_client :: client where
  "sample_client =
     \<lparr>api_key = PStr ''k'', base_url = ''https://host/api'', model = PStr ''claude-4-sonnet'',
      app_id = PStr ''edadip'', aplctn_cd = PStr ''edagnai''\<rparr>"

definition user_says :: "string \<Rightarrow> message" where
  "user_says c = [(''role'', ''user''), (''content'', c)]"

definition system_says :: "string \<Rightarrow> message" where
  "system_says c = [(''role'', ''system''), (''content'', c)]"

definition json_reply :: "int \<Rightarrow> pyval \<Rightarrow> http_response" where
  "json_reply status data =
     \<lparr>status_code = status, response_text = py_json_dumps data, json_body = Inr data\<rparr>"

definition text_reply :: "int \<Rightarrow> string \<Rightarrow> http_response" where
  "text_reply status body =
     \<lparr>status_code = status, response_text = body, json_body = Inl JSONDecodeError\<rparr>"

text \<open>
  Two responses on which \<^verbatim>\<open>response.json()\<close> fails without a \<open>JSONDecodeError\<close>: a body
  of 2000 opening brackets (\<open>RecursionError\<close>) and a body that is one integer literal of
  4301 digits (\<open>ValueError\<close>).
\<close>

definition deep_reply :: "int \<Rightarrow> http_response" where
  "deep_reply status =
     \<lparr>status_code = status, response_text = replicate 2000 CHR ''['',
      json_body = Inl RecursionError\<rparr>"


text \<open>
  What the caller reads from a result of \<open>create\<close>: it is a \<open>CompletionResponse\<close> with one
  choice, whose message is the assistant's with the given content, whose delta carries
  the same content and whose finish reason is \<open>stop\<close>, and the three usage counters are
  the given values.
\<close>

definition answers :: "error + completion \<Rightarrow> pyval \<Rightarrow> pyval \<Rightarrow> pyval \<Rightarrow> pyval \<Rightarrow> bool" where
  "answers result content p c t =
     (case result of
        Inr (Completion r) \<Rightarrow>
          map message (choices r) = [[(''role'', PStr ''assistant''), (''content'', content)]]
          \<and> map delta_content (choices r) = [content]
          \<and> map finish_reason (choices r) = [''stop'']
          \<and> prompt_tokens (usage r) = p
          \<and> completion_tokens (usage r) = c
          \<and> total_tokens (usage r) = t
      | _ \<Rightarrow> False)"

text \<open>
  Reading a parsed body: the content of a message object (the empty string when it
  has none), a counter of a usage object (\<open>0\<close> when it has none), and whether the body
  has no choice to read: \<open>choices\<close> is absent or has length \<open>0\<close>.
\<close>

definition content_of :: "(string \<times> pyval) list \<Rightarrow> pyval" where
  "content_of m = (case map_of m ''content'' of None \<Rightarrow> PStr [] | Some v \<Rightarrow> v)"

definition counter :: "(string \<times> pyval) list \<Rightarrow> string \<Rightarrow> pyval" where
  "counter u k = (case map_of u k of None \<Rightarrow> PInt 0 | Some v \<Rightarrow> v)"

definition no_choices :: "(string \<times> pyval) list \<Rightarrow> bool" where
  "no_choices kvs =
     (case map_of kvs ''choices'' of
        None \<Rightarrow> True
      | Some cs \<Rightarrow> cs = PList [] \<or> cs = PStr [] \<or> cs = PDict [])"

text \<open>
  Reading a configuration: the client its entries describe (each attribute the entry
  given, or its default: no key, the empty URL, the default model and identifiers;
  the URL without its trailing slashes), whether its \<open>base_url\<close> is absent or a string,
  the data attributes of a config object (a value that is not a plain object has
  none of the names asked for), and whether the first argument of the constructor is
  taken as the key itself: it is not a dict and has neither an \<open>api_key\<close> nor a section
  attribute.
\<close>

definition configured :: "string \<Rightarrow> (string \<times> pyval) list \<Rightarrow> client" where
  "configured default_model cfg =
     \<lparr>api_key = (case map_of cfg ''api_key'' of None \<Rightarrow> PNone | Some k \<Rightarrow> k),
      base_url = (case map_of cfg ''base_url'' of Some (PStr s) \<Rightarrow> rstrip_slash s | _ \<Rightarrow> []),
      model = (case map_of cfg ''model'' of None \<Rightarrow> PStr default_model | Some m \<Rightarrow> m),
      app_id = (case map_of cfg ''app_id'' of None \<Rightarrow> PStr ''edadip'' | Some a \<Rightarrow> a),
      aplctn_cd = (case map_of cfg ''aplctn_cd'' of None \<Rightarrow> PStr ''edagnai'' | Some a \<Rightarrow> a)\<rparr>"

definition url_is_string :: "(string \<times> pyval) list \<Rightarrow> bool" where
  "url_is_string cfg =
     (case map_of cfg ''base_url'' of None \<Rightarrow> True | Some (PStr s) \<Rightarrow> True | Some _ \<Rightarrow> False)"

definition attrs_of :: "pyval \<Rightarrow> (string \<times> pyval) list" where
  "attrs_of v = (case v of PObj attrs \<Rightarrow> attrs | _ \<Rightarrow> [])"

definition taken_as_key :: "string \<Rightarrow> pyval \<Rightarrow> bool" where
  "taken_as_key section x =
     (case x of
        PDict cfg \<Rightarrow> False
      | PObj attrs \<Rightarrow> map_of attrs ''api_key'' = None \<and> map_of attrs section = None
      | _ \<Rightarrow> True)"

text \<open>
  Reading the store: the message a \<^verbatim>\<open>Dict[str, str]\<close> object stands for, as the value
  the pure builder puts in a payload, and the message sequence held by a list object
  all of whose elements are such dicts.
\<close>

definition entry_at :: "store \<Rightarrow> addr \<Rightarrow> pyval option" where
  "entry_at h a =
     (case lookup h a of
        Some (StrDict kvs) \<Rightarrow> Some (PDict (map (\<lambda>kv. (fst kv, PStr (snd kv))) kvs))
      | _ \<Rightarrow> None)"

definition message_at :: "store \<Rightarrow> addr \<Rightarrow> message option" where
  "message_at h a = (case lookup h a of Some (StrDict kvs) \<Rightarrow> Some kvs | _ \<Rightarrow> None)"

definition store_messages :: "store \<Rightarrow> addr \<Rightarrow> message list option" where
  "store_messages h l =
     (case lookup h l of
        Some (RefList ms) \<Rightarrow>
          (if list_all (\<lambda>a. message_at h a \<noteq> None) ms
           then Some (map (\<lambda>a. case message_at h a of Some kvs \<Rightarrow> kvs | None \<Rightarrow> []) ms)
           else None)
      | _ \<Rightarrow> None)"

text \<open>A caller's store: two message dicts and, at address 2, the list holding them.\<close>

definition sample_store :: store where
  "sample_store = [StrDict (system_says ''S''), StrDict (user_says ''hi''), RefList [0, 1]]"

section \<open>Streaming emulation: round trip and chunk count\<close>

lemma py_split_space_nonempty: "py_split_space s \<noteq> []"
  by (induction s) (auto split: list.splits)

lemma py_split_space_no_space: "w \<in> set (py_split_space s) \<Longrightarrow> CHR '' '' \<notin> set w"
  by (induction s arbitrary: w) (auto split: list.splits if_splits)

lemma py_split_space_length: "length (py_split_space s) = count_list s (CHR '' '') + 1"
  by (induction s) (auto split: list.splits simp: py_split_space_nonempty)

lemma chunks_after_first:
  "map (\<lambda>(i, word). StreamingChunk (if i = 0 then word else CHR '' '' # word))
       (enumerate (Suc n) ws)
   = map (\<lambda>w. StreamingChunk (CHR '' '' # w)) ws"
  by (induction ws arbitrary: n) auto

lemma simulate_streaming_chunks:
  "simulate_streaming s =
     (case py_split_space s of
        [] \<Rightarrow> []
      | w # ws \<Rightarrow> StreamingChunk w # map (\<lambda>w. StreamingChunk (CHR '' '' # w)) ws)"
  by (simp add: simulate_streaming_def chunks_after_first split: list.splits)

lemma join_split:
  "(case py_split_space s of
      [] \<Rightarrow> []
    | w # ws \<Rightarrow> w @ concat (map (\<lambda>w. CHR '' '' # w) ws)) = s"
  by (induction s) (auto split: list.splits)

lemma concat_chunks: "concat (map chunk_content (simulate_streaming s)) = s"
  using join_split[of s]
  by (auto simp: simulate_streaming_chunks comp_def split: list.splits)

lemma length_simulate_streaming:
  "length (simulate_streaming s) = length (py_split_space s)"
  by (simp add: simulate_streaming_def)

lemma nth_simulate_streaming:
  "i < length (simulate_streaming s) \<Longrightarrow>
     chunk_content (simulate_streaming s ! i) =
       (if i = 0 then py_split_space s ! i else CHR '' '' # py_split_space s ! i)"
  by (auto simp: simulate_streaming_chunks nth_Cons' split: list.splits)

text \<open>
  C2. For every text \<open>T\<close>, the texts of the chunks of \<open>simulate_streaming T\<close>, concatenated
  in emission order, are exactly \<open>T\<close> (the empty text and texts with leading, trailing
  or repeated spaces included). There is one chunk per word of \<open>T\<close>, in the order of the
  words; the first chunk is the first word, every later chunk is one space followed by
  its word, and no word holds a space.
\<close>

theorem simulate_streaming_roundtrip:
  "concat (map chunk_content (simulate_streaming T)) = T
   \<and> length (simulate_streaming T) = length (py_split_space T)
   \<and> (\<forall>i < length (simulate_streaming T).
         chunk_content (simulate_streaming T ! i) =
           (if i = 0 then py_split_space T ! i else CHR '' '' # py_split_space T ! i)
         \<and> CHR '' '' \<notin> set (py_split_space T ! i))"
proof (intro conjI allI impI)
  show "concat (map chunk_content (simulate_streaming T)) = T"
    by (rule concat_chunks)
  show "length (simulate_streaming T) = length (py_split_space T)"
    by (rule length_simulate_streaming)
next
  fix i assume i: "i < length (simulate_streaming T)"
  then show "chunk_content (simulate_streaming T ! i) =
      (if i = 0 then py_split_space T ! i else CHR '' '' # py_split_space T ! i)"
    by (rule nth_simulate_streaming)
  from i have "py_split_space T ! i \<in> set (py_split_space T)"
    by (simp add: length_simulate_streaming)
  then show "CHR '' '' \<notin> set (py_split_space T ! i)"
    by (rule py_split_space_no_space)
qed

theorem simulate_streaming_roundtrip_witness:
  "(2::nat) < length (simulate_streaming '' a  b'')
   \<and> concat (map chunk_content (simulate_streaming '' a  b'')) = '' a  b''
   \<and> map chunk_content (simulate_streaming '' a  b'') = ['''', '' a'', '' '', '' b'']
   \<and> chunk_content (simulate_streaming '' a  b'' ! 2) = CHR '' '' # py_split_space '' a  b'' ! 2
   \<and> CHR '' '' \<notin> set (py_split_space '' a  b'' ! 2)"
proof -
  have len: "(2::nat) < length (simulate_streaming '' a  b'')"
    by (simp add: simulate_streaming_def)
  have chunks: "map chunk_content (simulate_streaming '' a  b'') = ['''', '' a'', '' '', '' b'']"
    by (simp add: simulate_streaming_def)
  from simulate_streaming_roundtrip[of "'' a  b''"] len chunks show ?thesis
    by auto
qed

text \<open>
  C10. For every content \<open>C\<close>, \<open>simulate_streaming C\<close> yields a finite sequence of exactly
  (number of spaces in \<open>C\<close>) + 1 chunks, so never an empty one; the empty string yields
  exactly one chunk, whose text is empty.
\<close>

theorem simulate_streaming_chunk_count:
  "length (simulate_streaming C) = count_list C (CHR '' '') + 1
   \<and> simulate_streaming C \<noteq> []
   \<and> simulate_streaming [] = [StreamingChunk []]"
proof -
  have n: "length (simulate_streaming C) = count_list C (CHR '' '') + 1"
    by (simp add: length_simulate_streaming py_split_space_length)
  then have "simulate_streaming C \<noteq> []" by auto
  with n show ?thesis by (simp add: simulate_streaming_def)
qed

section \<open>Payload builder: what the loop collects\<close>

lemma extract_filtered:
  "extract_messages msgs sys acc = Inr (found, filtered) \<Longrightarrow>
     filtered = acc @ map entry_of (non_system msgs)"
proof (induction msgs arbitrary: sys acc)
  case Nil
  then show ?case by (simp add: non_system_def)
next
  case (Cons m ms)
  show ?case
  proof (cases "is_system m")
    case True
    with Cons.prems have "\<exists>sys'. extract_messages ms sys' acc = Inr (found, filtered)"
      by (auto simp: is_system_def split: if_splits option.splits)
    then obtain sys' where "extract_messages ms sys' acc = Inr (found, filtered)" ..
    from Cons.IH[OF this] True show ?thesis by (simp add: non_system_def)
  next
    case False
    with Cons.prems obtain r c where rc: "map_of m ''role'' = Some r" "map_of m ''content'' = Some c"
      and rest: "extract_messages ms sys (acc @ [role_content r c]) = Inr (found, filtered)"
      by (auto simp: is_system_def split: if_splits option.splits)
    from Cons.IH[OF rest] rc False show ?thesis
      by (simp add: non_system_def entry_of_def)
  qed
qed

lemma extract_found_explicit:
  "\<not> not_sys_msg sys \<Longrightarrow> extract_messages msgs sys acc = Inr (found, filtered) \<Longrightarrow> found = sys"
  by (induction msgs arbitrary: acc) (auto split: if_splits option.splits)

lemma extract_found_history:
  "not_sys_msg sys \<Longrightarrow> extract_messages msgs sys acc = Inr (found, filtered) \<Longrightarrow>
     default_sys_msg found =
       (case system_contents msgs of [] \<Rightarrow> DEFAULT_SYSTEM_MESSAGE | c # _ \<Rightarrow> c)"
proof (induction msgs arbitrary: sys acc)
  case Nil
  then show ?case by (auto simp: system_contents_def default_sys_msg_def not_sys_msg_def)
next
  case (Cons m ms)
  show ?case
  proof (cases "is_system m")
    case True
    with Cons.prems obtain c where c: "map_of m ''content'' = Some c"
      and rest: "extract_messages ms (Some c) acc = Inr (found, filtered)"
      by (auto simp: is_system_def split: if_splits option.splits)
    show ?thesis
    proof (cases "c = []")
      case True
      then have "not_sys_msg (Some c)" by (simp add: not_sys_msg_def)
      from Cons.IH[OF this rest] \<open>is_system m\<close> c True show ?thesis
        by (simp add: system_contents_def)
    next
      case False
      then have "\<not> not_sys_msg (Some c)" by (simp add: not_sys_msg_def)
      from extract_found_explicit[OF this rest] have "found = Some c" .
      with False \<open>is_system m\<close> c show ?thesis
        by (simp add: system_contents_def default_sys_msg_def)
    qed
  next
    case False
    with Cons.prems obtain r c where
      rest: "extract_messages ms sys (acc @ [role_content r c]) = Inr (found, filtered)"
      by (auto simp: is_system_def split: if_splits option.splits)
    from Cons.IH[OF Cons.prems(1) rest] False show ?thesis
      by (simp add: system_contents_def)
  qed
qed

lemma extract_total:
  "list_all complete msgs \<Longrightarrow> \<exists>r. extract_messages msgs sys acc = Inr r"
  by (induction msgs arbitrary: sys acc) (auto simp: complete_def)

lemma default_sys_msg_nonempty: "default_sys_msg found \<noteq> []"
  by (auto simp: default_sys_msg_def DEFAULT_SYSTEM_MESSAGE_def split: option.splits)

lemma entry_of_not_system:
  "m \<in> set (non_system msgs) \<Longrightarrow> entry_role (entry_of m) \<noteq> Some (PStr ''system'')"
  by (auto simp: non_system_def is_system_def entry_of_def entry_role_def role_content_def
           split: option.splits)

lemma sfassist_payload_parts:
  assumes "sfassist_build_payload self msgs sys = Inr p"
  shows "\<exists>found. extract_messages msgs sys [] = Inr (found, map entry_of (non_system msgs))
     \<and> payload_messages p =
         role_content ''system'' (default_sys_msg found) # map entry_of (non_system msgs)
     \<and> query_field p ''sys_msg'' = Some (PStr (default_sys_msg found))
     \<and> query_field p ''model'' = Some (model self)"
proof -
  from assms obtain found filtered where ex: "extract_messages msgs sys [] = Inr (found, filtered)"
    by (auto simp: sfassist_build_payload_def and_then_def split: sum.splits)
  from extract_filtered[OF ex] have f: "filtered = map entry_of (non_system msgs)" by simp
  from assms ex have "p = PDict [(''query'', PDict [
            (''aplctn_cd'', aplctn_cd self),
            (''app_id'', app_id self),
            (''api_key'', api_key self),
            (''method'', PStr ''cortex''),
            (''model'', model self),
            (''sys_msg'', PStr (default_sys_msg found)),
            (''limit_convs'', PStr ''0''),
            (''prompt'', PDict [(''messages'', PList ([role_content ''system'' (default_sys_msg found)] @ filtered))]),
            (''app_lvl_prefix'', PStr ''edadip''),
            (''user_id'', PStr []),
            (''session_id'', PStr ''dsa_session'')])]"
    by (simp add: sfassist_build_payload_def and_then_def Let_def)
  then have "payload_messages p = role_content ''system'' (default_sys_msg found) # filtered"
    and "query_field p ''sys_msg'' = Some (PStr (default_sys_msg found))"
    and "query_field p ''model'' = Some (model self)"
    by (simp_all add: payload_messages_def query_field_def)
  with ex f show ?thesis by auto
qed

lemma cortex_payload_parts:
  assumes "cortex_build_payload self msgs sys = Inr p"
  shows "\<exists>found. extract_messages msgs sys [] = Inr (found, map entry_of (non_system msgs))
     \<and> payload_messages p =
         role_content ''system'' (default_sys_msg found)
           # keep_last_10 (map entry_of (non_system msgs))
     \<and> query_field p ''sys_msg'' = Some (PStr (default_sys_msg found))
     \<and> query_field p ''model'' =
          Some (PDict [(''name'', model self), (''provider'', PStr ''anthropic'')])"
proof -
  from assms obtain found filtered where ex: "extract_messages msgs sys [] = Inr (found, filtered)"
    by (auto simp: cortex_build_payload_def and_then_def split: sum.splits)
  from extract_filtered[OF ex] have f: "filtered = map entry_of (non_system msgs)" by simp
  from assms ex have "p = PDict [(''query'', PDict [
            (''aplctn_cd'', aplctn_cd self),
            (''app_id'', app_id self),
            (''api_key'', api_key self),
            (''method'', PStr ''cortex''),
            (''model'', PDict [(''name'', model self), (''provider'', PStr ''anthropic'')]),
            (''sys_msg'', PStr (default_sys_msg found)),
            (''limit_convs'', PInt 0),
            (''prompt'', PDict [(''messages'', PList ([role_content ''system'' (default_sys_msg found)] @ keep_last_10 filtered))]),
            (''app_lvl_prefix'', PStr ''edadip''),
            (''user_id'', PStr []),
            (''session_id'', PStr ''dsa_session'')])]"
    by (simp add: cortex_build_payload_def and_then_def Let_def)
  then have "payload_messages p = role_content ''system'' (default_sys_msg found) # keep_last_10 filtered"
    and "query_field p ''sys_msg'' = Some (PStr (default_sys_msg found))"
    and "query_field p ''model'' = Some (PDict [(''name'', model self), (''provider'', PStr ''anthropic'')])"
    by (simp_all add: payload_messages_def query_field_def)
  with ex f show ?thesis by auto
qed

lemma build_payload_total:
  assumes "list_all complete msgs"
  shows "\<exists>p. sfassist_build_payload self msgs sys = Inr p"
    and "\<exists>p. cortex_build_payload self msgs sys = Inr p"
proof -
  from extract_total[OF assms] obtain r where "extract_messages msgs sys [] = Inr r" by blast
  then show "\<exists>p. sfassist_build_payload self msgs sys = Inr p"
    and "\<exists>p. cortex_build_payload self msgs sys = Inr p"
    by (cases r; simp add: sfassist_build_payload_def cortex_build_payload_def and_then_def Let_def)+
qed

lemma keep_last_10_map: "keep_last_10 (map f xs) = map f (keep_last_10 xs)"
  by (simp add: keep_last_10_def drop_map)

lemma set_keep_last_10: "set (keep_last_10 xs) \<subseteq> set xs"
  by (auto simp: keep_last_10_def dest: in_set_dropD)

lemma system_entries_history:
  "set ms \<subseteq> set (non_system msgs) \<Longrightarrow> system_entries (map entry_of ms) = 0"
  using entry_of_not_system by (auto simp: system_entries_def filter_empty_conv)

section \<open>Payload builder: the system entry\<close>

lemma system_entries_Cons:
  "system_entries (e # es) =
     (if entry_role e = Some (PStr ''system'') then 1 else 0) + system_entries es"
  by (simp add: system_entries_def)

lemma entry_role_role_content: "entry_role (role_content r c) = Some (PStr r)"
  by (simp add: entry_role_def role_content_def)

lemma found_cases:
  assumes "extract_messages msgs sys [] = Inr (found, filtered)"
  shows "(\<forall>e. sys = Some e \<and> e \<noteq> [] \<longrightarrow> default_sys_msg found = e)
     \<and> (not_sys_msg sys \<longrightarrow> default_sys_msg found =
           (case system_contents msgs of [] \<Rightarrow> DEFAULT_SYSTEM_MESSAGE | c # _ \<Rightarrow> c))"
proof (intro conjI allI impI)
  fix e assume e: "sys = Some e \<and> e \<noteq> []"
  then have "\<not> not_sys_msg sys" by (simp add: not_sys_msg_def)
  from extract_found_explicit[OF this assms] e show "default_sys_msg found = e"
    by (simp add: default_sys_msg_def)
next
  assume "not_sys_msg sys"
  from extract_found_history[OF this assms]
  show "default_sys_msg found =
           (case system_contents msgs of [] \<Rightarrow> DEFAULT_SYSTEM_MESSAGE | c # _ \<Rightarrow> c)" .
qed

text \<open>
  C1 (amended). For every message sequence, the empty one included, and every optional
  explicit system argument: when each message has its two keys, both builders return a
  payload; and whenever a builder returns a payload, its message array holds exactly
  one entry of role \<open>system\<close>, the first, with a non-empty content that is also the
  payload's \<open>sys_msg\<close>. A non-empty explicit argument supplies that content, and the
  system messages of the history are left out of the array. An explicit argument that
  is \<open>None\<close> or the empty string counts as absent: then the first system message of the
  history with a non-empty content supplies it, and the default instruction text
  where there is none.
\<close>

theorem build_payload_system_entry:
  "(list_all complete messages \<longrightarrow>
      (\<exists>p. sfassist_build_payload self messages system_message = Inr p)
    \<and> (\<exists>p. cortex_build_payload self messages system_message = Inr p))
   \<and> (\<forall>p. sfassist_build_payload self messages system_message = Inr p
          \<or> cortex_build_payload self messages system_message = Inr p \<longrightarrow>
        system_entries (payload_messages p) = 1
      \<and> (\<exists>s. hd (payload_messages p) = role_content ''system'' s \<and> s \<noteq> []
           \<and> query_field p ''sys_msg'' = Some (PStr s)
           \<and> (\<forall>e. system_message = Some e \<and> e \<noteq> [] \<longrightarrow> s = e)
           \<and> (not_sys_msg system_message \<longrightarrow>
                s = (case system_contents messages of
                       [] \<Rightarrow> DEFAULT_SYSTEM_MESSAGE
                     | c # _ \<Rightarrow> c))))"
proof (intro conjI allI impI)
  assume "list_all complete messages"
  then show "\<exists>p. sfassist_build_payload self messages system_message = Inr p"
    and "\<exists>p. cortex_build_payload self messages system_message = Inr p"
    by (rule build_payload_total)+
next
  fix p
  assume built: "sfassist_build_payload self messages system_message = Inr p
          \<or> cortex_build_payload self messages system_message = Inr p"
  then have "\<exists>found hist.
      extract_messages messages system_message [] = Inr (found, map entry_of (non_system messages))
    \<and> payload_messages p = role_content ''system'' (default_sys_msg found) # map entry_of hist
    \<and> set hist \<subseteq> set (non_system messages)
    \<and> query_field p ''sys_msg'' = Some (PStr (default_sys_msg found))"
  proof
    assume "sfassist_build_payload self messages system_message = Inr p"
    from sfassist_payload_parts[OF this] show ?thesis by blast
  next
    assume "cortex_build_payload self messages system_message = Inr p"
    from cortex_payload_parts[OF this] set_keep_last_10[of "non_system messages"]
    show ?thesis unfolding keep_last_10_map by blast
  qed
  then obtain found hist where
    ex: "extract_messages messages system_message [] = Inr (found, map entry_of (non_system messages))"
    and pm: "payload_messages p = role_content ''system'' (default_sys_msg found) # map entry_of hist"
    and hist: "set hist \<subseteq> set (non_system messages)"
    and sm: "query_field p ''sys_msg'' = Some (PStr (default_sys_msg found))"
    by blast
  from pm system_entries_history[OF hist]
  show "system_entries (payload_messages p) = 1"
    by (simp add: system_entries_Cons entry_role_role_content)
  from found_cases[OF ex] pm sm default_sys_msg_nonempty[of found]
  show "\<exists>s. hd (payload_messages p) = role_content ''system'' s \<and> s \<noteq> []
           \<and> query_field p ''sys_msg'' = Some (PStr s)
           \<and> (\<forall>e. system_message = Some e \<and> e \<noteq> [] \<longrightarrow> s = e)
           \<and> (not_sys_msg system_message \<longrightarrow>
                s = (case system_contents messages of
                       [] \<Rightarrow> DEFAULT_SYSTEM_MESSAGE
                     | c # _ \<Rightarrow> c))"
    by (intro exI[of _ "default_sys_msg found"]) simp
qed

theorem build_payload_system_entry_witness:
  "list_all complete [system_says ''X'', user_says ''hi'', system_says ''Y'']
   \<and> (\<exists>p. sfassist_build_payload sample_client
              [system_says ''X'', user_says ''hi'', system_says ''Y''] (Some ''E'') = Inr p
          \<and> system_entries (payload_messages p) = 1
          \<and> hd (payload_messages p) = role_content ''system'' ''E''
          \<and> query_field p ''sys_msg'' = Some (PStr ''E''))
   \<and> (\<exists>p. cortex_build_payload sample_client
              [system_says ''X'', user_says ''hi'', system_says ''Y''] None = Inr p
          \<and> system_entries (payload_messages p) = 1
          \<and> hd (payload_messages p) = role_content ''system'' ''X'')
   \<and> not_sys_msg None
   \<and> (\<exists>p. cortex_build_payload sample_client [] None = Inr p
          \<and> system_entries (payload_messages p) = 1
          \<and> hd (payload_messages p) = role_content ''system'' DEFAULT_SYSTEM_MESSAGE)"
proof -
  let ?ms = "[system_says ''X'', user_says ''hi'', system_says ''Y'']"
  have c: "list_all complete ?ms"
    by (simp add: complete_def system_says_def user_says_def)
  have sc: "system_contents ?ms = [''X'', ''Y'']" "system_contents [] = []"
    by (simp_all add: system_contents_def is_system_def system_says_def user_says_def)
  have n: "not_sys_msg None" by (simp add: not_sys_msg_def)
  from build_payload_system_entry[of ?ms sample_client "Some ''E''"] c
  have 1: "\<exists>p. sfassist_build_payload sample_client ?ms (Some ''E'') = Inr p
          \<and> system_entries (payload_messages p) = 1
          \<and> hd (payload_messages p) = role_content ''system'' ''E''
          \<and> query_field p ''sys_msg'' = Some (PStr ''E'')"
    by fastforce
  from build_payload_system_entry[of ?ms sample_client None] c n sc
  have 2: "\<exists>p. cortex_build_payload sample_client ?ms None = Inr p
          \<and> system_entries (payload_messages p) = 1
          \<and> hd (payload_messages p) = role_content ''system'' ''X''"
    by fastforce
  from build_payload_system_entry[of "[]" sample_client None] n sc
  have 3: "\<exists>p. cortex_build_payload sample_client [] None = Inr p
          \<and> system_entries (payload_messages p) = 1
          \<and> hd (payload_messages p) = role_content ''system'' DEFAULT_SYSTEM_MESSAGE"
    by fastforce
  from c 1 2 n 3 show ?thesis by blast
qed

text \<open>
  With the empty string as explicit argument and a system message in the history, the
  content of the system entry is the history's, not the explicit argument.
\<close>

theorem explicit_empty_system_counterexample:
  "map_sum id payload_messages
     (sfassist_build_payload sample_client [system_says ''X'', user_says ''hi''] (Some ''''))
   = Inr [role_content ''system'' ''X'', role_content ''user'' ''hi'']"
  by (simp add: sfassist_build_payload_def and_then_def system_says_def user_says_def
        not_sys_msg_def default_sys_msg_def payload_messages_def query_field_def role_content_def
        Let_def)

section \<open>Payload builder: the history sent\<close>

lemma entry_of_user_says: "entry_of (user_says c) = role_content ''user'' c"
  by (simp add: entry_of_def user_says_def)

lemma non_system_sample:
  "non_system (system_says s # map user_says cs) = map user_says cs"
  by (induction cs) (auto simp: non_system_def is_system_def system_says_def user_says_def)

text \<open>
  C3 (amended). In the Snowflake Cortex client, for every message sequence whose
  non-system part is longer than 10, the history sent after the system entry has
  length exactly 10 and is the last ten non-system messages in their original order;
  with at most 10 non-system messages all of them are sent in order. The SF Assist
  client has no truncation window: it sends every non-system message, in order,
  whatever their number.
\<close>

theorem history_truncation:
  "(list_all complete messages \<longrightarrow>
      (\<exists>p. cortex_build_payload self messages system_message = Inr p)
    \<and> (\<exists>p. sfassist_build_payload self messages system_message = Inr p))
   \<and> (\<forall>p. cortex_build_payload self messages system_message = Inr p \<longrightarrow>
        (10 < length (non_system messages) \<longrightarrow>
            length (tl (payload_messages p)) = 10
          \<and> tl (payload_messages p) =
              map entry_of (drop (length (non_system messages) - 10) (non_system messages)))
      \<and> (length (non_system messages) \<le> 10 \<longrightarrow>
            tl (payload_messages p) = map entry_of (non_system messages)))
   \<and> (\<forall>p. sfassist_build_payload self messages system_message = Inr p \<longrightarrow>
        tl (payload_messages p) = map entry_of (non_system messages))"
proof (intro conjI allI impI)
  assume "list_all complete messages"
  then show "\<exists>p. cortex_build_payload self messages system_message = Inr p"
    and "\<exists>p. sfassist_build_payload self messages system_message = Inr p"
    by (rule build_payload_total)+
next
  fix p assume "sfassist_build_payload self messages system_message = Inr p"
  from sfassist_payload_parts[OF this]
  show "tl (payload_messages p) = map entry_of (non_system messages)" by auto
next
  fix p assume b: "cortex_build_payload self messages system_message = Inr p"
  from cortex_payload_parts[OF b]
  have t: "tl (payload_messages p) = map entry_of (keep_last_10 (non_system messages))"
    by (auto simp: keep_last_10_map)
  {
    assume long: "10 < length (non_system messages)"
    with t show "tl (payload_messages p) =
        map entry_of (drop (length (non_system messages) - 10) (non_system messages))"
      by (simp add: keep_last_10_def)
    with long show "length (tl (payload_messages p)) = 10" by simp
  }
  {
    assume "length (non_system messages) \<le> 10"
    with t show "tl (payload_messages p) = map entry_of (non_system messages)"
      by (simp add: keep_last_10_def)
  }
qed

theorem history_truncation_witness:
  "list_all complete (system_says ''S'' # map user_says
      [''ma'', ''mb'', ''mc'', ''md'', ''me'', ''mf'', ''mg'', ''mh'', ''mi'', ''mj'', ''mk'', ''ml''])
   \<and> 10 < length (non_system (system_says ''S'' # map user_says
      [''ma'', ''mb'', ''mc'', ''md'', ''me'', ''mf'', ''mg'', ''mh'', ''mi'', ''mj'', ''mk'', ''ml'']))
   \<and> (\<exists>p. cortex_build_payload sample_client (system_says ''S'' # map user_says
            [''ma'', ''mb'', ''mc'', ''md'', ''me'', ''mf'', ''mg'', ''mh'', ''mi'', ''mj'', ''mk'', ''ml''])
            None = Inr p
        \<and> length (tl (payload_messages p)) = 10
        \<and> tl (payload_messages p) = map (role_content ''user'')
             [''mc'', ''md'', ''me'', ''mf'', ''mg'', ''mh'', ''mi'', ''mj'', ''mk'', ''ml''])
   \<and> (\<exists>p. sfassist_build_payload sample_client (system_says ''S'' # map user_says
            [''ma'', ''mb'', ''mc'', ''md'', ''me'', ''mf'', ''mg'', ''mh'', ''mi'', ''mj'', ''mk'', ''ml''])
            None = Inr p
        \<and> tl (payload_messages p) = map (role_content ''user'')
             [''ma'', ''mb'', ''mc'', ''md'', ''me'', ''mf'', ''mg'', ''mh'', ''mi'', ''mj'', ''mk'', ''ml''])
   \<and> length (non_system (system_says ''S'' # map user_says [''ma'', ''mb''])) \<le> 10
   \<and> (\<exists>p. cortex_build_payload sample_client (system_says ''S'' # map user_says [''ma'', ''mb''])
            None = Inr p
        \<and> tl (payload_messages p) = map (role_content ''user'') [''ma'', ''mb''])"
proof -
  let ?cs = "[''ma'', ''mb'', ''mc'', ''md'', ''me'', ''mf'', ''mg'', ''mh'', ''mi'', ''mj'', ''mk'', ''ml'']"
  let ?ms = "system_says ''S'' # map user_says ?cs"
  let ?ms2 = "system_says ''S'' # map user_says [''ma'', ''mb'']"
  have c: "list_all complete ?ms" "list_all complete ?ms2"
    by (simp_all add: complete_def system_says_def user_says_def)
  have ns: "non_system ?ms = map user_says ?cs" "non_system ?ms2 = map user_says [''ma'', ''mb'']"
    by (rule non_system_sample)+
  have long: "10 < length (non_system ?ms)" and short: "length (non_system ?ms2) \<le> 10"
    unfolding ns by simp_all
  have e: "map entry_of (map user_says xs) = map (role_content ''user'') xs" for xs
    by (simp add: entry_of_user_says)
  from history_truncation[of ?ms sample_client None] c(1) long
  have cut: "\<exists>p. cortex_build_payload sample_client ?ms None = Inr p
        \<and> length (tl (payload_messages p)) = 10
        \<and> tl (payload_messages p) = map entry_of (drop (length (non_system ?ms) - 10) (non_system ?ms))"
    by blast
  have 1: "\<exists>p. cortex_build_payload sample_client ?ms None = Inr p
        \<and> length (tl (payload_messages p)) = 10
        \<and> tl (payload_messages p) = map (role_content ''user'')
             [''mc'', ''md'', ''me'', ''mf'', ''mg'', ''mh'', ''mi'', ''mj'', ''mk'', ''ml'']"
    using cut unfolding ns by (simp add: entry_of_user_says)
  from history_truncation[of ?ms sample_client None] c(1)
  have "\<exists>p. sfassist_build_payload sample_client ?ms None = Inr p
        \<and> tl (payload_messages p) = map entry_of (non_system ?ms)"
    by blast
  then have 2: "\<exists>p. sfassist_build_payload sample_client ?ms None = Inr p
        \<and> tl (payload_messages p) = map (role_content ''user'') ?cs"
    unfolding ns by (simp add: entry_of_user_says)
  from history_truncation[of ?ms2 sample_client None] c(2) short
  have "\<exists>p. cortex_build_payload sample_client ?ms2 None = Inr p
        \<and> tl (payload_messages p) = map entry_of (non_system ?ms2)"
    by blast
  then have 3: "\<exists>p. cortex_build_payload sample_client ?ms2 None = Inr p
        \<and> tl (payload_messages p) = map (role_content ''user'') [''ma'', ''mb'']"
    unfolding ns by (simp add: entry_of_user_says)
  from c(1) long 1 2 short 3 show ?thesis by blast
qed

text \<open>
  Eleven user messages given to the SF Assist builder: all eleven are sent after the
  system entry.
\<close>

theorem sfassist_no_truncation_counterexample:
  "map_sum id (length \<circ> tl \<circ> payload_messages)
     (sfassist_build_payload sample_client (replicate 11 (user_says ''hi'')) None) = Inr 11"
  by (simp add: sfassist_build_payload_def and_then_def user_says_def numeral_eq_Suc
        not_sys_msg_def default_sys_msg_def payload_messages_def query_field_def Let_def)

section \<open>Chat completion: the requests sent\<close>

lemma sfassist_create_requests:
  "fst (sfassist_create str_of dumps net self mdl messages stream) =
     (case sfassist_build_payload self messages None of
        Inl e \<Rightarrow> []
      | Inr payload \<Rightarrow> [build_request str_of self payload])"
  by (simp add: sfassist_create_def split: sum.splits)

lemma cortex_create_requests:
  "fst (cortex_create str_of dumps net self mdl messages stream) =
     (case cortex_build_payload self messages None of
        Inl e \<Rightarrow> []
      | Inr payload \<Rightarrow> if json_serialisable payload then [build_request str_of self payload] else [])"
  by (simp add: cortex_create_def split: sum.splits)

lemma json_build_request: "json (build_request str_of self payload) = payload"
  by (simp add: build_request_def)

lemma json_serialisable_entry_of: "json_serialisable (entry_of m)"
  by (simp add: entry_of_def role_content_def split: option.splits)

lemma cortex_payload_serialisable:
  assumes "cortex_build_payload self msgs sys = Inr p"
    and "json_serialisable (aplctn_cd self)" "json_serialisable (app_id self)"
    and "json_serialisable (api_key self)" "json_serialisable (model self)"
  shows "json_serialisable p"
proof -
  from assms(1) obtain found filtered where ex: "extract_messages msgs sys [] = Inr (found, filtered)"
    by (auto simp: cortex_build_payload_def and_then_def split: sum.splits)
  from extract_filtered[OF ex] have f: "filtered = map entry_of (non_system msgs)" by simp
  have k: "\<forall>e \<in> set (keep_last_10 filtered). json_serialisable e"
    using set_keep_last_10[of filtered] unfolding f
    by (auto simp: json_serialisable_entry_of)
  from assms(1) ex have "p = PDict [(''query'', PDict [
            (''aplctn_cd'', aplctn_cd self),
            (''app_id'', app_id self),
            (''api_key'', api_key self),
            (''method'', PStr ''cortex''),
            (''model'', PDict [(''name'', model self), (''provider'', PStr ''anthropic'')]),
            (''sys_msg'', PStr (default_sys_msg found)),
            (''limit_convs'', PInt 0),
            (''prompt'', PDict [(''messages'', PList ([role_content ''system'' (default_sys_msg found)] @ keep_last_10 filtered))]),
            (''app_lvl_prefix'', PStr ''edadip''),
            (''user_id'', PStr []),
            (''session_id'', PStr ''dsa_session'')])]"
    by (simp add: cortex_build_payload_def and_then_def Let_def)
  with k assms(2-) show ?thesis
    by (auto simp: role_content_def)
qed

lemma sample_client_serialisable:
  "json_serialisable (aplctn_cd sample_client)" "json_serialisable (app_id sample_client)"
  "json_serialisable (api_key sample_client)" "json_serialisable (model sample_client)"
  by (simp_all add: sample_client_def)

text \<open>
  C8. The \<open>model\<close> argument of \<open>create\<close> is ignored: two calls on the same client that
  differ only in it put the same requests on the wire and, the backend being the same,
  return the same result. The model recorded in every payload sent is the client's
  configured model: the flat value in the SF Assist client, the structure
  \<open>{name, provider}\<close> in the Snowflake Cortex client.
\<close>

theorem create_ignores_model:
  "sfassist_create str_of dumps net self m1 messages stream
     = sfassist_create str_of dumps net self m2 messages stream
   \<and> cortex_create str_of dumps net self m1 messages stream
     = cortex_create str_of dumps net self m2 messages stream
   \<and> (\<forall>request \<in> set (fst (sfassist_create str_of dumps net self m1 messages stream)).
         query_field (json request) ''model'' = Some (model self))
   \<and> (\<forall>request \<in> set (fst (cortex_create str_of dumps net self m1 messages stream)).
         query_field (json request) ''model'' =
           Some (PDict [(''name'', model self), (''provider'', PStr ''anthropic'')]))"
proof (intro conjI ballI)
  show "sfassist_create str_of dumps net self m1 messages stream
     = sfassist_create str_of dumps net self m2 messages stream"
    by (simp add: sfassist_create_def)
  show "cortex_create str_of dumps net self m1 messages stream
     = cortex_create str_of dumps net self m2 messages stream"
    by (simp add: cortex_create_def)
next
  fix request
  assume "request \<in> set (fst (sfassist_create str_of dumps net self m1 messages stream))"
  then obtain payload where "sfassist_build_payload self messages None = Inr payload"
    and "request = build_request str_of self payload"
    by (cases "sfassist_build_payload self messages None")
       (auto simp: sfassist_create_requests)
  with sfassist_payload_parts[of self messages None payload]
  show "query_field (json request) ''model'' = Some (model self)"
    by (auto simp: json_build_request)
next
  fix request
  assume "request \<in> set (fst (cortex_create str_of dumps net self m1 messages stream))"
  then obtain payload where "cortex_build_payload self messages None = Inr payload"
    and "request = build_request str_of self payload"
    by (cases "cortex_build_payload self messages None")
       (auto simp: cortex_create_requests split: if_splits)
  with cortex_payload_parts[of self messages None payload]
  show "query_field (json request) ''model'' =
           Some (PDict [(''name'', model self), (''provider'', PStr ''anthropic'')])"
    by (auto simp: json_build_request)
qed


theorem create_ignores_model_witness:
  "map (\<lambda>request. query_field (json request) ''model'')
      (fst (sfassist_create py_str py_json_dumps (respond_with (json_reply 200 (PDict [(''text'', PStr ''A'')])))
              sample_client ''gpt-4'' [user_says ''hi''] False))
     = [Some (PStr ''claude-4-sonnet'')]
   \<and> map (\<lambda>request. query_field (json request) ''model'')
      (fst (cortex_create py_str py_json_dumps (respond_with (json_reply 200 (PDict [(''text'', PStr ''A'')])))
              sample_client ''gpt-4'' [user_says ''hi''] False))
     = [Some (PDict [(''name'', PStr ''claude-4-sonnet''), (''provider'', PStr ''anthropic'')])]
   \<and> sfassist_create py_str py_json_dumps (respond_with (json_reply 200 (PDict [(''text'', PStr ''A'')])))
         sample_client ''gpt-4'' [user_says ''hi''] False
     = sfassist_create py_str py_json_dumps (respond_with (json_reply 200 (PDict [(''text'', PStr ''A'')])))
         sample_client ''llama'' [user_says ''hi''] False
   \<and> cortex_create py_str py_json_dumps (respond_with (json_reply 200 (PDict [(''text'', PStr ''A'')])))
         sample_client ''gpt-4'' [user_says ''hi''] False
     = cortex_create py_str py_json_dumps (respond_with (json_reply 200 (PDict [(''text'', PStr ''A'')])))
         sample_client ''llama'' [user_says ''hi''] False"
proof -
  let ?net = "respond_with (json_reply 200 (PDict [(''text'', PStr ''A'')]))"
  let ?ms = "[user_says ''hi'']"
  have c: "list_all complete ?ms" by (simp add: complete_def user_says_def)
  from build_payload_total[OF c, of sample_client None] obtain p q where
    p: "sfassist_build_payload sample_client ?ms None = Inr p"
    and q: "cortex_build_payload sample_client ?ms None = Inr q"
    by blast
  from cortex_payload_serialisable[OF q sample_client_serialisable]
  have sq: "json_serialisable q" .
  have m: "model sample_client = PStr ''claude-4-sonnet''" by (simp add: sample_client_def)
  have rs: "fst (sfassist_create py_str py_json_dumps ?net sample_client ''gpt-4'' ?ms False)
      = [build_request py_str sample_client p]"
    by (simp add: sfassist_create_requests p)
  have rc: "fst (cortex_create py_str py_json_dumps ?net sample_client ''gpt-4'' ?ms False)
      = [build_request py_str sample_client q]"
    by (simp add: cortex_create_requests q sq)
  note t = create_ignores_model[of py_str py_json_dumps ?net sample_client "''gpt-4''" ?ms False "''llama''"]
  from t have 1: "sfassist_create py_str py_json_dumps ?net sample_client ''gpt-4'' ?ms False
     = sfassist_create py_str py_json_dumps ?net sample_client ''llama'' ?ms False"
    and 2: "cortex_create py_str py_json_dumps ?net sample_client ''gpt-4'' ?ms False
     = cortex_create py_str py_json_dumps ?net sample_client ''llama'' ?ms False"
    by blast+
  from t have 3: "query_field (json (build_request py_str sample_client p)) ''model'' = Some (PStr ''claude-4-sonnet'')"
    unfolding rs m by simp
  from t have 4: "query_field (json (build_request py_str sample_client q)) ''model''
      = Some (PDict [(''name'', PStr ''claude-4-sonnet''), (''provider'', PStr ''anthropic'')])"
    unfolding rc m by simp
  from 1 2 3 4 show ?thesis unfolding rs rc by simp
qed

section \<open>Chat completion: handling the response received\<close>

lemma and_then_Inr [simp]: "and_then (Inr x) f = f x"
  by (simp add: and_then_def)

lemma and_then_Inl_left [simp]: "and_then (Inl e) f = Inl e"
  by (simp add: and_then_def)

lemma and_then_Inl:
  "and_then r f = Inl e \<Longrightarrow> r = Inl e \<or> (\<exists>x. r = Inr x \<and> f x = Inl e)"
  by (auto simp: and_then_def split: sum.splits)

lemma no_method_kind: "shape_error (no_method name x)"
  by (cases x) (auto simp: shape_error_def)

lemma py_in_kind: "py_in k d = Inl e \<Longrightarrow> shape_error e"
  by (cases d) (auto simp: shape_error_def)

lemma py_getitem_kind:
  "py_getitem d k = Inl e \<Longrightarrow> shape_error e"
  by (cases d) (auto simp: shape_error_def split: option.splits)

lemma py_len_kind: "py_len d = Inl e \<Longrightarrow> shape_error e"
  by (cases d) (auto simp: shape_error_def)

lemma py_first_kind:
  "py_first d = Inl e \<Longrightarrow> shape_error e"
  by (cases d) (auto simp: shape_error_def split: list.splits)

lemma py_get_kind:
  "py_get x k d = Inl e \<Longrightarrow> shape_error e"
  using no_method_kind[of "''get''" x] by (cases x) auto

lemmas py_kind = py_in_kind py_getitem_kind py_len_kind py_first_kind py_get_kind

lemma has_choices_kind:
  "has_choices data = Inl e \<Longrightarrow> shape_error e"
  unfolding has_choices_def
  by (auto dest!: and_then_Inl intro: py_kind split: if_splits)

lemma first_choice_content_kind:
  "first_choice_content data = Inl e \<Longrightarrow> shape_error e"
  unfolding first_choice_content_def
  by (auto dest!: and_then_Inl intro: py_kind)

lemma sfassist_extract_kind:
  "sfassist_extract_content str_of data = Inl e
     \<Longrightarrow> shape_error e"
  unfolding sfassist_extract_content_def
  by (auto dest!: and_then_Inl split: if_splits;
      erule py_kind has_choices_kind first_choice_content_kind)

lemma cortex_extract_kind:
  "cortex_extract_content str_of data = Inl e
     \<Longrightarrow> shape_error e"
  unfolding cortex_extract_content_def
  by (auto dest!: and_then_Inl split: if_splits;
      erule py_kind has_choices_kind first_choice_content_kind)

lemma complete_from_json_kind:
  "complete_from_json data content stream = Inl e
     \<Longrightarrow> shape_error e"
  unfolding complete_from_json_def
  by (auto dest!: and_then_Inl intro: py_kind split: if_splits)

lemma try_except_not_caught:
  "(\<And>e. body = Inl e \<Longrightarrow> \<not> caught e) \<Longrightarrow> try_except body caught handler = body"
  by (auto simp: try_except_def split: sum.splits)

lemma handle_200:
  assumes "status_code response = 200"
  shows "sfassist_handle_response str_of dumps response stream =
           (case json_body response of
              Inr data \<Rightarrow>
                and_then (sfassist_extract_content str_of data) (\<lambda>content.
                  complete_from_json data content stream)
            | Inl RecursionError \<Rightarrow> Inl (ParseError RecursionError)
            | Inl _ \<Rightarrow> Inr (complete_from_text (response_text response) stream))"
    and "cortex_handle_response str_of dumps response stream =
           (case json_body response of
              Inr data \<Rightarrow>
                and_then (cortex_extract_content str_of data) (\<lambda>content.
                  complete_from_json data content stream)
            | Inl RecursionError \<Rightarrow> Inl (ParseError RecursionError)
            | Inl _ \<Rightarrow> Inr (complete_from_text (response_text response) stream))"
proof -
  show "sfassist_handle_response str_of dumps response stream =
           (case json_body response of
              Inr data \<Rightarrow>
                and_then (sfassist_extract_content str_of data) (\<lambda>content.
                  complete_from_json data content stream)
            | Inl RecursionError \<Rightarrow> Inl (ParseError RecursionError)
            | Inl _ \<Rightarrow> Inr (complete_from_text (response_text response) stream))"
  proof (cases "json_body response")
    case (Inl p)
    with assms show ?thesis
      by (cases p)
         (simp_all add: sfassist_handle_response_def response_json_def try_except_def
            is_JSONDecodeError_def is_ValueError_def)
  next
    case (Inr data)
    have "try_except
            (and_then (sfassist_extract_content str_of data) (\<lambda>content.
               complete_from_json data content stream))
            (\<lambda>e. is_JSONDecodeError e \<or> is_ValueError e)
            (Inr (complete_from_text (response_text response) stream))
          = and_then (sfassist_extract_content str_of data) (\<lambda>content.
               complete_from_json data content stream)"
      by (rule try_except_not_caught)
         (auto dest!: and_then_Inl dest!: sfassist_extract_kind complete_from_json_kind
               simp: is_JSONDecodeError_def is_ValueError_def shape_error_def)
    with assms Inr show ?thesis
      by (simp add: sfassist_handle_response_def response_json_def)
  qed
  show "cortex_handle_response str_of dumps response stream =
           (case json_body response of
              Inr data \<Rightarrow>
                and_then (cortex_extract_content str_of data) (\<lambda>content.
                  complete_from_json data content stream)
            | Inl RecursionError \<Rightarrow> Inl (ParseError RecursionError)
            | Inl _ \<Rightarrow> Inr (complete_from_text (response_text response) stream))"
  proof (cases "json_body response")
    case (Inl p)
    with assms show ?thesis
      by (cases p)
         (simp_all add: cortex_handle_response_def response_json_def try_except_def
            is_JSONDecodeError_def is_ValueError_def)
  next
    case (Inr data)
    have "try_except
            (and_then (cortex_extract_content str_of data) (\<lambda>content.
               complete_from_json data content stream))
            (\<lambda>e. is_JSONDecodeError e \<or> is_ValueError e)
            (Inr (complete_from_text (response_text response) stream))
          = and_then (cortex_extract_content str_of data) (\<lambda>content.
               complete_from_json data content stream)"
      by (rule try_except_not_caught)
         (auto dest!: and_then_Inl dest!: cortex_extract_kind complete_from_json_kind
               simp: is_JSONDecodeError_def is_ValueError_def shape_error_def)
    with assms Inr show ?thesis
      by (simp add: cortex_handle_response_def response_json_def)
  qed
qed



lemma post_Inr: "post net request = Inr response \<longleftrightarrow> net request = Inr response"
  by (simp add: post_def split: sum.splits)

lemma sfassist_create_received:
  assumes "sfassist_receives str_of net self messages response"
  shows "snd (sfassist_create str_of dumps net self mdl messages stream)
           = sfassist_handle_response str_of dumps response stream"
    and "length (fst (sfassist_create str_of dumps net self mdl messages stream)) = 1"
  using assms
  by (auto simp: sfassist_receives_def sfassist_create_def and_then_def)

lemma cortex_create_received:
  assumes "cortex_receives str_of net self messages response"
  shows "snd (cortex_create str_of dumps net self mdl messages stream)
           = cortex_handle_response str_of dumps response stream"
    and "length (fst (cortex_create str_of dumps net self mdl messages stream)) = 1"
  using assms
  by (auto simp: cortex_receives_def cortex_create_def cortex_make_request_def and_then_def
           split: if_splits)

lemma sample_receives:
  "sfassist_receives str_of (respond_with response) sample_client [user_says c] response"
  "cortex_receives str_of (respond_with response) sample_client [user_says c] response"
proof -
  have c: "list_all complete [user_says c]" by (simp add: complete_def user_says_def)
  from build_payload_total[OF c, of sample_client None] obtain p q where
    p: "sfassist_build_payload sample_client [user_says c] None = Inr p"
    and q: "cortex_build_payload sample_client [user_says c] None = Inr q"
    by blast
  from cortex_payload_serialisable[OF q sample_client_serialisable]
  have sq: "json_serialisable q" .
  from p show "sfassist_receives str_of (respond_with response) sample_client [user_says c] response"
    by (auto simp: sfassist_receives_def sfassist_make_request_def post_def respond_with_def)
  from q sq show "cortex_receives str_of (respond_with response) sample_client [user_says c] response"
    by (auto simp: cortex_receives_def cortex_make_request_def post_def respond_with_def)
qed

lemma answers_CompletionResponse:
  "answers (Inr (Completion (CompletionResponse content (UsageStats p c t)))) content' p' c' t'
     \<longleftrightarrow> content' = content \<and> p' = p \<and> c' = c \<and> t' = t"
  by (auto simp: answers_def CompletionResponse_def Choice_def UsageStats_def)

section \<open>Chat completion: a body that is not JSON\<close>

text \<open>
  Where \<^verbatim>\<open>response.json()\<close> raises \<open>JSONDecodeError\<close> or another \<open>ValueError\<close> on a 200
  response, \<open>create\<close> returns the raw body: as the text of a \<open>CompletionResponse\<close> whose
  three counters are \<open>0\<close>, or as its chunks when streaming.
\<close>

lemma plain_text_fallback:
  assumes "status_code response = 200"
    and "json_body response = Inl JSONDecodeError \<or> json_body response = Inl ValueError"
  shows "sfassist_receives str_of net self messages response \<Longrightarrow>
           answers (snd (sfassist_create str_of dumps net self mdl messages False))
             (PStr (response_text response)) (PInt 0) (PInt 0) (PInt 0)
         \<and> snd (sfassist_create str_of dumps net self mdl messages True)
             = Inr (ChunkStream (Inr (simulate_streaming (response_text response))))"
    and "cortex_receives str_of net self messages response \<Longrightarrow>
           answers (snd (cortex_create str_of dumps net self mdl messages False))
             (PStr (response_text response)) (PInt 0) (PInt 0) (PInt 0)
         \<and> snd (cortex_create str_of dumps net self mdl messages True)
             = Inr (ChunkStream (Inr (simulate_streaming (response_text response))))"
proof -
  from assms have h:
    "sfassist_handle_response str_of dumps response stream
       = Inr (complete_from_text (response_text response) stream)"
    "cortex_handle_response str_of dumps response stream
       = Inr (complete_from_text (response_text response) stream)" for stream
    by (auto simp: handle_200)
  show "sfassist_receives str_of net self messages response \<Longrightarrow>
           answers (snd (sfassist_create str_of dumps net self mdl messages False))
             (PStr (response_text response)) (PInt 0) (PInt 0) (PInt 0)
         \<and> snd (sfassist_create str_of dumps net self mdl messages True)
             = Inr (ChunkStream (Inr (simulate_streaming (response_text response))))"
    by (simp add: sfassist_create_received(1) h complete_from_text_def
          answers_CompletionResponse)
  show "cortex_receives str_of net self messages response \<Longrightarrow>
           answers (snd (cortex_create str_of dumps net self mdl messages False))
             (PStr (response_text response)) (PInt 0) (PInt 0) (PInt 0)
         \<and> snd (cortex_create str_of dumps net self mdl messages True)
             = Inr (ChunkStream (Inr (simulate_streaming (response_text response))))"
    by (simp add: cortex_create_received(1) h complete_from_text_def
          answers_CompletionResponse)
qed

lemma plain_text_reply:
  "answers (snd (sfassist_create py_str py_json_dumps
                   (respond_with (text_reply 200 ''plain text reply''))
                   sample_client ''m'' [user_says ''hi''] False))
     (PStr ''plain text reply'') (PInt 0) (PInt 0) (PInt 0)"
  "answers (snd (cortex_create py_str py_json_dumps
                   (respond_with (text_reply 200 ''plain text reply''))
                   sample_client ''m'' [user_says ''hi''] False))
     (PStr ''plain text reply'') (PInt 0) (PInt 0) (PInt 0)"
  using plain_text_fallback[of "text_reply 200 ''plain text reply''" py_str
      "respond_with (text_reply 200 ''plain text reply'')" sample_client "[user_says ''hi'']"
      py_json_dumps "''m''"]
    sample_receives[of py_str "text_reply 200 ''plain text reply''" "''hi''"]
  by (simp_all add: text_reply_def)

text \<open>
  C5. A 200 response whose body is 2000 opening brackets does not parse as JSON, and
  \<open>create\<close> raises on it in both clients, with and without streaming:
  \<^verbatim>\<open>response.json()\<close> raises \<open>RecursionError\<close>, which the handler of \<open>JSONDecodeError\<close>
  and \<open>ValueError\<close> does not catch. No \<open>CompletionResponse\<close> holding the raw body is
  returned.
\<close>

theorem deep_nesting_raises:
  "snd (sfassist_create py_str py_json_dumps (respond_with (deep_reply 200))
          sample_client ''m'' [user_says ''hi''] False) = Inl (ParseError RecursionError)
   \<and> snd (sfassist_create py_str py_json_dumps (respond_with (deep_reply 200))
          sample_client ''m'' [user_says ''hi''] True) = Inl (ParseError RecursionError)
   \<and> snd (cortex_create py_str py_json_dumps (respond_with (deep_reply 200))
          sample_client ''m'' [user_says ''hi''] False) = Inl (ParseError RecursionError)
   \<and> snd (cortex_create py_str py_json_dumps (respond_with (deep_reply 200))
          sample_client ''m'' [user_says ''hi''] True) = Inl (ParseError RecursionError)"
proof -
  have s: "sfassist_receives py_str (respond_with (deep_reply 200)) sample_client
             [user_says ''hi''] (deep_reply 200)"
    and c: "cortex_receives py_str (respond_with (deep_reply 200)) sample_client
             [user_says ''hi''] (deep_reply 200)"
    by (rule sample_receives)+
  have h: "sfassist_handle_response py_str py_json_dumps (deep_reply 200) stream
             = Inl (ParseError RecursionError)"
    "cortex_handle_response py_str py_json_dumps (deep_reply 200) stream
             = Inl (ParseError RecursionError)" for stream
    by (simp_all add: handle_200 deep_reply_def)
  show ?thesis
    by (simp add: sfassist_create_received(1)[OF s] cortex_create_received(1)[OF c] h)
qed

section \<open>Chat completion: error responses\<close>












section \<open>Chat completion: extracting the text\<close>

lemma py_in_dict: "py_in k (PDict kvs) = Inr (map_of kvs k \<noteq> None)"
  by (simp add: map_of_eq_None_iff)

lemma has_choices_dict:
  "has_choices (PDict kvs) =
     (case map_of kvs ''choices'' of
        None \<Rightarrow> Inr False
      | Some cs \<Rightarrow> and_then (py_len cs) (\<lambda>n. Inr (n > 0)))"
  by (simp add: has_choices_def py_in_dict del: py_in.simps split: option.splits)

lemma has_choices_none: "no_choices kvs \<Longrightarrow> has_choices (PDict kvs) = Inr False"
  by (auto simp: has_choices_dict no_choices_def split: option.splits)

lemma extract_text:
  assumes "map_of kvs ''text'' = Some v"
  shows "sfassist_extract_content str_of (PDict kvs) = Inr v"
    and "cortex_extract_content str_of (PDict kvs) = Inr v"
  using assms
  by (simp_all add: sfassist_extract_content_def cortex_extract_content_def py_in_dict
        del: py_in.simps)

lemma extract_response:
  assumes "map_of kvs ''text'' = None" "map_of kvs ''response'' = Some v"
  shows "sfassist_extract_content str_of (PDict kvs) = Inr v"
    and "cortex_extract_content str_of (PDict kvs) = Inr v"
  using assms
  by (simp_all add: sfassist_extract_content_def cortex_extract_content_def py_in_dict
        del: py_in.simps)

lemma extract_choices:
  assumes "map_of kvs ''text'' = None" "map_of kvs ''response'' = None"
    and "map_of kvs ''choices'' = Some (PList (PDict c # rest))"
  shows "sfassist_extract_content str_of (PDict kvs) =
           and_then (py_get (PDict c) ''message'' (PDict [])) (\<lambda>m. py_get m ''content'' (PStr []))"
    and "cortex_extract_content str_of (PDict kvs) =
           and_then (py_get (PDict c) ''message'' (PDict [])) (\<lambda>m. py_get m ''content'' (PStr []))"
  using assms
  by (simp_all add: sfassist_extract_content_def cortex_extract_content_def py_in_dict
        has_choices_dict first_choice_content_def del: py_in.simps)

lemma extract_no_choice:
  assumes "map_of kvs ''text'' = None" "map_of kvs ''response'' = None" "no_choices kvs"
  shows "sfassist_extract_content str_of (PDict kvs) =
           (case map_of kvs ''message'' of
              None \<Rightarrow> Inr (PStr (str_of (PDict kvs)))
            | Some m \<Rightarrow> py_get m ''content'' (PStr []))"
    and "cortex_extract_content str_of (PDict kvs) = Inr (PStr (str_of (PDict kvs)))"
  using assms
  by (auto simp add: sfassist_extract_content_def cortex_extract_content_def py_in_dict
        has_choices_none simp del: py_in.simps split: option.splits)

lemma complete_from_json_stream:
  "complete_from_json data (PStr s) True = Inr (ChunkStream (Inr (simulate_streaming s)))"
  by (simp add: complete_from_json_def)

lemma complete_from_json_no_usage:
  "map_of kvs ''usage'' = None \<Longrightarrow>
     answers (complete_from_json (PDict kvs) content False) content (PInt 0) (PInt 0) (PInt 0)"
  by (simp add: complete_from_json_def answers_CompletionResponse)

lemma complete_from_json_usage:
  "map_of kvs ''usage'' = Some (PDict u) \<Longrightarrow>
     answers (complete_from_json (PDict kvs) content False) content
       (counter u ''prompt_tokens'') (counter u ''completion_tokens'') (counter u ''total_tokens'')"
  by (simp add: complete_from_json_def answers_CompletionResponse counter_def)

lemma handle_extracted:
  assumes "status_code response = 200" "json_body response = Inr data"
  shows "sfassist_extract_content str_of data = Inr content \<Longrightarrow>
           sfassist_handle_response str_of dumps response stream
             = complete_from_json data content stream"
    and "cortex_extract_content str_of data = Inr content \<Longrightarrow>
           cortex_handle_response str_of dumps response stream
             = complete_from_json data content stream"
  using assms by (simp_all add: handle_200)

text \<open>
  C4 (amended). For every 200 response whose JSON body is an object, \<open>create\<close> takes the
  completion text from the first step that applies, without merging: the value of
  \<open>text\<close>; else the value of \<open>response\<close>; else, when \<open>choices\<close> is an array headed by an
  object whose \<open>message\<close> is absent or an object, the content of that message (the empty
  string when it is missing); else, when \<open>choices\<close> is absent or empty, in the SF Assist
  client the content of \<open>message\<close> when that is an object and the stringified body when
  it is absent, and in the Snowflake Cortex client, which has no \<open>message\<close> step, always
  the stringified body. Without streaming the text extracted is the content of the
  \<open>CompletionResponse\<close> returned, when \<open>usage\<close> is absent (the counters are \<open>0\<close>) or an
  object (the counters are its values, \<open>0\<close> where missing); with streaming, a text that
  is a string is returned as its chunks. So \<open>{"text": "A", "response": "B"}\<close> gives \<open>A\<close>,
  and \<open>{"response": "hello"}\<close> gives \<open>hello\<close>.
\<close>

theorem extraction_priority:
  "(\<forall>v. map_of kvs ''text'' = Some v \<longrightarrow>
        sfassist_extract_content str_of (PDict kvs) = Inr v
      \<and> cortex_extract_content str_of (PDict kvs) = Inr v)
   \<and> (\<forall>v. map_of kvs ''text'' = None \<and> map_of kvs ''response'' = Some v \<longrightarrow>
        sfassist_extract_content str_of (PDict kvs) = Inr v
      \<and> cortex_extract_content str_of (PDict kvs) = Inr v)
   \<and> (\<forall>c rest. map_of kvs ''text'' = None \<and> map_of kvs ''response'' = None
        \<and> map_of kvs ''choices'' = Some (PList (PDict c # rest)) \<longrightarrow>
        (map_of c ''message'' = None \<longrightarrow>
           sfassist_extract_content str_of (PDict kvs) = Inr (PStr [])
         \<and> cortex_extract_content str_of (PDict kvs) = Inr (PStr []))
      \<and> (\<forall>m. map_of c ''message'' = Some (PDict m) \<longrightarrow>
           sfassist_extract_content str_of (PDict kvs) = Inr (content_of m)
         \<and> cortex_extract_content str_of (PDict kvs) = Inr (content_of m)))
   \<and> (map_of kvs ''text'' = None \<and> map_of kvs ''response'' = None \<and> no_choices kvs \<longrightarrow>
        cortex_extract_content str_of (PDict kvs) = Inr (PStr (str_of (PDict kvs)))
      \<and> (map_of kvs ''message'' = None \<longrightarrow>
           sfassist_extract_content str_of (PDict kvs) = Inr (PStr (str_of (PDict kvs))))
      \<and> (\<forall>m. map_of kvs ''message'' = Some (PDict m) \<longrightarrow>
           sfassist_extract_content str_of (PDict kvs) = Inr (content_of m)))
   \<and> (\<forall>response content. sfassist_receives str_of net self messages response
        \<and> status_code response = 200 \<and> json_body response = Inr (PDict kvs)
        \<and> sfassist_extract_content str_of (PDict kvs) = Inr content \<longrightarrow>
        (\<forall>s. content = PStr s \<longrightarrow>
           snd (sfassist_create str_of dumps net self mdl messages True)
             = Inr (ChunkStream (Inr (simulate_streaming s))))
      \<and> (map_of kvs ''usage'' = None \<longrightarrow>
           answers (snd (sfassist_create str_of dumps net self mdl messages False))
             content (PInt 0) (PInt 0) (PInt 0))
      \<and> (\<forall>u. map_of kvs ''usage'' = Some (PDict u) \<longrightarrow>
           answers (snd (sfassist_create str_of dumps net self mdl messages False))
             content (counter u ''prompt_tokens'') (counter u ''completion_tokens'')
             (counter u ''total_tokens'')))
   \<and> (\<forall>response content. cortex_receives str_of net self messages response
        \<and> status_code response = 200 \<and> json_body response = Inr (PDict kvs)
        \<and> cortex_extract_content str_of (PDict kvs) = Inr content \<longrightarrow>
        (\<forall>s. content = PStr s \<longrightarrow>
           snd (cortex_create str_of dumps net self mdl messages True)
             = Inr (ChunkStream (Inr (simulate_streaming s))))
      \<and> (map_of kvs ''usage'' = None \<longrightarrow>
           answers (snd (cortex_create str_of dumps net self mdl messages False))
             content (PInt 0) (PInt 0) (PInt 0))
      \<and> (\<forall>u. map_of kvs ''usage'' = Some (PDict u) \<longrightarrow>
           answers (snd (cortex_create str_of dumps net self mdl messages False))
             content (counter u ''prompt_tokens'') (counter u ''completion_tokens'')
             (counter u ''total_tokens'')))"
proof (intro conjI allI impI)
  fix v assume "map_of kvs ''text'' = Some v"
  then show "sfassist_extract_content str_of (PDict kvs) = Inr v"
    and "cortex_extract_content str_of (PDict kvs) = Inr v"
    by (rule extract_text)+
next
  fix v assume "map_of kvs ''text'' = None \<and> map_of kvs ''response'' = Some v"
  then show "sfassist_extract_content str_of (PDict kvs) = Inr v"
    and "cortex_extract_content str_of (PDict kvs) = Inr v"
    by (simp_all add: extract_response)
next
  fix c rest
  assume a: "map_of kvs ''text'' = None \<and> map_of kvs ''response'' = None
        \<and> map_of kvs ''choices'' = Some (PList (PDict c # rest))"
  assume "map_of c ''message'' = None"
  with a show "sfassist_extract_content str_of (PDict kvs) = Inr (PStr [])"
    and "cortex_extract_content str_of (PDict kvs) = Inr (PStr [])"
    by (simp_all add: extract_choices[of kvs c rest])
next
  fix c rest m
  assume a: "map_of kvs ''text'' = None \<and> map_of kvs ''response'' = None
        \<and> map_of kvs ''choices'' = Some (PList (PDict c # rest))"
  assume "map_of c ''message'' = Some (PDict m)"
  with a show "sfassist_extract_content str_of (PDict kvs) = Inr (content_of m)"
    and "cortex_extract_content str_of (PDict kvs) = Inr (content_of m)"
    by (simp_all add: extract_choices[of kvs c rest] content_of_def)
next
  assume a: "map_of kvs ''text'' = None \<and> map_of kvs ''response'' = None \<and> no_choices kvs"
  then have b: "map_of kvs ''text'' = None" "map_of kvs ''response'' = None" "no_choices kvs"
    by simp_all
  show "cortex_extract_content str_of (PDict kvs) = Inr (PStr (str_of (PDict kvs)))"
    by (rule extract_no_choice(2)[OF b])
  show "sfassist_extract_content str_of (PDict kvs) = Inr (PStr (str_of (PDict kvs)))"
    if "map_of kvs ''message'' = None"
    using that by (simp add: extract_no_choice(1)[OF b])
  show "sfassist_extract_content str_of (PDict kvs) = Inr (content_of m)"
    if "map_of kvs ''message'' = Some (PDict m)" for m
    using that by (simp add: extract_no_choice(1)[OF b] content_of_def)
next
  fix response content
  assume a: "sfassist_receives str_of net self messages response
        \<and> status_code response = 200 \<and> json_body response = Inr (PDict kvs)
        \<and> sfassist_extract_content str_of (PDict kvs) = Inr content"
  then have r: "sfassist_receives str_of net self messages response" by simp
  from a have h: "snd (sfassist_create str_of dumps net self mdl messages stream)
      = complete_from_json (PDict kvs) content stream" for stream
    by (simp add: sfassist_create_received(1)[OF r] handle_extracted(1))
  show "snd (sfassist_create str_of dumps net self mdl messages True)
             = Inr (ChunkStream (Inr (simulate_streaming s)))"
    if "content = PStr s" for s
    using that by (simp add: h complete_from_json_stream)
  show "answers (snd (sfassist_create str_of dumps net self mdl messages False))
             content (PInt 0) (PInt 0) (PInt 0)"
    if "map_of kvs ''usage'' = None"
    using that by (simp add: h complete_from_json_no_usage)
  show "answers (snd (sfassist_create str_of dumps net self mdl messages False))
             content (counter u ''prompt_tokens'') (counter u ''completion_tokens'')
             (counter u ''total_tokens'')"
    if "map_of kvs ''usage'' = Some (PDict u)" for u
    using that by (simp add: h complete_from_json_usage)
next
  fix response content
  assume a: "cortex_receives str_of net self messages response
        \<and> status_code response = 200 \<and> json_body response = Inr (PDict kvs)
        \<and> cortex_extract_content str_of (PDict kvs) = Inr content"
  then have r: "cortex_receives str_of net self messages response" by simp
  from a have h: "snd (cortex_create str_of dumps net self mdl messages stream)
      = complete_from_json (PDict kvs) content stream" for stream
    by (simp add: cortex_create_received(1)[OF r] handle_extracted(2))
  show "snd (cortex_create str_of dumps net self mdl messages True)
             = Inr (ChunkStream (Inr (simulate_streaming s)))"
    if "content = PStr s" for s
    using that by (simp add: h complete_from_json_stream)
  show "answers (snd (cortex_create str_of dumps net self mdl messages False))
             content (PInt 0) (PInt 0) (PInt 0)"
    if "map_of kvs ''usage'' = None"
    using that by (simp add: h complete_from_json_no_usage)
  show "answers (snd (cortex_create str_of dumps net self mdl messages False))
             content (counter u ''prompt_tokens'') (counter u ''completion_tokens'')
             (counter u ''total_tokens'')"
    if "map_of kvs ''usage'' = Some (PDict u)" for u
    using that by (simp add: h complete_from_json_usage)
qed

theorem extraction_priority_witness:
  "answers (snd (sfassist_create py_str py_json_dumps
         (respond_with (json_reply 200 (PDict [(''text'', PStr ''A''), (''response'', PStr ''B'')])))
         sample_client ''m'' [user_says ''hi''] False))
     (PStr ''A'') (PInt 0) (PInt 0) (PInt 0)
   \<and> answers (snd (cortex_create py_str py_json_dumps
         (respond_with (json_reply 200 (PDict [(''response'', PStr ''hello'')])))
         sample_client ''m'' [user_says ''hi''] False))
     (PStr ''hello'') (PInt 0) (PInt 0) (PInt 0)
   \<and> snd (cortex_create py_str py_json_dumps
         (respond_with (json_reply 200 (PDict [(''response'', PStr ''hello'')])))
         sample_client ''m'' [user_says ''hi''] True)
     = Inr (ChunkStream (Inr [StreamingChunk ''hello'']))
   \<and> answers (snd (sfassist_create py_str py_json_dumps
         (respond_with (json_reply 200
            (PDict [(''response'', PStr ''B''),
                    (''usage'', PDict [(''prompt_tokens'', PInt 3), (''total_tokens'', PInt 5)])])))
         sample_client ''m'' [user_says ''hi''] False))
     (PStr ''B'') (PInt 3) (PInt 0) (PInt 5)
   \<and> sfassist_extract_content py_str
        (PDict [(''choices'', PList [PDict [(''message'', PDict [(''content'', PStr ''hi'')])]]),
                (''message'', PDict [(''content'', PStr ''other'')])])
     = Inr (PStr ''hi'')
   \<and> cortex_extract_content py_str (PDict [(''choices'', PList [PDict []])]) = Inr (PStr [])
   \<and> sfassist_extract_content py_str
        (PDict [(''choices'', PList []), (''message'', PDict [(''content'', PStr ''hi'')])])
     = Inr (PStr ''hi'')
   \<and> sfassist_extract_content py_str (PDict [(''status'', PStr ''ok'')])
     = Inr (PStr ''{'status': 'ok'}'')"
proof -
  let ?ab = "[(''text'', PStr ''A''), (''response'', PStr ''B'')]"
  let ?hello = "[(''response'', PStr ''hello'')]"
  let ?usage = "[(''prompt_tokens'', PInt 3), (''total_tokens'', PInt 5)]"
  let ?used = "[(''response'', PStr ''B''), (''usage'', PDict ?usage)]"
  let ?m = "[(''content'', PStr ''hi'')]"
  let ?ch = "[(''choices'', PList [PDict [(''message'', PDict ?m)]]),
              (''message'', PDict [(''content'', PStr ''other'')])]"
  let ?bare = "[(''choices'', PList [PDict []])]"
  let ?msg = "[(''choices'', PList []), (''message'', PDict ?m)]"
  let ?none = "[(''status'', PStr ''ok'')]"
  let ?ms = "[user_says ''hi'']"
  note t = extraction_priority[of _ py_str _ sample_client ?ms py_json_dumps "''m''"]
  note by_text = t[THEN conjunct1, rule_format]
  note by_response = t[THEN conjunct2, THEN conjunct1, rule_format]
  note by_choice = t[THEN conjunct2, THEN conjunct2, THEN conjunct1, rule_format]
  note by_rest = t[THEN conjunct2, THEN conjunct2, THEN conjunct2, THEN conjunct1, rule_format]
  note sf = t[THEN conjunct2, THEN conjunct2, THEN conjunct2, THEN conjunct2, THEN conjunct1,
              rule_format]
  note cx = t[THEN conjunct2, THEN conjunct2, THEN conjunct2, THEN conjunct2, THEN conjunct2,
              rule_format]
  have ab: "sfassist_extract_content py_str (PDict ?ab) = Inr (PStr ''A'')"
    using by_text[of ?ab "PStr ''A''"] by simp
  have 1: "answers (snd (sfassist_create py_str py_json_dumps
         (respond_with (json_reply 200 (PDict ?ab))) sample_client ''m'' ?ms False))
     (PStr ''A'') (PInt 0) (PInt 0) (PInt 0)"
  proof -
    have "sfassist_receives py_str (respond_with (json_reply 200 (PDict ?ab))) sample_client ?ms
            (json_reply 200 (PDict ?ab))
        \<and> status_code (json_reply 200 (PDict ?ab)) = 200
        \<and> json_body (json_reply 200 (PDict ?ab)) = Inr (PDict ?ab)
        \<and> sfassist_extract_content py_str (PDict ?ab) = Inr (PStr ''A'')"
      using sample_receives(1) ab by (simp add: json_reply_def)
    from sf[OF this, THEN conjunct2, THEN conjunct1] show ?thesis by simp
  qed
  have hello: "cortex_extract_content py_str (PDict ?hello) = Inr (PStr ''hello'')"
    using by_response[of ?hello "PStr ''hello''"] by simp
  have rh: "cortex_receives py_str (respond_with (json_reply 200 (PDict ?hello))) sample_client ?ms
            (json_reply 200 (PDict ?hello))
        \<and> status_code (json_reply 200 (PDict ?hello)) = 200
        \<and> json_body (json_reply 200 (PDict ?hello)) = Inr (PDict ?hello)
        \<and> cortex_extract_content py_str (PDict ?hello) = Inr (PStr ''hello'')"
    using sample_receives(2) hello by (simp add: json_reply_def)
  have 2: "answers (snd (cortex_create py_str py_json_dumps
         (respond_with (json_reply 200 (PDict ?hello))) sample_client ''m'' ?ms False))
     (PStr ''hello'') (PInt 0) (PInt 0) (PInt 0)"
    using cx[OF rh, THEN conjunct2, THEN conjunct1] by simp
  have 3: "snd (cortex_create py_str py_json_dumps (respond_with (json_reply 200 (PDict ?hello)))
         sample_client ''m'' ?ms True)
     = Inr (ChunkStream (Inr [StreamingChunk ''hello'']))"
    using cx[OF rh, THEN conjunct1, rule_format, of "''hello''"]
    by (simp add: simulate_streaming_def)
  have used: "sfassist_extract_content py_str (PDict ?used) = Inr (PStr ''B'')"
    using by_response[of ?used "PStr ''B''"] by simp
  have 4: "answers (snd (sfassist_create py_str py_json_dumps
         (respond_with (json_reply 200 (PDict ?used))) sample_client ''m'' ?ms False))
     (PStr ''B'') (PInt 3) (PInt 0) (PInt 5)"
  proof -
    have "sfassist_receives py_str (respond_with (json_reply 200 (PDict ?used))) sample_client ?ms
            (json_reply 200 (PDict ?used))
        \<and> status_code (json_reply 200 (PDict ?used)) = 200
        \<and> json_body (json_reply 200 (PDict ?used)) = Inr (PDict ?used)
        \<and> sfassist_extract_content py_str (PDict ?used) = Inr (PStr ''B'')"
      using sample_receives(1) used by (simp add: json_reply_def)
    from sf[OF this, THEN conjunct2, THEN conjunct2, rule_format, of ?usage]
    show ?thesis by (simp add: counter_def)
  qed
  have 5: "sfassist_extract_content py_str (PDict ?ch) = Inr (PStr ''hi'')"
    using by_choice[of ?ch "[(''message'', PDict ?m)]" "[]", THEN conjunct2, rule_format, of ?m,
                    THEN conjunct1]
    by (simp add: content_of_def)
  have 6: "cortex_extract_content py_str (PDict ?bare) = Inr (PStr [])"
    using by_choice[of ?bare "[]" "[]", THEN conjunct1, rule_format, THEN conjunct2]
    by simp
  have 7: "sfassist_extract_content py_str (PDict ?msg) = Inr (PStr ''hi'')"
    using by_rest[of ?msg, THEN conjunct2, THEN conjunct2, rule_format, of ?m]
    by (simp add: content_of_def no_choices_def)
  have "py_str (PDict ?none) = ''{'status': 'ok'}''"
    by code_simp
  then have 8: "sfassist_extract_content py_str (PDict ?none) = Inr (PStr ''{'status': 'ok'}'')"
    using by_rest[of ?none, THEN conjunct2, THEN conjunct1, rule_format]
    by (simp add: no_choices_def)
  from 1 2 3 4 5 6 7 8 show ?thesis by blast
qed

text \<open>
  The Snowflake Cortex client given a body whose only field is \<open>message\<close>: the text is the
  stringified body, not the message content.
\<close>

theorem cortex_message_counterexample:
  "answers (snd (cortex_create py_str py_json_dumps
         (respond_with (json_reply 200 (PDict [(''message'', PDict [(''content'', PStr ''hi'')])])))
         sample_client ''m'' [user_says ''q''] False))
     (PStr ''{'message': {'content': 'hi'}}'') (PInt 0) (PInt 0) (PInt 0)"
proof -
  let ?d = "PDict [(''message'', PDict [(''content'', PStr ''hi'')])]"
  have r: "cortex_receives py_str (respond_with (json_reply 200 ?d)) sample_client [user_says ''q'']
      (json_reply 200 ?d)"
    by (rule sample_receives)
  have s: "py_str ?d = ''{'message': {'content': 'hi'}}''"
    by code_simp
  have e: "cortex_extract_content py_str ?d = Inr (PStr (py_str ?d))"
    by (simp add: cortex_extract_content_def has_choices_def)
  have h: "cortex_handle_response py_str py_json_dumps (json_reply 200 ?d) False
      = complete_from_json ?d (PStr (py_str ?d)) False"
    by (rule handle_extracted(2)) (simp_all add: json_reply_def e)
  show ?thesis
    unfolding cortex_create_received(1)[OF r] h s
    by (rule complete_from_json_no_usage) simp
qed

section \<open>Client construction\<close>

lemma no_method_cases: "no_method name x = AttributeError \<or> no_method name x = TypeError"
  by (cases x) auto

lemma py_get_error:
  assumes "py_get x k d = Inl e"
  shows "e = AttributeError \<or> e = TypeError"
proof -
  from assms have "e = no_method ''get'' x"
    by (cases x) (simp_all del: no_method.simps)
  with no_method_cases show ?thesis by simp
qed

lemma py_rstrip_slash_error:
  assumes "py_rstrip_slash x = Inl e"
  shows "e = AttributeError \<or> e = TypeError"
proof -
  from assms have "e = no_method ''rstrip'' x"
    by (cases x) (simp_all del: no_method.simps)
  with no_method_cases show ?thesis by simp
qed

lemma init_from_dict_error:
  "init_from_dict dm cfg = Inl e \<Longrightarrow> e = AttributeError \<or> e = TypeError"
  unfolding init_from_dict_def
  by (auto dest!: and_then_Inl dest: py_get_error py_rstrip_slash_error)

lemma init_from_object_error:
  "init_from_object dm cfg = Inl e \<Longrightarrow> e = AttributeError \<or> e = TypeError"
  unfolding init_from_object_def
  by (auto dest!: and_then_Inl dest: py_rstrip_slash_error)

lemma rstrip_slash_empty: "rstrip_slash [] = []"
  by (simp add: rstrip_slash_def)

lemma url_is_string_cases:
  assumes "url_is_string cfg"
  obtains "map_of cfg ''base_url'' = None"
  | s where "map_of cfg ''base_url'' = Some (PStr s)"
  using assms by (auto simp: url_is_string_def split: option.splits pyval.splits)

lemma init_from_dict_configured:
  assumes "url_is_string cfg"
  shows "init_from_dict dm (PDict cfg) = Inr (configured dm cfg)"
  using assms
  by (rule url_is_string_cases)
     (simp_all add: init_from_dict_def configured_def rstrip_slash_empty)

lemma init_from_object_configured:
  assumes "url_is_string (attrs_of v)"
  shows "init_from_object dm v = Inr (configured dm (attrs_of v))"
proof (cases "\<exists>attrs. v = PObj attrs")
  case True
  then obtain attrs where v: "v = PObj attrs" by blast
  with assms have "url_is_string attrs" by (simp add: attrs_of_def)
  then show ?thesis
    by (rule url_is_string_cases)
       (simp_all add: v init_from_object_def configured_def attrs_of_def rstrip_slash_empty)
next
  case False
  then have "attrs_of v = []"
    and "\<And>name d. py_getattr v name d = d"
    by (cases v; simp add: attrs_of_def)+
  then show ?thesis
    by (simp add: init_from_object_def configured_def rstrip_slash_empty)
qed

lemma section_lookup:
  "map_of cfg k = Some v \<Longrightarrow> k \<in> set (map fst cfg)"
  "map_of cfg k = None \<Longrightarrow> k \<notin> set (map fst cfg)"
  by (auto simp: map_of_eq_None_iff dest: map_of_SomeD intro: rev_image_eqI)

lemma py_getitem_present:
  "k \<in> set (map fst cfg) \<Longrightarrow> \<exists>v. py_getitem (PDict cfg) k = Inr v \<and> map_of cfg k = Some v"
  by (cases "map_of cfg k") (auto simp: map_of_eq_None_iff)

lemma sfassist_init_error:
  assumes "sfassist_init x u mdl = Inl e"
  shows "e = AttributeError \<or> e = TypeError"
proof (cases "\<exists>cfg. x = PDict cfg")
  case True
  then obtain cfg where x: "x = PDict cfg" by blast
  show ?thesis
  proof (cases "''sfassist'' \<in> set (map fst cfg)")
    case True
    from py_getitem_present[OF True] obtain v where
      "py_getitem (PDict cfg) ''sfassist'' = Inr v" by blast
    with assms x True have "init_from_dict ''claude-4-sonnet'' v = Inl e"
      by (simp add: sfassist_init_def)
    then show ?thesis by (rule init_from_dict_error)
  next
    case False
    with assms x have "init_from_dict ''claude-4-sonnet'' (PDict cfg) = Inl e"
      by (simp add: sfassist_init_def)
    then show ?thesis by (rule init_from_dict_error)
  qed
next
  case False
  with assms have "\<exists>o'. init_from_object ''claude-4-sonnet'' o' = Inl e"
    by (cases x) (auto simp: sfassist_init_def split: if_splits)
  then show ?thesis using init_from_object_error by blast
qed

lemma cortex_init_error:
  assumes "cortex_init x u mdl = Inl e"
  shows "e = AttributeError \<or> e = TypeError"
proof (cases "\<exists>cfg. x = PDict cfg")
  case True
  then obtain cfg where x: "x = PDict cfg" by blast
  show ?thesis
  proof (cases "''snowflake'' \<in> set (map fst cfg)")
    case True
    from py_getitem_present[OF True] obtain v where
      "py_getitem (PDict cfg) ''snowflake'' = Inr v" by blast
    with assms x True have "init_from_dict ''snowflake-llama-3.3-70b'' v = Inl e"
      by (simp add: cortex_init_def)
    then show ?thesis by (rule init_from_dict_error)
  next
    case False
    with assms x have "init_from_dict ''llama3.1-70b'' (PDict cfg) = Inl e"
      by (simp add: cortex_init_def)
    then show ?thesis by (rule init_from_dict_error)
  qed
next
  case False
  with assms have "\<exists>o'. init_from_object ''llama3.1-70b'' o' = Inl e"
    by (cases x) (auto simp: cortex_init_def split: if_splits)
  then show ?thesis using init_from_object_error by blast
qed

lemma init_dict_root:
  assumes "map_of cfg section = None"
  shows "section \<notin> set (map fst cfg)"
  using assms by (rule section_lookup(2))

lemma init_dict_section:
  assumes "map_of cfg section = Some v"
  shows "section \<in> set (map fst cfg)" "py_getitem (PDict cfg) section = Inr v"
proof -
  from assms show "section \<in> set (map fst cfg)" by (rule section_lookup(1))
  from assms show "py_getitem (PDict cfg) section = Inr v" by simp
qed

lemma hasattr_obj: "py_hasattr (PObj attrs) name \<longleftrightarrow> map_of attrs name \<noteq> None"
  by (simp add: map_of_eq_None_iff)

lemma getattr_obj:
  "map_of attrs name = Some v \<Longrightarrow> py_getattr (PObj attrs) name d = v"
  by simp

lemma taken_as_key_params:
  assumes "taken_as_key section x"
  shows "\<not> py_hasattr x ''api_key''" "\<not> py_hasattr x section" "\<And>cfg. x \<noteq> PDict cfg"
  using assms
  by (cases x; simp add: taken_as_key_def map_of_eq_None_iff)+


text \<open>
  C7 (amended). Construction validates nothing and raises no configuration error. From
  a config dict or a config object (read from its client section when it has one,
  the section of a dict being a dict) whose \<open>base_url\<close> is absent or a string, and from
  individual parameters, it returns the client whose \<open>api_key\<close> is the value given
  (\<open>None\<close> when there is none), whose \<open>base_url\<close> is the string given without its trailing
  slashes (the empty string when there is none) and whose model and identifiers are
  the values given or the defaults: a missing key or URL is accepted. When construction
  raises, the exception is an \<open>AttributeError\<close> or a \<open>TypeError\<close>.
\<close>

theorem construction_without_validation:
  "(map_of cfg ''sfassist'' = None \<and> url_is_string cfg \<longrightarrow>
      sfassist_init (PDict cfg) u mdl = Inr (configured ''claude-4-sonnet'' cfg))
   \<and> (\<forall>sec. map_of cfg ''sfassist'' = Some (PDict sec) \<and> url_is_string sec \<longrightarrow>
      sfassist_init (PDict cfg) u mdl = Inr (configured ''claude-4-sonnet'' sec))
   \<and> (map_of cfg ''snowflake'' = None \<and> url_is_string cfg \<longrightarrow>
      cortex_init (PDict cfg) u mdl = Inr (configured ''llama3.1-70b'' cfg))
   \<and> (\<forall>sec. map_of cfg ''snowflake'' = Some (PDict sec) \<and> url_is_string sec \<longrightarrow>
      cortex_init (PDict cfg) u mdl = Inr (configured ''snowflake-llama-3.3-70b'' sec))
   \<and> (map_of cfg ''sfassist'' = None \<and> map_of cfg ''api_key'' \<noteq> None \<and> url_is_string cfg \<longrightarrow>
      sfassist_init (PObj cfg) u mdl = Inr (configured ''claude-4-sonnet'' cfg))
   \<and> (\<forall>sec. map_of cfg ''sfassist'' = Some sec \<and> url_is_string (attrs_of sec) \<longrightarrow>
      sfassist_init (PObj cfg) u mdl = Inr (configured ''claude-4-sonnet'' (attrs_of sec)))
   \<and> (map_of cfg ''snowflake'' = None \<and> map_of cfg ''api_key'' \<noteq> None \<and> url_is_string cfg \<longrightarrow>
      cortex_init (PObj cfg) u mdl = Inr (configured ''llama3.1-70b'' cfg))
   \<and> (\<forall>sec. map_of cfg ''snowflake'' = Some sec \<and> url_is_string (attrs_of sec) \<longrightarrow>
      cortex_init (PObj cfg) u mdl = Inr (configured ''llama3.1-70b'' (attrs_of sec)))
   \<and> (taken_as_key ''sfassist'' x \<longrightarrow>
      sfassist_init x u mdl =
        Inr \<lparr>api_key = x,
             base_url = (case u of None \<Rightarrow> [] | Some s \<Rightarrow> rstrip_slash s),
             model = PStr (case mdl of None \<Rightarrow> ''claude-4-sonnet''
                           | Some m \<Rightarrow> if m = [] then ''claude-4-sonnet'' else m),
             app_id = PStr ''edadip'', aplctn_cd = PStr ''edagnai''\<rparr>)
   \<and> (taken_as_key ''snowflake'' x \<longrightarrow>
      cortex_init x u mdl =
        Inr \<lparr>api_key = x,
             base_url = (case u of None \<Rightarrow> [] | Some s \<Rightarrow> rstrip_slash s),
             model = PStr (case mdl of None \<Rightarrow> ''llama3.1-70b''
                           | Some m \<Rightarrow> if m = [] then ''llama3.1-70b'' else m),
             app_id = PStr ''edadip'', aplctn_cd = PStr ''edagnai''\<rparr>)
   \<and> (\<forall>e. sfassist_init x u mdl = Inl e \<or> cortex_init x u mdl = Inl e \<longrightarrow>
        e = AttributeError \<or> e = TypeError)"
proof (intro conjI allI impI)
  assume a: "map_of cfg ''sfassist'' = None \<and> url_is_string cfg"
  then have "''sfassist'' \<notin> set (map fst cfg)" by (metis section_lookup(2))
  with a show "sfassist_init (PDict cfg) u mdl = Inr (configured ''claude-4-sonnet'' cfg)"
    by (simp add: sfassist_init_def init_from_dict_configured)
next
  fix sec
  assume a: "map_of cfg ''sfassist'' = Some (PDict sec) \<and> url_is_string sec"
  then have "''sfassist'' \<in> set (map fst cfg)"
    and "py_getitem (PDict cfg) ''sfassist'' = Inr (PDict sec)"
    by (metis init_dict_section(1), metis init_dict_section(2))
  with a show "sfassist_init (PDict cfg) u mdl = Inr (configured ''claude-4-sonnet'' sec)"
    by (simp add: sfassist_init_def init_from_dict_configured del: py_getitem.simps)
next
  assume a: "map_of cfg ''snowflake'' = None \<and> url_is_string cfg"
  then have "''snowflake'' \<notin> set (map fst cfg)" by (metis section_lookup(2))
  with a show "cortex_init (PDict cfg) u mdl = Inr (configured ''llama3.1-70b'' cfg)"
    by (simp add: cortex_init_def init_from_dict_configured)
next
  fix sec
  assume a: "map_of cfg ''snowflake'' = Some (PDict sec) \<and> url_is_string sec"
  then have "''snowflake'' \<in> set (map fst cfg)"
    and "py_getitem (PDict cfg) ''snowflake'' = Inr (PDict sec)"
    by (metis init_dict_section(1), metis init_dict_section(2))
  with a show "cortex_init (PDict cfg) u mdl = Inr (configured ''snowflake-llama-3.3-70b'' sec)"
    by (simp add: cortex_init_def init_from_dict_configured del: py_getitem.simps)
next
  assume a: "map_of cfg ''sfassist'' = None \<and> map_of cfg ''api_key'' \<noteq> None \<and> url_is_string cfg"
  then have "\<not> py_hasattr (PObj cfg) ''sfassist''" "py_hasattr (PObj cfg) ''api_key''"
    "url_is_string (attrs_of (PObj cfg))"
    by (simp_all add: hasattr_obj attrs_of_def del: py_hasattr.simps)
  then show "sfassist_init (PObj cfg) u mdl = Inr (configured ''claude-4-sonnet'' cfg)"
    using init_from_object_configured[of "PObj cfg" "''claude-4-sonnet''"]
    by (simp add: sfassist_init_def attrs_of_def del: py_hasattr.simps)
next
  fix sec
  assume a: "map_of cfg ''sfassist'' = Some sec \<and> url_is_string (attrs_of sec)"
  then have "py_hasattr (PObj cfg) ''sfassist''" "py_getattr (PObj cfg) ''sfassist'' PNone = sec"
    by (simp_all add: hasattr_obj del: py_hasattr.simps)
  with a show "sfassist_init (PObj cfg) u mdl = Inr (configured ''claude-4-sonnet'' (attrs_of sec))"
    by (simp add: sfassist_init_def init_from_object_configured
          del: py_hasattr.simps py_getattr.simps)
next
  assume a: "map_of cfg ''snowflake'' = None \<and> map_of cfg ''api_key'' \<noteq> None \<and> url_is_string cfg"
  then have "\<not> py_hasattr (PObj cfg) ''snowflake''" "py_hasattr (PObj cfg) ''api_key''"
    "url_is_string (attrs_of (PObj cfg))"
    by (simp_all add: hasattr_obj attrs_of_def del: py_hasattr.simps)
  then show "cortex_init (PObj cfg) u mdl = Inr (configured ''llama3.1-70b'' cfg)"
    using init_from_object_configured[of "PObj cfg" "''llama3.1-70b''"]
    by (simp add: cortex_init_def attrs_of_def del: py_hasattr.simps)
next
  fix sec
  assume a: "map_of cfg ''snowflake'' = Some sec \<and> url_is_string (attrs_of sec)"
  then have "py_hasattr (PObj cfg) ''snowflake''" "py_getattr (PObj cfg) ''snowflake'' PNone = sec"
    by (simp_all add: hasattr_obj del: py_hasattr.simps)
  with a show "cortex_init (PObj cfg) u mdl = Inr (configured ''llama3.1-70b'' (attrs_of sec))"
    by (simp add: cortex_init_def init_from_object_configured
          del: py_hasattr.simps py_getattr.simps)
next
  assume a: "taken_as_key ''sfassist'' x"
  note k = taken_as_key_params[OF a]
  from k(3) have "(case x of PDict config \<Rightarrow> f config | _ \<Rightarrow> g) = g" for f and g :: "error + client"
    by (cases x) auto
  with k(1,2) show "sfassist_init x u mdl =
        Inr \<lparr>api_key = x,
             base_url = (case u of None \<Rightarrow> [] | Some s \<Rightarrow> rstrip_slash s),
             model = PStr (case mdl of None \<Rightarrow> ''claude-4-sonnet''
                           | Some m \<Rightarrow> if m = [] then ''claude-4-sonnet'' else m),
             app_id = PStr ''edadip'', aplctn_cd = PStr ''edagnai''\<rparr>"
    by (simp add: sfassist_init_def init_from_params_def rstrip_slash_empty
          split: option.splits)
next
  assume a: "taken_as_key ''snowflake'' x"
  note k = taken_as_key_params[OF a]
  from k(3) have "(case x of PDict config \<Rightarrow> f config | _ \<Rightarrow> g) = g" for f and g :: "error + client"
    by (cases x) auto
  with k(1,2) show "cortex_init x u mdl =
        Inr \<lparr>api_key = x,
             base_url = (case u of None \<Rightarrow> [] | Some s \<Rightarrow> rstrip_slash s),
             model = PStr (case mdl of None \<Rightarrow> ''llama3.1-70b''
                           | Some m \<Rightarrow> if m = [] then ''llama3.1-70b'' else m),
             app_id = PStr ''edadip'', aplctn_cd = PStr ''edagnai''\<rparr>"
    by (simp add: cortex_init_def init_from_params_def rstrip_slash_empty
          split: option.splits)
next
  fix e assume "sfassist_init x u mdl = Inl e \<or> cortex_init x u mdl = Inl e"
  then show "e = AttributeError \<or> e = TypeError"
    using sfassist_init_error cortex_init_error by blast
qed

theorem construction_without_validation_witness:
  "sfassist_init (PDict []) None None =
        Inr \<lparr>api_key = PNone, base_url = [], model = PStr ''claude-4-sonnet'',
             app_id = PStr ''edadip'', aplctn_cd = PStr ''edagnai''\<rparr>
   \<and> sfassist_init (PDict [(''base_url'', PStr ''https://host/api//'')]) None None =
        Inr \<lparr>api_key = PNone, base_url = ''https://host/api'', model = PStr ''claude-4-sonnet'',
             app_id = PStr ''edadip'', aplctn_cd = PStr ''edagnai''\<rparr>
   \<and> cortex_init (PDict [(''snowflake'', PDict [(''api_key'', PStr ''k'')])]) None None =
        Inr \<lparr>api_key = PStr ''k'', base_url = [], model = PStr ''snowflake-llama-3.3-70b'',
             app_id = PStr ''edadip'', aplctn_cd = PStr ''edagnai''\<rparr>
   \<and> cortex_init (PDict [(''api_key'', PStr ''''), (''base_url'', PStr ''https://host/'')]) None None =
        Inr \<lparr>api_key = PStr '''', base_url = ''https://host'', model = PStr ''llama3.1-70b'',
             app_id = PStr ''edadip'', aplctn_cd = PStr ''edagnai''\<rparr>
   \<and> sfassist_init (PObj [(''api_key'', PNone)]) None None =
        Inr \<lparr>api_key = PNone, base_url = [], model = PStr ''claude-4-sonnet'',
             app_id = PStr ''edadip'', aplctn_cd = PStr ''edagnai''\<rparr>
   \<and> cortex_init (PObj [(''snowflake'', PObj [(''base_url'', PStr ''https://host/'')])]) None None =
        Inr \<lparr>api_key = PNone, base_url = ''https://host'', model = PStr ''llama3.1-70b'',
             app_id = PStr ''edadip'', aplctn_cd = PStr ''edagnai''\<rparr>
   \<and> sfassist_init PNone None None =
        Inr \<lparr>api_key = PNone, base_url = [], model = PStr ''claude-4-sonnet'',
             app_id = PStr ''edadip'', aplctn_cd = PStr ''edagnai''\<rparr>
   \<and> cortex_init (PStr ''k'') (Some ''https://host/'') (Some ''m'') =
        Inr \<lparr>api_key = PStr ''k'', base_url = ''https://host'', model = PStr ''m'',
             app_id = PStr ''edadip'', aplctn_cd = PStr ''edagnai''\<rparr>
   \<and> sfassist_init (PDict [(''base_url'', PNone)]) None None = Inl AttributeError"
proof -
  let ?url = "[(''base_url'', PStr ''https://host/api//'')]"
  let ?sec = "[(''snowflake'', PDict [(''api_key'', PStr ''k'')])]"
  let ?root = "[(''api_key'', PStr ''''), (''base_url'', PStr ''https://host/'')]"
  let ?obj = "[(''api_key'', PNone)]"
  let ?osec = "[(''snowflake'', PObj [(''base_url'', PStr ''https://host/'')])]"
  note t = construction_without_validation
  note sf_root = t[THEN conjunct1, rule_format]
  note cx_root = t[THEN conjunct2, THEN conjunct2, THEN conjunct1, rule_format]
  note cx_sec = t[THEN conjunct2, THEN conjunct2, THEN conjunct2, THEN conjunct1, rule_format]
  note sf_obj = t[THEN conjunct2, THEN conjunct2, THEN conjunct2, THEN conjunct2, THEN conjunct1,
                  rule_format]
  note cx_osec = t[THEN conjunct2, THEN conjunct2, THEN conjunct2, THEN conjunct2, THEN conjunct2,
                   THEN conjunct2, THEN conjunct2, THEN conjunct1, rule_format]
  note sf_key = t[THEN conjunct2, THEN conjunct2, THEN conjunct2, THEN conjunct2, THEN conjunct2,
                  THEN conjunct2, THEN conjunct2, THEN conjunct2, THEN conjunct1, rule_format]
  note cx_key = t[THEN conjunct2, THEN conjunct2, THEN conjunct2, THEN conjunct2, THEN conjunct2,
                  THEN conjunct2, THEN conjunct2, THEN conjunct2, THEN conjunct2, THEN conjunct1,
                  rule_format]
  have r: "rstrip_slash ''https://host/api//'' = ''https://host/api''"
    "rstrip_slash ''https://host/'' = ''https://host''"
    by (simp_all add: rstrip_slash_def)
  have 1: "sfassist_init (PDict []) None None =
        Inr \<lparr>api_key = PNone, base_url = [], model = PStr ''claude-4-sonnet'',
             app_id = PStr ''edadip'', aplctn_cd = PStr ''edagnai''\<rparr>"
    using sf_root[of "[]" None None] by (simp add: url_is_string_def configured_def)
  have 2: "sfassist_init (PDict ?url) None None =
        Inr \<lparr>api_key = PNone, base_url = ''https://host/api'', model = PStr ''claude-4-sonnet'',
             app_id = PStr ''edadip'', aplctn_cd = PStr ''edagnai''\<rparr>"
    using sf_root[of ?url None None] by (simp add: url_is_string_def configured_def r)
  have 3: "cortex_init (PDict ?sec) None None =
        Inr \<lparr>api_key = PStr ''k'', base_url = [], model = PStr ''snowflake-llama-3.3-70b'',
             app_id = PStr ''edadip'', aplctn_cd = PStr ''edagnai''\<rparr>"
    using cx_sec[of ?sec "[(''api_key'', PStr ''k'')]" None None]
    by (simp add: url_is_string_def configured_def)
  have 4: "cortex_init (PDict ?root) None None =
        Inr \<lparr>api_key = PStr '''', base_url = ''https://host'', model = PStr ''llama3.1-70b'',
             app_id = PStr ''edadip'', aplctn_cd = PStr ''edagnai''\<rparr>"
    using cx_root[of ?root None None] by (simp add: url_is_string_def configured_def r)
  have 5: "sfassist_init (PObj ?obj) None None =
        Inr \<lparr>api_key = PNone, base_url = [], model = PStr ''claude-4-sonnet'',
             app_id = PStr ''edadip'', aplctn_cd = PStr ''edagnai''\<rparr>"
    using sf_obj[of ?obj None None] by (simp add: url_is_string_def configured_def)
  have 6: "cortex_init (PObj ?osec) None None =
        Inr \<lparr>api_key = PNone, base_url = ''https://host'', model = PStr ''llama3.1-70b'',
             app_id = PStr ''edadip'', aplctn_cd = PStr ''edagnai''\<rparr>"
    using cx_osec[of ?osec "PObj [(''base_url'', PStr ''https://host/'')]" None None]
    by (simp add: url_is_string_def configured_def attrs_of_def r)
  have 7: "sfassist_init PNone None None =
        Inr \<lparr>api_key = PNone, base_url = [], model = PStr ''claude-4-sonnet'',
             app_id = PStr ''edadip'', aplctn_cd = PStr ''edagnai''\<rparr>"
    using sf_key[of PNone None None] by (simp add: taken_as_key_def)
  have 8: "cortex_init (PStr ''k'') (Some ''https://host/'') (Some ''m'') =
        Inr \<lparr>api_key = PStr ''k'', base_url = ''https://host'', model = PStr ''m'',
             app_id = PStr ''edadip'', aplctn_cd = PStr ''edagnai''\<rparr>"
    using cx_key[of "PStr ''k''" "Some ''https://host/''" "Some ''m''"]
    by (simp add: taken_as_key_def r)
  have 9: "sfassist_init (PDict [(''base_url'', PNone)]) None None = Inl AttributeError"
    by (simp add: sfassist_init_def init_from_dict_def and_then_def)
  from 1 2 3 4 5 6 7 8 9 show ?thesis by blast
qed

text \<open>
  An empty config dict, and individual parameters that are all \<open>None\<close>: construction
  returns a client with no key and no URL.
\<close>

theorem empty_config_counterexample:
  "sfassist_init (PDict []) None None =
     Inr \<lparr>api_key = PNone, base_url = [], model = PStr ''claude-4-sonnet'',
          app_id = PStr ''edadip'', aplctn_cd = PStr ''edagnai''\<rparr>
   \<and> cortex_init PNone None None =
     Inr \<lparr>api_key = PNone, base_url = [], model = PStr ''llama3.1-70b'',
          app_id = PStr ''edadip'', aplctn_cd = PStr ''edagnai''\<rparr>"
  by (simp add: sfassist_init_def cortex_init_def init_from_dict_def init_from_params_def
        rstrip_slash_def)

section \<open>Payload construction on the store: the caller's objects\<close>

lemma lookup_Some_lt: "lookup h a = Some obj \<Longrightarrow> a < length h"
  by (simp add: lookup_def split: if_splits)

lemma lookup_append_old: "a < length h \<Longrightarrow> lookup (h @ hs) a = lookup h a"
  by (simp add: lookup_def nth_append)

lemma lookup_append_new: "lookup (h @ [obj]) (length h) = Some obj"
  by (simp add: lookup_def)

lemma lookup_update_other: "a \<noteq> l \<Longrightarrow> lookup (h[l := obj]) a = lookup h a"
  by (simp add: lookup_def)

lemma lookup_update_same: "l < length h \<Longrightarrow> lookup (h[l := obj]) l = Some obj"
  by (simp add: lookup_def)

lemma store_loop_not_list:
  "(\<forall>ms. lookup h messages \<noteq> Some (RefList ms)) \<Longrightarrow>
     store_loop h messages i sys fl = Some (Inl TypeError, h)"
  by (subst store_loop.simps) (auto split: option.splits hobj.splits)

lemma store_loop_done:
  "lookup h messages = Some (RefList ms) \<Longrightarrow> length ms \<le> i \<Longrightarrow>
     store_loop h messages i sys fl = Some (Inr sys, h)"
  by (subst store_loop.simps) simp

lemma store_loop_frame:
  assumes "lookup h messages = Some (RefList ms)" "messages \<noteq> fl"
    and "lookup h fl = Some (RefList fs)"
  shows "\<exists>out h'. store_loop h messages i sys fl = Some (out, h')
      \<and> length h \<le> length h'
      \<and> (\<forall>a < length h. a \<noteq> fl \<longrightarrow> lookup h' a = lookup h a)
      \<and> (\<exists>fs'. lookup h' fl = Some (RefList (fs @ fs'))
            \<and> (\<forall>a \<in> set fs'. length h \<le> a))"
  using assms
proof (induction "length ms - i" arbitrary: i h sys fs)
  case 0
  then have "store_loop h messages i sys fl = Some (Inr sys, h)"
    by (simp add: store_loop_done)
  with 0 show ?case by auto
next
  case (Suc n)
  then have i: "i < length ms" by simp
  from Suc.prems have lt: "messages < length h" "fl < length h"
    by (auto dest: lookup_Some_lt)
  have step: "n = length ms - Suc i" using Suc.hyps(2) by simp
  note unfold = store_loop.simps[of h messages i sys fl]
  show ?case
  proof (cases "\<exists>msg. lookup h (ms ! i) = Some (StrDict msg)")
    case False
    with Suc.prems i have "store_loop h messages i sys fl = Some (Inl TypeError, h)"
      by (subst unfold) (auto split: option.splits hobj.splits)
    with Suc.prems show ?thesis by auto
  next
    case True
    then obtain msg where msg: "lookup h (ms ! i) = Some (StrDict msg)" by blast
    show ?thesis
    proof (cases "map_of msg ''role'' = Some ''system''")
      case True
      show ?thesis
      proof (cases "not_sys_msg sys")
        case ns: True
        show ?thesis
        proof (cases "map_of msg ''content''")
          case None
          with Suc.prems i msg True ns
          have "store_loop h messages i sys fl = Some (Inl KeyError, h)"
            by (subst unfold) simp
          with Suc.prems show ?thesis by auto
        next
          case (Some c)
          with Suc.prems i msg True ns
          have "store_loop h messages i sys fl = store_loop h messages (Suc i) (Some c) fl"
            by (subst unfold) simp
          with Suc.hyps(1)[OF step Suc.prems, of "Some c"] show ?thesis by simp
        qed
      next
        case False
        with Suc.prems i msg True
        have "store_loop h messages i sys fl = store_loop h messages (Suc i) sys fl"
          by (subst unfold) simp
        with Suc.hyps(1)[OF step Suc.prems, of sys] show ?thesis by simp
      qed
    next
      case False
      show ?thesis
      proof (cases "\<exists>r c. map_of msg ''role'' = Some r \<and> map_of msg ''content'' = Some c")
        case nokeys: False
        with Suc.prems i msg False
        have "store_loop h messages i sys fl = Some (Inl KeyError, h)"
          by (subst unfold) (auto split: option.splits)
        with Suc.prems show ?thesis by auto
      next
        case True
        then obtain r c where rc: "map_of msg ''role'' = Some r" "map_of msg ''content'' = Some c"
          by blast
        let ?d = "StrDict [(''role'', r), (''content'', c)]"
        let ?h1 = "h @ [?d]"
        let ?h2 = "?h1[fl := RefList (fs @ [length h])]"
        from Suc.prems lt have l1: "lookup ?h1 fl = Some (RefList fs)"
          by (simp add: lookup_append_old)
        then have app: "list_append ?h1 fl (length h) = Some ?h2"
          by (simp add: list_append_def)
        from Suc.prems i msg False rc app
        have eq: "store_loop h messages i sys fl = store_loop ?h2 messages (Suc i) sys fl"
          by (subst unfold) (simp add: alloc_def)
        from Suc.prems lt have m2: "lookup ?h2 messages = Some (RefList ms)"
          by (simp add: lookup_update_other lookup_append_old)
        from lt have f2: "lookup ?h2 fl = Some (RefList (fs @ [length h]))"
          by (simp add: lookup_update_same)
        from Suc.hyps(1)[OF step m2 Suc.prems(2) f2, of sys]
        obtain out h' fs' where
          r: "store_loop ?h2 messages (Suc i) sys fl = Some (out, h')"
          and len: "length ?h2 \<le> length h'"
          and old: "\<forall>a < length ?h2. a \<noteq> fl \<longrightarrow> lookup h' a = lookup ?h2 a"
          and new: "lookup h' fl = Some (RefList ((fs @ [length h]) @ fs'))"
          and fresh: "\<forall>a \<in> set fs'. length ?h2 \<le> a"
          by blast
        have keep: "\<forall>a < length h. a \<noteq> fl \<longrightarrow> lookup h' a = lookup h a"
        proof (intro allI impI)
          fix a assume a: "a < length h" "a \<noteq> fl"
          with old have "lookup h' a = lookup ?h2 a" by simp
          also from a have "\<dots> = lookup h a"
            by (simp add: lookup_update_other lookup_append_old)
          finally show "lookup h' a = lookup h a" .
        qed
        show ?thesis
        proof (intro exI conjI)
          from eq r show "store_loop h messages i sys fl = Some (out, h')" by simp
          from len show "length h \<le> length h'" by simp
          from keep show "\<forall>a < length h. a \<noteq> fl \<longrightarrow> lookup h' a = lookup h a" .
          from new show "lookup h' fl = Some (RefList (fs @ (length h # fs')))" by simp
          from fresh show "\<forall>a \<in> set (length h # fs'). length h \<le> a" by auto
        qed
      qed
    qed
  qed
qed

lemma store_loop_from_fresh:
  assumes "lookup h fl = Some (RefList [])"
  shows "\<exists>out h'. store_loop h messages 0 sys fl = Some (out, h')
      \<and> length h \<le> length h'
      \<and> (\<forall>a < length h. a \<noteq> fl \<longrightarrow> lookup h' a = lookup h a)
      \<and> (\<exists>fs'. lookup h' fl = Some (RefList fs') \<and> (\<forall>a \<in> set fs'. length h \<le> a))"
proof (cases "messages = fl")
  case True
  with assms have "store_loop h messages 0 sys fl = Some (Inr sys, h)"
    by (simp add: store_loop_done)
  with assms show ?thesis by auto
next
  case False
  show ?thesis
  proof (cases "\<exists>ms. lookup h messages = Some (RefList ms)")
    case True
    then obtain ms where "lookup h messages = Some (RefList ms)" by blast
    from store_loop_frame[OF this False assms, of 0 sys] show ?thesis by simp
  next
    case False
    then have "store_loop h messages 0 sys fl = Some (Inl TypeError, h)"
      by (simp add: store_loop_not_list)
    with assms show ?thesis by auto
  qed
qed

lemma alloc_all_messages_eq:
  "alloc_all_messages h s kept =
     (length h + 2,
      h @ [StrDict [(''role'', ''system''), (''content'', s)], RefList [length h],
           RefList (length h # kept)])"
  by (simp add: alloc_all_messages_def alloc_def)

lemma alloc_payload_eq:
  "alloc_payload self h model_field limit s all_messages =
     (length h + 2,
      h @ [Dict [(''messages'', Ref all_messages)],
           Dict [(''aplctn_cd'', Imm (aplctn_cd self)),
                 (''app_id'', Imm (app_id self)),
                 (''api_key'', Imm (api_key self)),
                 (''method'', Imm (PStr ''cortex'')),
                 (''model'', model_field),
                 (''sys_msg'', Imm (PStr s)),
                 (''limit_convs'', Imm limit),
                 (''prompt'', Ref (length h)),
                 (''app_lvl_prefix'', Imm (PStr ''edadip'')),
                 (''user_id'', Imm (PStr [])),
                 (''session_id'', Imm (PStr ''dsa_session''))],
           Dict [(''query'', Ref (length h + 1))]])"
  by (simp add: alloc_payload_def alloc_def)

lemma lookup_append_at:
  "lookup (h @ hs) (length h + k) = (if k < length hs then Some (hs ! k) else None)"
  by (simp add: lookup_def nth_append)

lemma payload_messages_after_alloc:
  assumes "lookup h l = Some (RefList entries)"
  shows "store_payload_messages (h @ [Dict [(''messages'', Ref l)], Dict
           [(''aplctn_cd'', a1), (''app_id'', a2), (''api_key'', a3), (''method'', a4),
            (''model'', a5), (''sys_msg'', a6), (''limit_convs'', a7),
            (''prompt'', Ref (length h)), (''app_lvl_prefix'', a8), (''user_id'', a9),
            (''session_id'', a10)], Dict [(''query'', Ref (length h + 1))]]) (length h + 2)
         = Some entries"
proof -
  let ?h = "h @ [Dict [(''messages'', Ref l)], Dict
           [(''aplctn_cd'', a1), (''app_id'', a2), (''api_key'', a3), (''method'', a4),
            (''model'', a5), (''sys_msg'', a6), (''limit_convs'', a7),
            (''prompt'', Ref (length h)), (''app_lvl_prefix'', a8), (''user_id'', a9),
            (''session_id'', a10)], Dict [(''query'', Ref (length h + 1))]]"
  have q: "dict_ref ?h (length h + 2) ''query'' = Some (length h + 1)"
    by (simp add: dict_ref_def lookup_def nth_append)
  have p: "dict_ref ?h (length h + 1) ''prompt'' = Some (length h)"
    by (simp add: dict_ref_def lookup_def nth_append)
  have m: "dict_ref ?h (length h) ''messages'' = Some l"
    by (simp add: dict_ref_def lookup_def nth_append)
  from assms have "lookup ?h l = Some (RefList entries)"
    by (simp add: lookup_append_old lookup_Some_lt)
  with q p m show ?thesis by (simp add: store_payload_messages_def)
qed

lemma sfassist_store_frame:
  "\<exists>out h'. sfassist_build_payload_store self h messages sys = Some (out, h')
     \<and> (\<forall>a < length h. lookup h' a = lookup h a)
     \<and> (\<forall>payload. out = Inr payload \<longrightarrow>
           (\<exists>entries. store_payload_messages h' payload = Some entries
              \<and> (\<forall>a \<in> set entries. length h \<le> a)))"
proof -
  let ?fl = "length h"
  let ?h0 = "h @ [RefList []]"
  have "lookup ?h0 ?fl = Some (RefList [])" by (rule lookup_append_new)
  from store_loop_from_fresh[OF this, of messages sys]
  obtain out1 h1 fs' where
    loop: "store_loop ?h0 messages 0 sys ?fl = Some (out1, h1)"
    and len: "length ?h0 \<le> length h1"
    and old: "\<forall>a < length ?h0. a \<noteq> ?fl \<longrightarrow> lookup h1 a = lookup ?h0 a"
    and fl: "lookup h1 ?fl = Some (RefList fs')"
    and fresh: "\<forall>a \<in> set fs'. length ?h0 \<le> a"
    by blast
  have keep1: "lookup h1 a = lookup h a" if "a < length h" for a
    using that old by (simp add: lookup_append_old)
  show ?thesis
  proof (cases out1)
    case (Inl e)
    with loop have "sfassist_build_payload_store self h messages sys = Some (Inl e, h1)"
      by (simp add: sfassist_build_payload_store_def alloc_def)
    with keep1 show ?thesis by simp
  next
    case (Inr found)
    let ?s = "default_sys_msg found"
    let ?h2 = "h1 @ [StrDict [(''role'', ''system''), (''content'', ?s)], RefList [length h1],
           RefList (length h1 # fs')]"
    let ?h3 = "?h2 @ [Dict [(''messages'', Ref (length h1 + 2))],
           Dict [(''aplctn_cd'', Imm (aplctn_cd self)),
                 (''app_id'', Imm (app_id self)),
                 (''api_key'', Imm (api_key self)),
                 (''method'', Imm (PStr ''cortex'')),
                 (''model'', Imm (model self)),
                 (''sys_msg'', Imm (PStr ?s)),
                 (''limit_convs'', Imm (PStr ''0'')),
                 (''prompt'', Ref (length ?h2)),
                 (''app_lvl_prefix'', Imm (PStr ''edadip'')),
                 (''user_id'', Imm (PStr [])),
                 (''session_id'', Imm (PStr ''dsa_session''))],
           Dict [(''query'', Ref (length ?h2 + 1))]]"
    from loop Inr fl
    have res: "sfassist_build_payload_store self h messages sys = Some (Inr (length ?h2 + 2), ?h3)"
      by (simp add: sfassist_build_payload_store_def alloc_def alloc_all_messages_eq
            alloc_payload_eq)
    have am: "lookup ?h2 (length h1 + 2) = Some (RefList (length h1 # fs'))"
      by (simp add: lookup_def nth_append)
    have pm: "store_payload_messages ?h3 (length ?h2 + 2) = Some (length h1 # fs')"
      by (rule payload_messages_after_alloc[OF am])
    have keep3: "\<forall>a < length h. lookup ?h3 a = lookup h a"
    proof (intro allI impI)
      fix a assume a: "a < length h"
      with len have "a < length h1" by simp
      then have "lookup ?h3 a = lookup h1 a"
        by (simp add: lookup_def nth_append)
      with keep1[OF a] show "lookup ?h3 a = lookup h a" by simp
    qed
    from len fresh have "\<forall>a \<in> set (length h1 # fs'). length h \<le> a" by auto
    with res pm keep3 show ?thesis by simp
  qed
qed

lemma cortex_store_frame:
  "\<exists>out h'. cortex_build_payload_store self h messages sys = Some (out, h')
     \<and> (\<forall>a < length h. lookup h' a = lookup h a)
     \<and> (\<forall>payload. out = Inr payload \<longrightarrow>
           (\<exists>entries. store_payload_messages h' payload = Some entries
              \<and> (\<forall>a \<in> set entries. length h \<le> a)))"
proof -
  let ?fl = "length h"
  let ?h0 = "h @ [RefList []]"
  have "lookup ?h0 ?fl = Some (RefList [])" by (rule lookup_append_new)
  from store_loop_from_fresh[OF this, of messages sys]
  obtain out1 h1 fs' where
    loop: "store_loop ?h0 messages 0 sys ?fl = Some (out1, h1)"
    and len: "length ?h0 \<le> length h1"
    and old: "\<forall>a < length ?h0. a \<noteq> ?fl \<longrightarrow> lookup h1 a = lookup ?h0 a"
    and fl: "lookup h1 ?fl = Some (RefList fs')"
    and fresh: "\<forall>a \<in> set fs'. length ?h0 \<le> a"
    by blast
  have keep1: "lookup h1 a = lookup h a" if "a < length h" for a
    using that old by (simp add: lookup_append_old)
  show ?thesis
  proof (cases out1)
    case (Inl e)
    with loop have "cortex_build_payload_store self h messages sys = Some (Inl e, h1)"
      by (simp add: cortex_build_payload_store_def alloc_def)
    with keep1 show ?thesis by simp
  next
    case (Inr found)
    let ?s = "default_sys_msg found"
    define kept where "kept = (if length fs' > 10 then drop (length fs' - 10) fs' else fs')"
    define h2 where "h2 = (if length fs' > 10 then h1 @ [RefList kept] else h1)"
    define filtered where "filtered = (if length fs' > 10 then length h1 else ?fl)"
    have slice: "(if length fs' > 10
                  then alloc h1 (RefList (drop (length fs' - 10) fs'))
                  else (?fl, h1)) = (filtered, h2)"
      by (simp add: alloc_def kept_def h2_def filtered_def)
    from fl have f2: "lookup h2 filtered = Some (RefList kept)"
      by (auto simp: kept_def h2_def filtered_def lookup_append_new lookup_append_old
               dest: lookup_Some_lt)
    have len2: "length h1 \<le> length h2" by (simp add: h2_def)
    have keep2: "lookup h2 a = lookup h1 a" if "a < length h1" for a
      using that by (simp add: h2_def lookup_append_old)
    have sub: "set kept \<subseteq> set fs'" by (auto simp: kept_def dest: in_set_dropD)
    let ?h3 = "h2 @ [StrDict [(''role'', ''system''), (''content'', ?s)], RefList [length h2],
           RefList (length h2 # kept)]"
    let ?h4 = "?h3 @ [Dict [(''name'', Imm (model self)), (''provider'', Imm (PStr ''anthropic''))]]"
    let ?h5 = "?h4 @ [Dict [(''messages'', Ref (length h2 + 2))],
           Dict [(''aplctn_cd'', Imm (aplctn_cd self)),
                 (''app_id'', Imm (app_id self)),
                 (''api_key'', Imm (api_key self)),
                 (''method'', Imm (PStr ''cortex'')),
                 (''model'', Ref (length ?h3)),
                 (''sys_msg'', Imm (PStr ?s)),
                 (''limit_convs'', Imm (PInt 0)),
                 (''prompt'', Ref (length ?h4)),
                 (''app_lvl_prefix'', Imm (PStr ''edadip'')),
                 (''user_id'', Imm (PStr [])),
                 (''session_id'', Imm (PStr ''dsa_session''))],
           Dict [(''query'', Ref (length ?h4 + 1))]]"
    from loop Inr fl f2
    have res: "cortex_build_payload_store self h messages sys = Some (Inr (length ?h4 + 2), ?h5)"
      unfolding cortex_build_payload_store_def
      by (simp add: alloc_def slice alloc_all_messages_eq alloc_payload_eq)
    have am: "lookup ?h4 (length h2 + 2) = Some (RefList (length h2 # kept))"
      by (simp add: lookup_def nth_append)
    have pm: "store_payload_messages ?h5 (length ?h4 + 2) = Some (length h2 # kept)"
      by (rule payload_messages_after_alloc[OF am])
    have keep5: "\<forall>a < length h. lookup ?h5 a = lookup h a"
    proof (intro allI impI)
      fix a assume a: "a < length h"
      with len have a1: "a < length h1" by simp
      with len2 have "a < length h2" by simp
      then have "lookup ?h5 a = lookup h2 a"
        by (simp add: lookup_def nth_append)
      with keep2[OF a1] keep1[OF a] show "lookup ?h5 a = lookup h a" by simp
    qed
    from fresh sub have "\<forall>a \<in> set kept. length h \<le> a" by fastforce
    with len len2 have "\<forall>a \<in> set (length h2 # kept). length h \<le> a" by simp
    with res pm keep5 show ?thesis by simp
  qed
qed

lemma message_at_Some: "message_at h a = Some kvs \<longleftrightarrow> lookup h a = Some (StrDict kvs)"
  by (auto simp: message_at_def split: option.splits hobj.splits)

lemma store_messages_Some:
  "store_messages h l = Some msgs \<longleftrightarrow>
     (\<exists>ms. lookup h l = Some (RefList ms) \<and> map (message_at h) ms = map Some msgs)"
proof
  assume "store_messages h l = Some msgs"
  then obtain ms where l: "lookup h l = Some (RefList ms)"
    and all: "list_all (\<lambda>a. message_at h a \<noteq> None) ms"
    and msgs: "msgs = map (\<lambda>a. case message_at h a of Some kvs \<Rightarrow> kvs | None \<Rightarrow> []) ms"
    by (auto simp: store_messages_def split: option.splits hobj.splits if_splits)
  from all have "map (message_at h) ms = map Some msgs"
    unfolding msgs by (induction ms) auto
  with l show "\<exists>ms. lookup h l = Some (RefList ms) \<and> map (message_at h) ms = map Some msgs"
    by blast
next
  assume "\<exists>ms. lookup h l = Some (RefList ms) \<and> map (message_at h) ms = map Some msgs"
  then obtain ms where l: "lookup h l = Some (RefList ms)"
    and m: "map (message_at h) ms = map Some msgs" by blast
  from m have "list_all (\<lambda>a. message_at h a \<noteq> None) ms
      \<and> map (\<lambda>a. case message_at h a of Some kvs \<Rightarrow> kvs | None \<Rightarrow> []) ms = msgs"
    by (induction ms arbitrary: msgs) auto
  with l show "store_messages h l = Some msgs" by (simp add: store_messages_def)
qed

lemma entry_at_role_content:
  "lookup h a = Some (StrDict [(''role'', r), (''content'', c)]) \<Longrightarrow>
     entry_at h a = Some (role_content r c)"
  by (simp add: entry_at_def role_content_def)

lemma entry_at_cong:
  "lookup h' a = lookup h a \<Longrightarrow> entry_at h' a = entry_at h a"
  by (simp add: entry_at_def)

lemma message_at_cong:
  "lookup h' a = lookup h a \<Longrightarrow> message_at h' a = message_at h a"
  by (simp add: message_at_def)

lemma entry_at_lt: "entry_at h a = Some e \<Longrightarrow> a < length h"
  by (auto simp: entry_at_def dest: lookup_Some_lt split: option.splits)

lemma entry_at_not_list: "entry_at h a = Some e \<Longrightarrow> lookup h a \<noteq> Some (RefList xs)"
  by (auto simp: entry_at_def split: option.splits)

lemma store_loop_refines:
  assumes "lookup h messages = Some (RefList ms)" "map (message_at h) ms = map Some msgs"
    and "messages \<noteq> fl" "lookup h fl = Some (RefList fs)"
    and "map (entry_at h) fs = map Some acc"
  shows "\<exists>out h'. store_loop h messages i sys fl = Some (out, h')
      \<and> (case extract_messages (drop i msgs) sys acc of
            Inl e \<Rightarrow> out = Inl e
          | Inr (found, filtered) \<Rightarrow>
              out = Inr found
            \<and> (\<exists>fs'. lookup h' fl = Some (RefList fs')
                  \<and> map (entry_at h') fs' = map Some filtered))"
  using assms
proof (induction "length ms - i" arbitrary: i h sys fs acc)
  case 0
  from 0(3) have lm: "length ms = length msgs" by (metis length_map)
  with 0 have "store_loop h messages i sys fl = Some (Inr sys, h)" "drop i msgs = []"
    by (simp_all add: store_loop_done)
  with 0 show ?case by auto
next
  case (Suc n)
  from Suc.prems(2) have lm: "length ms = length msgs" by (metis length_map)
  from Suc.hyps(2) have i: "i < length ms" by simp
  from Suc.prems have lt: "messages < length h" "fl < length h"
    by (auto dest: lookup_Some_lt)
  have step: "n = length ms - Suc i" using Suc.hyps(2) by simp
  let ?msg = "msgs ! i"
  from Suc.prems(2) i lm have "message_at h (ms ! i) = Some ?msg"
    by (metis nth_map)
  then have msg: "lookup h (ms ! i) = Some (StrDict ?msg)" by (simp add: message_at_Some)
  from i lm have dr: "drop i msgs = ?msg # drop (Suc i) msgs"
    by (simp add: Cons_nth_drop_Suc)
  note unfold = store_loop.simps[of h messages i sys fl]
  show ?case
  proof (cases "map_of ?msg ''role'' = Some ''system''")
    case True
    show ?thesis
    proof (cases "not_sys_msg sys")
      case ns: True
      show ?thesis
      proof (cases "map_of ?msg ''content''")
        case None
        with Suc.prems i msg True ns
        have "store_loop h messages i sys fl = Some (Inl KeyError, h)"
          by (subst unfold) simp
        with True ns None show ?thesis by (simp add: dr)
      next
        case (Some c)
        with Suc.prems i msg True ns
        have "store_loop h messages i sys fl = store_loop h messages (Suc i) (Some c) fl"
          by (subst unfold) simp
        with Suc.hyps(1)[OF step Suc.prems, of "Some c"] True ns Some show ?thesis
          by (simp add: dr)
      qed
    next
      case False
      with Suc.prems i msg True
      have "store_loop h messages i sys fl = store_loop h messages (Suc i) sys fl"
        by (subst unfold) simp
      with Suc.hyps(1)[OF step Suc.prems, of sys] True False show ?thesis
        by (simp add: dr)
    qed
  next
    case False
    show ?thesis
    proof (cases "\<exists>r c. map_of ?msg ''role'' = Some r \<and> map_of ?msg ''content'' = Some c")
      case nokeys: False
      with Suc.prems i msg False
      have "store_loop h messages i sys fl = Some (Inl KeyError, h)"
        by (subst unfold) (auto split: option.splits)
      moreover from nokeys False
      have "extract_messages (?msg # drop (Suc i) msgs) sys acc = Inl KeyError"
        by (auto split: option.splits)
      ultimately show ?thesis by (simp add: dr)
    next
      case True
      then obtain r c where rc: "map_of ?msg ''role'' = Some r" "map_of ?msg ''content'' = Some c"
        by blast
      let ?d = "StrDict [(''role'', r), (''content'', c)]"
      let ?h1 = "h @ [?d]"
      let ?h2 = "?h1[fl := RefList (fs @ [length h])]"
      from Suc.prems lt have l1: "lookup ?h1 fl = Some (RefList fs)"
        by (simp add: lookup_append_old)
      then have app: "list_append ?h1 fl (length h) = Some ?h2"
        by (simp add: list_append_def)
      from Suc.prems i msg False rc app
      have eq: "store_loop h messages i sys fl = store_loop ?h2 messages (Suc i) sys fl"
        by (subst unfold) (simp add: alloc_def)
      have same: "lookup ?h2 a = lookup h a" if "a < length h" "a \<noteq> fl" for a
        using that by (simp add: lookup_update_other lookup_append_old)
      from Suc.prems lt have m2: "lookup ?h2 messages = Some (RefList ms)"
        by (simp add: same)
      have ms2: "map (message_at ?h2) ms = map Some msgs"
      proof -
        have "message_at ?h2 a = message_at h a" if "a \<in> set ms" for a
        proof -
          from that Suc.prems(2) obtain kvs where "message_at h a = Some kvs"
            by (metis (no_types, lifting) in_set_conv_nth length_map nth_map)
          then have "lookup h a = Some (StrDict kvs)" by (simp add: message_at_Some)
          with Suc.prems(4) have "a < length h" "a \<noteq> fl"
            by (auto dest: lookup_Some_lt)
          then show ?thesis by (intro message_at_cong same)
        qed
        then have "map (message_at ?h2) ms = map (message_at h) ms" by simp
        with Suc.prems(2) show ?thesis by simp
      qed
      from lt have f2: "lookup ?h2 fl = Some (RefList (fs @ [length h]))"
        by (simp add: lookup_update_same)
      have e2: "map (entry_at ?h2) (fs @ [length h]) = map Some (acc @ [role_content r c])"
      proof -
        have "entry_at ?h2 a = entry_at h a" if "a \<in> set fs" for a
        proof -
          from that Suc.prems(5) obtain e where e: "entry_at h a = Some e"
            by (metis (no_types, lifting) in_set_conv_nth length_map nth_map)
          from entry_at_lt[OF e] entry_at_not_list[OF e] Suc.prems(4)
          have "a < length h" "a \<noteq> fl" by auto
          then show ?thesis by (intro entry_at_cong same)
        qed
        then have "map (entry_at ?h2) fs = map (entry_at h) fs" by simp
        moreover from lt have "lookup ?h2 (length h) = Some ?d"
          by (simp add: lookup_update_other lookup_append_new)
        then have "entry_at ?h2 (length h) = Some (role_content r c)"
          by (rule entry_at_role_content)
        ultimately show ?thesis using Suc.prems(5) by simp
      qed
      from Suc.hyps(1)[OF step m2 ms2 Suc.prems(3) f2 e2, of sys] eq False rc
      show ?thesis by (simp add: dr)
    qed
  qed
qed

lemma pure_sfassist_messages:
  assumes "extract_messages msgs sys [] = Inr (found, filtered)"
  shows "\<exists>P. sfassist_build_payload self msgs sys = Inr P
     \<and> payload_messages P = role_content ''system'' (default_sys_msg found) # filtered"
  using assms
  by (simp add: sfassist_build_payload_def Let_def payload_messages_def query_field_def)

lemma pure_cortex_messages:
  assumes "extract_messages msgs sys [] = Inr (found, filtered)"
  shows "\<exists>P. cortex_build_payload self msgs sys = Inr P
     \<and> payload_messages P =
         role_content ''system'' (default_sys_msg found) # keep_last_10 filtered"
  using assms
  by (simp add: cortex_build_payload_def Let_def payload_messages_def query_field_def)

lemma pure_build_error:
  assumes "extract_messages msgs sys [] = Inl e"
  shows "sfassist_build_payload self msgs sys = Inl e"
    and "cortex_build_payload self msgs sys = Inl e"
  using assms
  by (simp_all add: sfassist_build_payload_def cortex_build_payload_def and_then_def)

lemma store_loop_start:
  assumes "store_messages h messages = Some msgs"
  shows "\<exists>out h'. store_loop (h @ [RefList []]) messages 0 sys (length h) = Some (out, h')
      \<and> (case extract_messages msgs sys [] of
            Inl e \<Rightarrow> out = Inl e
          | Inr (found, filtered) \<Rightarrow>
              out = Inr found
            \<and> (\<exists>fs'. lookup h' (length h) = Some (RefList fs')
                  \<and> map (entry_at h') fs' = map Some filtered))"
proof -
  let ?h0 = "h @ [RefList []]"
  from assms obtain ms where l: "lookup h messages = Some (RefList ms)"
    and m: "map (message_at h) ms = map Some msgs"
    by (auto simp: store_messages_Some)
  from l have lt: "messages < length h" by (rule lookup_Some_lt)
  with l have l0: "lookup ?h0 messages = Some (RefList ms)"
    by (simp add: lookup_append_old)
  have "message_at ?h0 a = message_at h a" if "a \<in> set ms" for a
  proof -
    from that m obtain kvs where "message_at h a = Some kvs"
      by (metis (no_types, lifting) in_set_conv_nth length_map nth_map)
    then have "a < length h" by (auto simp: message_at_Some dest: lookup_Some_lt)
    then show ?thesis by (intro message_at_cong lookup_append_old)
  qed
  then have "map (message_at ?h0) ms = map (message_at h) ms" by simp
  with m have m0: "map (message_at ?h0) ms = map Some msgs" by simp
  from lt have ne: "messages \<noteq> length h" by simp
  have f0: "lookup ?h0 (length h) = Some (RefList [])" by (rule lookup_append_new)
  have e0: "map (entry_at ?h0) [] = map Some []" by simp
  from store_loop_refines[OF l0 m0 ne f0 e0, of 0 sys] show ?thesis by simp
qed

lemma entries_after_alloc:
  assumes "map (entry_at h) fs = map Some filtered"
  shows "map (entry_at (h @ hs)) fs = map Some filtered"
proof -
  have "entry_at (h @ hs) a = entry_at h a" if "a \<in> set fs" for a
  proof -
    from that assms obtain e where "entry_at h a = Some e"
      by (metis (no_types, lifting) in_set_conv_nth length_map nth_map)
    then have "a < length h" by (rule entry_at_lt)
    then show ?thesis by (intro entry_at_cong lookup_append_old)
  qed
  then have "map (entry_at (h @ hs)) fs = map (entry_at h) fs" by simp
  with assms show ?thesis by simp
qed

lemma sfassist_store_refines:
  assumes "store_messages h messages = Some msgs"
  shows "\<exists>out h'. sfassist_build_payload_store self h messages sys = Some (out, h')
     \<and> (case sfassist_build_payload self msgs sys of
           Inl e \<Rightarrow> out = Inl e
         | Inr P \<Rightarrow>
             (\<exists>p entries. out = Inr p \<and> store_payload_messages h' p = Some entries
                \<and> map (entry_at h') entries = map Some (payload_messages P)))"
proof -
  let ?h0 = "h @ [RefList []]"
  from store_loop_start[OF assms, of sys] obtain out1 h1 where
    loop: "store_loop ?h0 messages 0 sys (length h) = Some (out1, h1)"
    and rel: "case extract_messages msgs sys [] of
            Inl e \<Rightarrow> out1 = Inl e
          | Inr (found, filtered) \<Rightarrow>
              out1 = Inr found
            \<and> (\<exists>fs'. lookup h1 (length h) = Some (RefList fs')
                  \<and> map (entry_at h1) fs' = map Some filtered)"
    by blast
  show ?thesis
  proof (cases "extract_messages msgs sys []")
    case (Inl e)
    with rel loop have "sfassist_build_payload_store self h messages sys = Some (Inl e, h1)"
      by (simp add: sfassist_build_payload_store_def alloc_def)
    with pure_build_error(1)[OF Inl] show ?thesis by simp
  next
    case (Inr r)
    obtain found filtered where r: "r = (found, filtered)" by (cases r)
    with rel Inr obtain fs' where out1: "out1 = Inr found"
      and fl: "lookup h1 (length h) = Some (RefList fs')"
      and ent: "map (entry_at h1) fs' = map Some filtered"
      by auto
    let ?s = "default_sys_msg found"
    let ?new = "[StrDict [(''role'', ''system''), (''content'', ?s)], RefList [length h1],
           RefList (length h1 # fs')]"
    let ?h2 = "h1 @ ?new"
    let ?h3 = "?h2 @ [Dict [(''messages'', Ref (length h1 + 2))],
           Dict [(''aplctn_cd'', Imm (aplctn_cd self)),
                 (''app_id'', Imm (app_id self)),
                 (''api_key'', Imm (api_key self)),
                 (''method'', Imm (PStr ''cortex'')),
                 (''model'', Imm (model self)),
                 (''sys_msg'', Imm (PStr ?s)),
                 (''limit_convs'', Imm (PStr ''0'')),
                 (''prompt'', Ref (length ?h2)),
                 (''app_lvl_prefix'', Imm (PStr ''edadip'')),
                 (''user_id'', Imm (PStr [])),
                 (''session_id'', Imm (PStr ''dsa_session''))],
           Dict [(''query'', Ref (length ?h2 + 1))]]"
    from loop out1 fl
    have res: "sfassist_build_payload_store self h messages sys = Some (Inr (length ?h2 + 2), ?h3)"
      by (simp add: sfassist_build_payload_store_def alloc_def alloc_all_messages_eq
            alloc_payload_eq)
    have am: "lookup ?h2 (length h1 + 2) = Some (RefList (length h1 # fs'))"
      by (simp add: lookup_def nth_append)
    have pm: "store_payload_messages ?h3 (length ?h2 + 2) = Some (length h1 # fs')"
      by (rule payload_messages_after_alloc[OF am])
    have "lookup ?h3 (length h1) = Some (StrDict [(''role'', ''system''), (''content'', ?s)])"
      by (simp add: lookup_def nth_append)
    then have hd: "entry_at ?h3 (length h1) = Some (role_content ''system'' ?s)"
      by (rule entry_at_role_content)
    from entries_after_alloc[OF ent, of "?new @ _"]
    have tl: "map (entry_at ?h3) fs' = map Some filtered" by simp
    from pure_sfassist_messages[of msgs sys found filtered self] Inr r
    obtain P where P: "sfassist_build_payload self msgs sys = Inr P"
      and PM: "payload_messages P = role_content ''system'' ?s # filtered"
      by auto
    from hd tl PM have "map (entry_at ?h3) (length h1 # fs') = map Some (payload_messages P)"
      by simp
    with res pm P show ?thesis by simp
  qed
qed

lemma cortex_store_refines:
  assumes "store_messages h messages = Some msgs"
  shows "\<exists>out h'. cortex_build_payload_store self h messages sys = Some (out, h')
     \<and> (case cortex_build_payload self msgs sys of
           Inl e \<Rightarrow> out = Inl e
         | Inr P \<Rightarrow>
             (\<exists>p entries. out = Inr p \<and> store_payload_messages h' p = Some entries
                \<and> map (entry_at h') entries = map Some (payload_messages P)))"
proof -
  let ?h0 = "h @ [RefList []]"
  from store_loop_start[OF assms, of sys] obtain out1 h1 where
    loop: "store_loop ?h0 messages 0 sys (length h) = Some (out1, h1)"
    and rel: "case extract_messages msgs sys [] of
            Inl e \<Rightarrow> out1 = Inl e
          | Inr (found, filtered) \<Rightarrow>
              out1 = Inr found
            \<and> (\<exists>fs'. lookup h1 (length h) = Some (RefList fs')
                  \<and> map (entry_at h1) fs' = map Some filtered)"
    by blast
  show ?thesis
  proof (cases "extract_messages msgs sys []")
    case (Inl e)
    with rel loop have "cortex_build_payload_store self h messages sys = Some (Inl e, h1)"
      by (simp add: cortex_build_payload_store_def alloc_def)
    with pure_build_error(2)[OF Inl] show ?thesis by simp
  next
    case (Inr r)
    obtain found filtered where r: "r = (found, filtered)" by (cases r)
    with rel Inr obtain fs' where out1: "out1 = Inr found"
      and fl: "lookup h1 (length h) = Some (RefList fs')"
      and ent: "map (entry_at h1) fs' = map Some filtered"
      by auto
    let ?s = "default_sys_msg found"
    define kept where "kept = (if length fs' > 10 then drop (length fs' - 10) fs' else fs')"
    define h2 where "h2 = (if length fs' > 10 then h1 @ [RefList kept] else h1)"
    define sliced where "sliced = (if length fs' > 10 then length h1 else length h)"
    have slice: "(if length fs' > 10
                  then alloc h1 (RefList (drop (length fs' - 10) fs'))
                  else (length h, h1)) = (sliced, h2)"
      by (simp add: alloc_def kept_def h2_def sliced_def)
    from fl have f2: "lookup h2 sliced = Some (RefList kept)"
      by (auto simp: kept_def h2_def sliced_def lookup_append_new lookup_append_old
               dest: lookup_Some_lt)
    have k: "kept = keep_last_10 fs'" by (simp add: kept_def keep_last_10_def)
    from ent have "map (entry_at h1) kept = map Some (keep_last_10 filtered)"
      unfolding k by (metis keep_last_10_map)
    then have ent2: "map (entry_at h2) kept = map Some (keep_last_10 filtered)"
      using entries_after_alloc[of h1 kept "keep_last_10 filtered" "[RefList kept]"]
      by (simp add: h2_def)
    let ?new = "[StrDict [(''role'', ''system''), (''content'', ?s)], RefList [length h2],
           RefList (length h2 # kept)]"
    let ?h3 = "h2 @ ?new"
    let ?h4 = "?h3 @ [Dict [(''name'', Imm (model self)), (''provider'', Imm (PStr ''anthropic''))]]"
    let ?h5 = "?h4 @ [Dict [(''messages'', Ref (length h2 + 2))],
           Dict [(''aplctn_cd'', Imm (aplctn_cd self)),
                 (''app_id'', Imm (app_id self)),
                 (''api_key'', Imm (api_key self)),
                 (''method'', Imm (PStr ''cortex'')),
                 (''model'', Ref (length ?h3)),
                 (''sys_msg'', Imm (PStr ?s)),
                 (''limit_convs'', Imm (PInt 0)),
                 (''prompt'', Ref (length ?h4)),
                 (''app_lvl_prefix'', Imm (PStr ''edadip'')),
                 (''user_id'', Imm (PStr [])),
                 (''session_id'', Imm (PStr ''dsa_session''))],
           Dict [(''query'', Ref (length ?h4 + 1))]]"
    from loop out1 fl f2
    have res: "cortex_build_payload_store self h messages sys = Some (Inr (length ?h4 + 2), ?h5)"
      unfolding cortex_build_payload_store_def
      by (simp add: alloc_def slice alloc_all_messages_eq alloc_payload_eq)
    have am: "lookup ?h4 (length h2 + 2) = Some (RefList (length h2 # kept))"
      by (simp add: lookup_def nth_append)
    have pm: "store_payload_messages ?h5 (length ?h4 + 2) = Some (length h2 # kept)"
      by (rule payload_messages_after_alloc[OF am])
    have "lookup ?h5 (length h2) = Some (StrDict [(''role'', ''system''), (''content'', ?s)])"
      by (simp add: lookup_def nth_append)
    then have hd: "entry_at ?h5 (length h2) = Some (role_content ''system'' ?s)"
      by (rule entry_at_role_content)
    from entries_after_alloc[OF ent2, of "?new @ _"]
    have tl: "map (entry_at ?h5) kept = map Some (keep_last_10 filtered)" by simp
    from pure_cortex_messages[of msgs sys found filtered self] Inr r
    obtain P where P: "cortex_build_payload self msgs sys = Inr P"
      and PM: "payload_messages P = role_content ''system'' ?s # keep_last_10 filtered"
      by auto
    from hd tl PM have "map (entry_at ?h5) (length h2 # kept) = map Some (payload_messages P)"
      by simp
    with res pm P show ?thesis by simp
  qed
qed

lemma store_messages_preserved:
  assumes "store_messages h messages = Some msgs"
    and "\<forall>a < length h. lookup h' a = lookup h a"
  shows "store_messages h' messages = Some msgs"
proof -
  from assms(1) obtain ms where l: "lookup h messages = Some (RefList ms)"
    and m: "map (message_at h) ms = map Some msgs"
    by (auto simp: store_messages_Some)
  from l assms(2) have l': "lookup h' messages = Some (RefList ms)"
    by (auto dest: lookup_Some_lt)
  have "message_at h' a = message_at h a" if "a \<in> set ms" for a
  proof -
    from that m obtain kvs where "message_at h a = Some kvs"
      by (metis (no_types, lifting) in_set_conv_nth length_map nth_map)
    then have "a < length h" by (auto simp: message_at_Some dest: lookup_Some_lt)
    with assms(2) show ?thesis by (intro message_at_cong) simp
  qed
  then have "map (message_at h') ms = map (message_at h) ms" by simp
  with m l' show ?thesis by (auto simp: store_messages_Some)
qed

text \<open>
  C9. \<^verbatim>\<open>_build_payload\<close> never changes its caller's objects. On the store, the call
  returns, and every object that existed before it (the \<open>messages\<close> list and every
  message dict among them) is the same afterwards; the entries of the message array of
  the payload are objects created by the call. When \<open>messages\<close> is a list of message
  dicts, it still holds the same messages after the call, and the call raises what the
  builder on values raises or returns a payload whose message array holds, in new
  dicts, the entries of the payload built on values: truncation and the removal of
  system messages show only there.
\<close>

theorem build_payload_keeps_inputs:
  "(\<exists>out h'. sfassist_build_payload_store self h messages system_message = Some (out, h')
      \<and> (\<forall>a < length h. lookup h' a = lookup h a)
      \<and> (\<forall>payload. out = Inr payload \<longrightarrow>
            (\<exists>entries. store_payload_messages h' payload = Some entries
               \<and> (\<forall>a \<in> set entries. length h \<le> a)))
      \<and> (\<forall>msgs. store_messages h messages = Some msgs \<longrightarrow>
            store_messages h' messages = Some msgs
          \<and> (case sfassist_build_payload self msgs system_message of
                Inl e \<Rightarrow> out = Inl e
              | Inr P \<Rightarrow>
                  (\<exists>p entries. out = Inr p \<and> store_payload_messages h' p = Some entries
                     \<and> map (entry_at h') entries = map Some (payload_messages P)))))
   \<and> (\<exists>out h'. cortex_build_payload_store self h messages system_message = Some (out, h')
      \<and> (\<forall>a < length h. lookup h' a = lookup h a)
      \<and> (\<forall>payload. out = Inr payload \<longrightarrow>
            (\<exists>entries. store_payload_messages h' payload = Some entries
               \<and> (\<forall>a \<in> set entries. length h \<le> a)))
      \<and> (\<forall>msgs. store_messages h messages = Some msgs \<longrightarrow>
            store_messages h' messages = Some msgs
          \<and> (case cortex_build_payload self msgs system_message of
                Inl e \<Rightarrow> out = Inl e
              | Inr P \<Rightarrow>
                  (\<exists>p entries. out = Inr p \<and> store_payload_messages h' p = Some entries
                     \<and> map (entry_at h') entries = map Some (payload_messages P)))))"
proof (rule conjI)
  from sfassist_store_frame[of self h messages system_message] obtain out h' where
    r: "sfassist_build_payload_store self h messages system_message = Some (out, h')"
    and keep: "\<forall>a < length h. lookup h' a = lookup h a"
    and new: "\<forall>payload. out = Inr payload \<longrightarrow>
            (\<exists>entries. store_payload_messages h' payload = Some entries
               \<and> (\<forall>a \<in> set entries. length h \<le> a))"
    by blast
  have "store_messages h' messages = Some msgs
          \<and> (case sfassist_build_payload self msgs system_message of
                Inl e \<Rightarrow> out = Inl e
              | Inr P \<Rightarrow>
                  (\<exists>p entries. out = Inr p \<and> store_payload_messages h' p = Some entries
                     \<and> map (entry_at h') entries = map Some (payload_messages P)))"
    if m: "store_messages h messages = Some msgs" for msgs
    using sfassist_store_refines[OF m, of self system_message]
      store_messages_preserved[OF m keep] r
    by auto
  with r keep new
  show "\<exists>out h'. sfassist_build_payload_store self h messages system_message = Some (out, h')
      \<and> (\<forall>a < length h. lookup h' a = lookup h a)
      \<and> (\<forall>payload. out = Inr payload \<longrightarrow>
            (\<exists>entries. store_payload_messages h' payload = Some entries
               \<and> (\<forall>a \<in> set entries. length h \<le> a)))
      \<and> (\<forall>msgs. store_messages h messages = Some msgs \<longrightarrow>
            store_messages h' messages = Some msgs
          \<and> (case sfassist_build_payload self msgs system_message of
                Inl e \<Rightarrow> out = Inl e
              | Inr P \<Rightarrow>
                  (\<exists>p entries. out = Inr p \<and> store_payload_messages h' p = Some entries
                     \<and> map (entry_at h') entries = map Some (payload_messages P))))"
    by blast
next
  from cortex_store_frame[of self h messages system_message] obtain out h' where
    r: "cortex_build_payload_store self h messages system_message = Some (out, h')"
    and keep: "\<forall>a < length h. lookup h' a = lookup h a"
    and new: "\<forall>payload. out = Inr payload \<longrightarrow>
            (\<exists>entries. store_payload_messages h' payload = Some entries
               \<and> (\<forall>a \<in> set entries. length h \<le> a))"
    by blast
  have "store_messages h' messages = Some msgs
          \<and> (case cortex_build_payload self msgs system_message of
                Inl e \<Rightarrow> out = Inl e
              | Inr P \<Rightarrow>
                  (\<exists>p entries. out = Inr p \<and> store_payload_messages h' p = Some entries
                     \<and> map (entry_at h') entries = map Some (payload_messages P)))"
    if m: "store_messages h messages = Some msgs" for msgs
    using cortex_store_refines[OF m, of self system_message]
      store_messages_preserved[OF m keep] r
    by auto
  with r keep new
  show "\<exists>out h'. cortex_build_payload_store self h messages system_message = Some (out, h')
      \<and> (\<forall>a < length h. lookup h' a = lookup h a)
      \<and> (\<forall>payload. out = Inr payload \<longrightarrow>
            (\<exists>entries. store_payload_messages h' payload = Some entries
               \<and> (\<forall>a \<in> set entries. length h \<le> a)))
      \<and> (\<forall>msgs. store_messages h messages = Some msgs \<longrightarrow>
            store_messages h' messages = Some msgs
          \<and> (case cortex_build_payload self msgs system_message of
                Inl e \<Rightarrow> out = Inl e
              | Inr P \<Rightarrow>
                  (\<exists>p entries. out = Inr p \<and> store_payload_messages h' p = Some entries
                     \<and> map (entry_at h') entries = map Some (payload_messages P))))"
    by blast
qed

lemma sample_store_messages:
  "store_messages sample_store 2 = Some [system_says ''S'', user_says ''hi'']"
  by (simp add: store_messages_def sample_store_def lookup_def message_at_def)

lemma sample_extract:
  "extract_messages [system_says ''S'', user_says ''hi''] None []
     = Inr (Some ''S'', [role_content ''user'' ''hi''])"
  by (simp add: system_says_def user_says_def not_sys_msg_def)

theorem build_payload_keeps_inputs_witness:
  "store_messages sample_store 2 = Some [system_says ''S'', user_says ''hi'']
   \<and> (\<exists>out h'. sfassist_build_payload_store sample_client sample_store 2 None = Some (out, h')
        \<and> lookup h' 0 = Some (StrDict (system_says ''S''))
        \<and> lookup h' 1 = Some (StrDict (user_says ''hi''))
        \<and> lookup h' 2 = Some (RefList [0, 1])
        \<and> store_messages h' 2 = Some [system_says ''S'', user_says ''hi'']
        \<and> (\<exists>p entries. out = Inr p \<and> store_payload_messages h' p = Some entries
              \<and> map (entry_at h') entries =
                  [Some (role_content ''system'' ''S''), Some (role_content ''user'' ''hi'')]
              \<and> list_all (\<lambda>a. 3 \<le> a) entries))
   \<and> (\<exists>out h'. cortex_build_payload_store sample_client sample_store 2 None = Some (out, h')
        \<and> lookup h' 0 = Some (StrDict (system_says ''S''))
        \<and> lookup h' 1 = Some (StrDict (user_says ''hi''))
        \<and> lookup h' 2 = Some (RefList [0, 1])
        \<and> store_messages h' 2 = Some [system_says ''S'', user_says ''hi'']
        \<and> (\<exists>p entries. out = Inr p \<and> store_payload_messages h' p = Some entries
              \<and> map (entry_at h') entries =
                  [Some (role_content ''system'' ''S''), Some (role_content ''user'' ''hi'')]
              \<and> list_all (\<lambda>a. 3 \<le> a) entries))"
proof -
  let ?msgs = "[system_says ''S'', user_says ''hi'']"
  note m = sample_store_messages
  have len: "length sample_store = 3" by (simp add: sample_store_def)
  have old: "lookup sample_store 0 = Some (StrDict (system_says ''S''))"
    "lookup sample_store 1 = Some (StrDict (user_says ''hi''))"
    "lookup sample_store 2 = Some (RefList [0, 1])"
    by (simp_all add: sample_store_def lookup_def)
  from pure_sfassist_messages[OF sample_extract, of sample_client]
  obtain P where P: "sfassist_build_payload sample_client ?msgs None = Inr P"
    and PM: "payload_messages P = [role_content ''system'' ''S'', role_content ''user'' ''hi'']"
    by (auto simp: default_sys_msg_def)
  from pure_cortex_messages[OF sample_extract, of sample_client]
  obtain Q where Q: "cortex_build_payload sample_client ?msgs None = Inr Q"
    and QM: "payload_messages Q = [role_content ''system'' ''S'', role_content ''user'' ''hi'']"
    by (auto simp: default_sys_msg_def keep_last_10_def)
  note t = build_payload_keeps_inputs[of sample_client sample_store 2 None]
  from t obtain out h' where
    r: "sfassist_build_payload_store sample_client sample_store 2 None = Some (out, h')"
    and keep: "\<forall>a < length sample_store. lookup h' a = lookup sample_store a"
    and new: "\<forall>payload. out = Inr payload \<longrightarrow>
            (\<exists>entries. store_payload_messages h' payload = Some entries
               \<and> (\<forall>a \<in> set entries. length sample_store \<le> a))"
    and ref: "\<forall>msgs. store_messages sample_store 2 = Some msgs \<longrightarrow>
            store_messages h' 2 = Some msgs
          \<and> (case sfassist_build_payload sample_client msgs None of
                Inl e \<Rightarrow> out = Inl e
              | Inr P \<Rightarrow>
                  (\<exists>p entries. out = Inr p \<and> store_payload_messages h' p = Some entries
                     \<and> map (entry_at h') entries = map Some (payload_messages P)))"
    by blast
  from ref m P PM obtain p entries where
    pe: "out = Inr p" "store_payload_messages h' p = Some entries"
      "map (entry_at h') entries =
         [Some (role_content ''system'' ''S''), Some (role_content ''user'' ''hi'')]"
    and sm: "store_messages h' 2 = Some ?msgs"
    by fastforce
  from new pe len have "list_all (\<lambda>a. 3 \<le> a) entries"
    by (auto simp: list_all_iff)
  with r keep len old pe sm
  have 1: "\<exists>out h'. sfassist_build_payload_store sample_client sample_store 2 None = Some (out, h')
        \<and> lookup h' 0 = Some (StrDict (system_says ''S''))
        \<and> lookup h' 1 = Some (StrDict (user_says ''hi''))
        \<and> lookup h' 2 = Some (RefList [0, 1])
        \<and> store_messages h' 2 = Some [system_says ''S'', user_says ''hi'']
        \<and> (\<exists>p entries. out = Inr p \<and> store_payload_messages h' p = Some entries
              \<and> map (entry_at h') entries =
                  [Some (role_content ''system'' ''S''), Some (role_content ''user'' ''hi'')]
              \<and> list_all (\<lambda>a. 3 \<le> a) entries)"
    by auto
  from t obtain out h' where
    r: "cortex_build_payload_store sample_client sample_store 2 None = Some (out, h')"
    and keep: "\<forall>a < length sample_store. lookup h' a = lookup sample_store a"
    and new: "\<forall>payload. out = Inr payload \<longrightarrow>
            (\<exists>entries. store_payload_messages h' payload = Some entries
               \<and> (\<forall>a \<in> set entries. length sample_store \<le> a))"
    and ref: "\<forall>msgs. store_messages sample_store 2 = Some msgs \<longrightarrow>
            store_messages h' 2 = Some msgs
          \<and> (case cortex_build_payload sample_client msgs None of
                Inl e \<Rightarrow> out = Inl e
              | Inr P \<Rightarrow>
                  (\<exists>p entries. out = Inr p \<and> store_payload_messages h' p = Some entries
                     \<and> map (entry_at h') entries = map Some (payload_messages P)))"
    by blast
  from ref m Q QM obtain p entries where
    pe: "out = Inr p" "store_payload_messages h' p = Some entries"
      "map (entry_at h') entries =
         [Some (role_content ''system'' ''S''), Some (role_content ''user'' ''hi'')]"
    and sm: "store_messages h' 2 = Some ?msgs"
    by fastforce
  from new pe len have "list_all (\<lambda>a. 3 \<le> a) entries"
    by (auto simp: list_all_iff)
  with r keep len old pe sm
  have 2: "\<exists>out h'. cortex_build_payload_store sample_client sample_store 2 None = Some (out, h')
        \<and> lookup h' 0 = Some (StrDict (system_says ''S''))
        \<and> lookup h' 1 = Some (StrDict (user_says ''hi''))
        \<and> lookup h' 2 = Some (RefList [0, 1])
        \<and> store_messages h' 2 = Some [system_says ''S'', user_says ''hi'']
        \<and> (\<exists>p entries. out = Inr p \<and> store_payload_messages h' p = Some entries
              \<and> map (entry_at h') entries =
                  [Some (role_content ''system'' ''S''), Some (role_content ''user'' ''hi'')]
              \<and> list_all (\<lambda>a. 3 \<le> a) entries)"
    by auto
  from m 1 2 show ?thesis by blast
qed

end
